theory Spec2Isabelle
  imports Complex_Main
begin

section \<open>Numbers and arrays of the solver\<close>

text \<open>
  The solver \<^verbatim>\<open>cn_scheme\<close> of \<^verbatim>\<open>dark_matters/emissions/cn_electron.py\<close> computes on
  numpy arrays of IEEE doubles.  A cell is modelled by \<open>npfloat\<close>: a finite value is a
  real number (rounding and overflow are idealised away, and the two zeros are one), and
  the three special values of IEEE arithmetic are kept, because the convergence tests of
  the solver divide by zero on purpose and compare against the result.
\<close>

datatype npfloat = Fin real | PInf | NInf | NaN

datatype error = IndexError | ValueError | TypeError | ZeroDivisionError | NameError | AttributeError

type_synonym vec = "npfloat list"
type_synonym mat = "npfloat list list"

fun np_neg :: "npfloat \<Rightarrow> npfloat" where
  "np_neg (Fin a) = Fin (- a)"
| "np_neg PInf = NInf"
| "np_neg NInf = PInf"
| "np_neg NaN = NaN"

fun np_abs :: "npfloat \<Rightarrow> npfloat" where
  "np_abs (Fin a) = Fin \<bar>a\<bar>"
| "np_abs PInf = PInf"
| "np_abs NInf = PInf"
| "np_abs NaN = NaN"

fun np_add :: "npfloat \<Rightarrow> npfloat \<Rightarrow> npfloat" where
  "np_add (Fin a) (Fin b) = Fin (a + b)"
| "np_add NaN y = NaN"
| "np_add x NaN = NaN"
| "np_add PInf NInf = NaN"
| "np_add NInf PInf = NaN"
| "np_add PInf y = PInf"
| "np_add x PInf = PInf"
| "np_add NInf y = NInf"
| "np_add x NInf = NInf"

definition np_sub :: "npfloat \<Rightarrow> npfloat \<Rightarrow> npfloat" where
  "np_sub x y = np_add x (np_neg y)"

text \<open>The sign of a value, for products and quotients with an infinity: \<open>None\<close> is zero.\<close>

fun np_sign :: "npfloat \<Rightarrow> bool option" where
  "np_sign (Fin a) = (if a = 0 then None else Some (0 < a))"
| "np_sign PInf = Some True"
| "np_sign NInf = Some False"
| "np_sign NaN = None"

definition signed_inf :: "bool \<Rightarrow> npfloat" where
  "signed_inf pos = (if pos then PInf else NInf)"

fun np_mul :: "npfloat \<Rightarrow> npfloat \<Rightarrow> npfloat" where
  "np_mul (Fin a) (Fin b) = Fin (a * b)"
| "np_mul NaN y = NaN"
| "np_mul x NaN = NaN"
| "np_mul x y =
     (case (np_sign x, np_sign y) of
        (Some p, Some q) \<Rightarrow> signed_inf (p = q)
      | _ \<Rightarrow> NaN)"

text \<open>
  Division as numpy does it: a finite non-zero value over zero is an infinity, zero over
  zero and infinity over infinity are NaN, and nothing is raised.
\<close>

fun np_div :: "npfloat \<Rightarrow> npfloat \<Rightarrow> npfloat" where
  "np_div (Fin a) (Fin b) =
     (if b \<noteq> 0 then Fin (a / b)
      else if a = 0 then NaN
      else signed_inf (0 < a))"
| "np_div NaN y = NaN"
| "np_div x NaN = NaN"
| "np_div (Fin a) y = Fin 0"
| "np_div x (Fin b) = signed_inf ((np_sign x = Some True) = (0 \<le> b))"
| "np_div x y = NaN"

fun np_less :: "npfloat \<Rightarrow> npfloat \<Rightarrow> bool" where
  "np_less (Fin a) (Fin b) = (a < b)"
| "np_less NaN y = False"
| "np_less x NaN = False"
| "np_less x NInf = False"
| "np_less PInf y = False"
| "np_less x y = True"

definition np_greater :: "npfloat \<Rightarrow> npfloat \<Rightarrow> bool" where
  "np_greater x y = np_less y x"

fun np_log :: "npfloat \<Rightarrow> npfloat" where
  "np_log (Fin a) = (if 0 < a then Fin (ln a) else if a = 0 then NInf else NaN)"
| "np_log PInf = PInf"
| "np_log NInf = NaN"
| "np_log NaN = NaN"

fun np_log10 :: "npfloat \<Rightarrow> npfloat" where
  "np_log10 (Fin a) = (if 0 < a then Fin (log 10 a) else if a = 0 then NInf else NaN)"
| "np_log10 PInf = PInf"
| "np_log10 NInf = NaN"
| "np_log10 NaN = NaN"

definition is_int :: "real \<Rightarrow> bool" where
  "is_int y = (y = of_int \<lfloor>y\<rfloor>)"

definition is_odd_int :: "real \<Rightarrow> bool" where
  "is_odd_int y = (is_int y \<and> odd \<lfloor>y\<rfloor>)"

text \<open>The power \<^verbatim>\<open>x**y\<close> of two doubles, with the special cases of IEEE \<^verbatim>\<open>pow\<close>.\<close>

fun np_pow :: "npfloat \<Rightarrow> npfloat \<Rightarrow> npfloat" where
  "np_pow (Fin x) (Fin y) =
     (if y = 0 \<or> x = 1 then Fin 1
      else if 0 < x then Fin (x powr y)
      else if x = 0 then (if y < 0 then PInf else Fin 0)
      else if is_int y then Fin (power_int x \<lfloor>y\<rfloor>)
      else NaN)"
| "np_pow NaN (Fin y) = (if y = 0 then Fin 1 else NaN)"
| "np_pow PInf (Fin y) = (if y = 0 then Fin 1 else if y < 0 then Fin 0 else PInf)"
| "np_pow NInf (Fin y) =
     (if y = 0 then Fin 1 else if y < 0 then Fin 0
      else if is_odd_int y then NInf else PInf)"
| "np_pow (Fin x) NaN = (if x = 1 then Fin 1 else NaN)"
| "np_pow (Fin x) PInf =
     (if \<bar>x\<bar> = 1 then Fin 1 else if \<bar>x\<bar> < 1 then Fin 0 else PInf)"
| "np_pow (Fin x) NInf =
     (if \<bar>x\<bar> = 1 then Fin 1 else if \<bar>x\<bar> < 1 then PInf else Fin 0)"
| "np_pow x NaN = NaN"
| "np_pow NaN y = NaN"
| "np_pow x PInf = PInf"
| "np_pow x NInf = Fin 0"


text \<open>
  The arithmetic operators of Python on cells.  \<open>\<le>\<close> is not used by the solver; it is
  given its IEEE meaning to complete the instance.
\<close>

instantiation npfloat :: "{plus, minus, uminus, times, inverse, abs, ord}"
begin

definition plus_npfloat :: "npfloat \<Rightarrow> npfloat \<Rightarrow> npfloat" where
  [simp]: "plus_npfloat = np_add"

definition minus_npfloat :: "npfloat \<Rightarrow> npfloat \<Rightarrow> npfloat" where
  [simp]: "minus_npfloat = np_sub"

definition uminus_npfloat :: "npfloat \<Rightarrow> npfloat" where
  [simp]: "uminus_npfloat = np_neg"

definition times_npfloat :: "npfloat \<Rightarrow> npfloat \<Rightarrow> npfloat" where
  [simp]: "times_npfloat = np_mul"

definition divide_npfloat :: "npfloat \<Rightarrow> npfloat \<Rightarrow> npfloat" where
  [simp]: "divide_npfloat = np_div"

definition inverse_npfloat :: "npfloat \<Rightarrow> npfloat" where
  [simp]: "inverse_npfloat = np_div (Fin 1)"

definition abs_npfloat :: "npfloat \<Rightarrow> npfloat" where
  [simp]: "abs_npfloat = np_abs"

definition less_npfloat :: "npfloat \<Rightarrow> npfloat \<Rightarrow> bool" where
  [simp]: "less_npfloat = np_less"

definition less_eq_npfloat :: "npfloat \<Rightarrow> npfloat \<Rightarrow> bool" where
  [simp]: "less_eq_npfloat x y = (np_less x y \<or> (x = y \<and> x \<noteq> NaN))"

instance ..

end

subsection \<open>Arrays\<close>

text \<open>
  A rank-2 array is the list of its rows.  \<open>in2\<close> is the condition under which the
  index \<^verbatim>\<open>m[i,j]\<close> does not raise, \<open>at2\<close> the cell it reads.
\<close>

definition in2 :: "mat \<Rightarrow> nat \<Rightarrow> nat \<Rightarrow> bool" where
  "in2 m i j = (i < length m \<and> j < length (m ! i))"

definition at2 :: "mat \<Rightarrow> nat \<Rightarrow> nat \<Rightarrow> npfloat" where
  "at2 m i j = m ! i ! j"

definition bind_err :: "error + 'a \<Rightarrow> ('a \<Rightarrow> error + 'b) \<Rightarrow> error + 'b" where
  "bind_err r f = (case r of Inl e \<Rightarrow> Inl e | Inr x \<Rightarrow> f x)"

text \<open>
  The slice assignment \<^verbatim>\<open>xs[lo:hi] = vs\<close>: the slice is clipped to the array, a value
  of length one is broadcast, any other length mismatch raises.
\<close>

definition set_slice :: "vec \<Rightarrow> nat \<Rightarrow> nat \<Rightarrow> vec \<Rightarrow> error + vec" where
  "set_slice xs lo hi vs =
     (let lo' = min lo (length xs); hi' = max lo' (min hi (length xs)) in
      if length vs = hi' - lo' then Inr (take lo' xs @ vs @ drop hi' xs)
      else if length vs = 1 then Inr (take lo' xs @ replicate (hi' - lo') (hd vs) @ drop hi' xs)
      else Inl ValueError)"

section \<open>The solver object\<close>

datatype effect = Loss | Diffusion | All

record loss_constants =
  ICISRF :: npfloat
  ICCMB :: npfloat
  sync :: npfloat
  coul :: npfloat
  brem :: npfloat

text \<open>
  The fields of \<^verbatim>\<open>cn_scheme\<close> that the modelled methods read or write.  The fields that
  are still \<^verbatim>\<open>None\<close> when \<^verbatim>\<open>cn_2D\<close> runs in some mode are options.
\<close>

record cn_scheme =
  effect :: effect
  Q :: mat
  r_bins :: nat
  E_bins :: nat
  r_grid :: vec
  E_grid :: vec
  r0 :: npfloat
  E0 :: npfloat
  logr_grid :: vec
  logE_grid :: vec
  delta :: npfloat
  d0 :: npfloat
  D0 :: npfloat
  D :: mat
  dDdr :: mat
  b :: mat
  constants :: loss_constants
  Delta_r :: npfloat
  Delta_E :: npfloat
  Delta_t :: npfloat
  Delta_ti :: npfloat
  loss_ts :: mat
  diff_ts :: mat
  benchmark_flag :: bool
  const_Delta_t :: bool
  smallest_Delta_t :: "npfloat option"
  max_t_part :: "nat option"
  Delta_t_reduction :: "npfloat option"
  animation_flag :: bool
  snapshots :: "(mat \<times> npfloat) list option"
  electrons :: "mat option"

subsection \<open>Prefactors of the log transform\<close>

text \<open>\<^verbatim>\<open>(10**self.logr_grid[i]*np.log(10)*self.r0)**-1\<close>, for an index in range.\<close>

definition r_prefactor :: "cn_scheme \<Rightarrow> nat \<Rightarrow> npfloat" where
  "r_prefactor s i =
     np_pow (np_pow (Fin 10) (logr_grid s ! i) * np_log (Fin 10) * r0 s) (Fin (- 1))"

definition E_prefactor :: "cn_scheme \<Rightarrow> nat \<Rightarrow> npfloat" where
  "E_prefactor s j =
     np_pow (np_pow (Fin 10) (logE_grid s ! j) * np_log (Fin 10) * E0 s) (Fin (- 1))"

subsection \<open>Stencil coefficients\<close>

text \<open>
  Each coefficient function takes an array of indices on one axis and one index on the
  other.  The guard is the condition under which numpy raises no \<^verbatim>\<open>IndexError\<close>.
\<close>

definition r_ok :: "cn_scheme \<Rightarrow> nat \<Rightarrow> nat \<Rightarrow> bool" where
  "r_ok s i j = (i < length (logr_grid s) \<and> in2 (D s) i j \<and> in2 (dDdr s) i j)"

definition r_alpha1 :: "cn_scheme \<Rightarrow> nat list \<Rightarrow> nat \<Rightarrow> error + vec" where
  "r_alpha1 s is j =
     (if \<forall>i \<in> set is. r_ok s i j then
        Inr (map (\<lambda>i. Delta_t s * np_pow (r_prefactor s i) (Fin 2) *
                 ((- (np_log10 (Fin 10) * at2 (D s) i j + at2 (dDdr s) i j)) / (Fin 2 * Delta_r s)
                  + at2 (D s) i j / np_pow (Delta_r s) (Fin 2))) is)
      else Inl IndexError)"

definition r_alpha2 :: "cn_scheme \<Rightarrow> nat list \<Rightarrow> nat \<Rightarrow> error + vec" where
  "r_alpha2 s is j =
     (if is \<noteq> [] \<and> r_ok s 0 j \<and> (\<forall>i \<in> set (tl is). r_ok s i j) then
        Inr ((Delta_t s * np_pow (r_prefactor s 0) (Fin 2) * Fin 4 * at2 (D s) 0 j
                / np_pow (Delta_r s) (Fin 2))
             # map (\<lambda>i. Delta_t s * np_pow (r_prefactor s i) (Fin 2) *
                      (Fin 2 * at2 (D s) i j / np_pow (Delta_r s) (Fin 2))) (tl is))
      else Inl IndexError)"

definition r_alpha3 :: "cn_scheme \<Rightarrow> nat list \<Rightarrow> nat \<Rightarrow> error + vec" where
  "r_alpha3 s is j =
     (if is \<noteq> [] \<and> r_ok s 0 j \<and> (\<forall>i \<in> set (tl is). r_ok s i j) then
        Inr ((Delta_t s * np_pow (r_prefactor s 0) (Fin 2) * Fin 4 * at2 (D s) 0 j
                / np_pow (Delta_r s) (Fin 2))
             # map (\<lambda>i. Delta_t s * np_pow (r_prefactor s i) (Fin 2) *
                      ((np_log10 (Fin 10) * at2 (D s) i j + at2 (dDdr s) i j) / (Fin 2 * Delta_r s)
                       + at2 (D s) i j / np_pow (Delta_r s) (Fin 2))) (tl is))
      else Inl IndexError)"

definition E_ok :: "cn_scheme \<Rightarrow> nat \<Rightarrow> nat \<Rightarrow> bool" where
  "E_ok s i j = (j < length (logE_grid s) \<and> in2 (b s) i j)"

definition E_alpha1 :: "cn_scheme \<Rightarrow> nat \<Rightarrow> nat list \<Rightarrow> error + vec" where
  "E_alpha1 s i js = Inr (replicate (length js) (Fin 0))"

definition E_alpha2 :: "cn_scheme \<Rightarrow> nat \<Rightarrow> nat list \<Rightarrow> error + vec" where
  "E_alpha2 s i js =
     (if \<forall>j \<in> set js. E_ok s i j then
        Inr (map (\<lambda>j. Delta_t s * E_prefactor s j * at2 (b s) i j / Delta_E s) js)
      else Inl IndexError)"

text \<open>
  \<^verbatim>\<open>alpha[:-1]\<close> is filled from the indices \<^verbatim>\<open>j[:-1]+1\<close>, then \<^verbatim>\<open>alpha[-1]\<close> from
  \<^verbatim>\<open>j[-1]\<close>: the last position of the index array that was passed, whatever it is.
\<close>

definition E_alpha3 :: "cn_scheme \<Rightarrow> nat \<Rightarrow> nat list \<Rightarrow> error + vec" where
  "E_alpha3 s i js =
     (if js \<noteq> [] \<and> (\<forall>j \<in> set (butlast js). E_ok s i (j + 1)) \<and> E_ok s i (last js) then
        Inr (map (\<lambda>j. Delta_t s * (E_prefactor s (j + 1) * at2 (b s) i (j + 1) / Delta_E s))
               (butlast js)
             @ [Delta_t s * (E_prefactor s (last js) * at2 (b s) i (last js) / Delta_E s)])
      else Inl IndexError)"


subsection \<open>Sparse matrices\<close>

text \<open>
  A matrix built by \<^verbatim>\<open>scipy.sparse.diags\<close> with the offsets \<^verbatim>\<open>[-1,0,1]\<close> is kept as its
  three diagonals: entry \<open>(r, r)\<close> is \<open>sp_main ! r\<close>, entry \<open>(r, r + 1)\<close> is \<open>sp_upper ! r\<close>
  and entry \<open>(r + 1, r)\<close> is \<open>sp_lower ! r\<close>.  scipy reads the leading elements of each
  array it is given (\<open>n\<close> for the main diagonal, \<open>n - 1\<close> for the others), stretches an
  array of length one and raises on a shorter one, and on an empty shape.
\<close>

record spmatrix =
  sp_dim :: nat
  sp_lower :: vec
  sp_main :: vec
  sp_upper :: vec

definition fit_diag :: "nat \<Rightarrow> vec \<Rightarrow> vec option" where
  "fit_diag n xs =
     (if n \<le> length xs then Some (take n xs)
      else if length xs = 1 then Some (replicate n (hd xs))
      else None)"

definition sparse_diags :: "vec \<Rightarrow> vec \<Rightarrow> vec \<Rightarrow> nat \<Rightarrow> error + spmatrix" where
  "sparse_diags k_l k_m k_u n =
     (if n = 0 then Inl ValueError
      else case (fit_diag (n - 1) k_l, fit_diag n k_m, fit_diag (n - 1) k_u) of
             (Some l, Some m, Some u) \<Rightarrow>
               Inr \<lparr>sp_dim = n, sp_lower = l, sp_main = m, sp_upper = u\<rparr>
           | _ \<Rightarrow> Inl ValueError)"

text \<open>
  The product \<^verbatim>\<open>A.dot(x)\<close>.  The conversion to CSR drops the cells that are zero, so a
  zero cell contributes nothing, also against an infinite or NaN component of \<open>x\<close>.
\<close>

definition sp_term :: "npfloat \<Rightarrow> npfloat \<Rightarrow> npfloat" where
  "sp_term c x = (if c = Fin 0 then Fin 0 else c * x)"

definition sp_row :: "spmatrix \<Rightarrow> vec \<Rightarrow> nat \<Rightarrow> npfloat" where
  "sp_row A x r =
     (if 0 < r then sp_term (sp_lower A ! (r - 1)) (x ! (r - 1)) else Fin 0)
     + sp_term (sp_main A ! r) (x ! r)
     + (if r + 1 < sp_dim A then sp_term (sp_upper A ! r) (x ! (r + 1)) else Fin 0)"

definition sp_dot :: "spmatrix \<Rightarrow> vec \<Rightarrow> error + vec" where
  "sp_dot A x =
     (if length x = sp_dim A then Inr (map (sp_row A x) [0..<sp_dim A])
      else Inl ValueError)"

fun fold_err :: "('a \<Rightarrow> 'b \<Rightarrow> error + 'a) \<Rightarrow> 'b list \<Rightarrow> 'a \<Rightarrow> error + 'a" where
  "fold_err f [] a = Inr a"
| "fold_err f (x # xs) a = bind_err (f a x) (fold_err f xs)"

type_synonym diagonals = "vec \<times> vec \<times> vec \<times> vec"

text \<open>One pass of the loop of \<^verbatim>\<open>spmatrices_loss\<close>: block \<open>i\<close> of the four diagonals.\<close>

definition loss_block :: "cn_scheme \<Rightarrow> diagonals \<Rightarrow> nat \<Rightarrow> error + diagonals" where
  "loss_block s ks i =
     (case ks of (k_u, k_mA, k_mB, k_l) \<Rightarrow>
        let J = E_bins s in
        bind_err (E_alpha3 s i (butlast [0..<J])) (\<lambda>a3.
        bind_err (set_slice k_u (i * J) ((i + 1) * J - 1) (map (\<lambda>x. (- x) / Fin 2) a3)) (\<lambda>k_u'.
        bind_err (E_alpha2 s i [0..<J]) (\<lambda>a2.
        bind_err (set_slice k_mA (i * J) ((i + 1) * J) (map (\<lambda>x. Fin 1 + x / Fin 2) a2)) (\<lambda>k_mA'.
        bind_err (set_slice k_mB (i * J) ((i + 1) * J) (map (\<lambda>x. Fin 1 - x / Fin 2) a2)) (\<lambda>k_mB'.
        bind_err (E_alpha1 s i (tl [0..<J])) (\<lambda>a1.
        bind_err (set_slice k_l (i * J) ((i + 1) * J - 1) (map (\<lambda>x. (- x) / Fin 2) a1)) (\<lambda>k_l'.
        Inr (k_u', k_mA', k_mB', k_l')))))))))"

definition assemble :: "diagonals \<Rightarrow> nat \<Rightarrow> error + spmatrix \<times> spmatrix" where
  "assemble ks n =
     (case ks of (k_u, k_mA, k_mB, k_l) \<Rightarrow>
        bind_err (sparse_diags k_l k_mA k_u n) (\<lambda>A.
        bind_err (sparse_diags (map uminus k_l) k_mB (map uminus k_u) n) (\<lambda>B.
        Inr (A, B))))"

definition spmatrices_loss :: "cn_scheme \<Rightarrow> error + spmatrix \<times> spmatrix" where
  "spmatrices_loss s =
     (let I = r_bins s; J = E_bins s; IJ = I * J; z = replicate IJ (Fin 0) in
      bind_err (fold_err (loss_block s) [0..<I] (z, z, z, z)) (\<lambda>ks. assemble ks IJ))"

definition diff_block :: "cn_scheme \<Rightarrow> diagonals \<Rightarrow> nat \<Rightarrow> error + diagonals" where
  "diff_block s ks j =
     (case ks of (k_u, k_mA, k_mB, k_l) \<Rightarrow>
        let I = r_bins s in
        bind_err (r_alpha3 s (butlast [0..<I]) j) (\<lambda>a3.
        bind_err (set_slice k_u (j * I) ((j + 1) * I - 1) (map (\<lambda>x. (- x) / Fin 2) a3)) (\<lambda>k_u'.
        bind_err (r_alpha2 s [0..<I] j) (\<lambda>a2.
        bind_err (set_slice k_mA (j * I) ((j + 1) * I) (map (\<lambda>x. Fin 1 + x / Fin 2) a2)) (\<lambda>k_mA'.
        bind_err (set_slice k_mB (j * I) ((j + 1) * I) (map (\<lambda>x. Fin 1 - x / Fin 2) a2)) (\<lambda>k_mB'.
        bind_err (r_alpha1 s (tl [0..<I]) j) (\<lambda>a1.
        bind_err (set_slice k_l (j * I) ((j + 1) * I - 1) (map (\<lambda>x. (- x) / Fin 2) a1)) (\<lambda>k_l'.
        Inr (k_u', k_mA', k_mB', k_l')))))))))"

definition spmatrices_diff :: "cn_scheme \<Rightarrow> error + spmatrix \<times> spmatrix" where
  "spmatrices_diff s =
     (let I = r_bins s; J = E_bins s; IJ = I * J; z = replicate IJ (Fin 0) in
      bind_err (fold_err (diff_block s) [0..<J] (z, z, z, z)) (\<lambda>ks. assemble ks IJ))"


subsection \<open>Elementwise operations and reshaping\<close>

text \<open>
  numpy combines two arrays cell by cell after stretching every axis of length one to
  the length of the other array, and raises \<^verbatim>\<open>ValueError\<close> when two lengths differ and
  neither is one.  \<open>bcell\<close> reads a cell of a stretched array.
\<close>

definition ncols :: "'a list list \<Rightarrow> nat" where
  "ncols m = (if m = [] then 0 else length (hd m))"

definition shape :: "'a list list \<Rightarrow> nat \<times> nat" where
  "shape m = (length m, ncols m)"

definition bc_len :: "nat \<Rightarrow> nat \<Rightarrow> nat option" where
  "bc_len m n = (if m = n then Some m else if m = 1 then Some n else if n = 1 then Some m else None)"

definition bc_shape :: "nat \<times> nat \<Rightarrow> nat \<times> nat \<Rightarrow> (nat \<times> nat) option" where
  "bc_shape p q =
     (case (bc_len (fst p) (fst q), bc_len (snd p) (snd q)) of
        (Some r, Some c) \<Rightarrow> Some (r, c)
      | _ \<Rightarrow> None)"

definition bcell :: "'a list list \<Rightarrow> nat \<Rightarrow> nat \<Rightarrow> 'a" where
  "bcell m i j = m ! (if length m = 1 then 0 else i) ! (if ncols m = 1 then 0 else j)"

definition tabulate2 :: "nat \<Rightarrow> nat \<Rightarrow> (nat \<Rightarrow> nat \<Rightarrow> 'a) \<Rightarrow> 'a list list" where
  "tabulate2 R C f = map (\<lambda>i. map (\<lambda>j. f i j) [0..<C]) [0..<R]"

definition ew2 :: "('a \<Rightarrow> 'b \<Rightarrow> 'c) \<Rightarrow> 'a list list \<Rightarrow> 'b list list \<Rightarrow> error + 'c list list" where
  "ew2 f A B =
     (case bc_shape (shape A) (shape B) of
        None \<Rightarrow> Inl ValueError
      | Some (R, C) \<Rightarrow> Inr (tabulate2 R C (\<lambda>i j. f (bcell A i j) (bcell B i j))))"

definition ew3 :: "('a \<Rightarrow> 'a \<Rightarrow> 'a \<Rightarrow> 'c) \<Rightarrow> 'a list list \<Rightarrow> 'a list list \<Rightarrow> 'a list list
    \<Rightarrow> error + 'c list list" where
  "ew3 f A B C =
     (case Option.bind (bc_shape (shape A) (shape B)) (\<lambda>p. bc_shape p (shape C)) of
        None \<Rightarrow> Inl ValueError
      | Some (R, K) \<Rightarrow> Inr (tabulate2 R K (\<lambda>i j. f (bcell A i j) (bcell B i j) (bcell C i j))))"

definition ew4 :: "('a \<Rightarrow> 'a \<Rightarrow> 'a \<Rightarrow> 'a \<Rightarrow> 'c) \<Rightarrow> 'a list list \<Rightarrow> 'a list list \<Rightarrow> 'a list list
    \<Rightarrow> 'a list list \<Rightarrow> error + 'c list list" where
  "ew4 f A B C E =
     (case Option.bind (Option.bind (bc_shape (shape A) (shape B)) (\<lambda>p. bc_shape p (shape C)))
             (\<lambda>p. bc_shape p (shape E)) of
        None \<Rightarrow> Inl ValueError
      | Some (R, K) \<Rightarrow>
          Inr (tabulate2 R K (\<lambda>i j. f (bcell A i j) (bcell B i j) (bcell C i j) (bcell E i j))))"

definition ew1 :: "('a \<Rightarrow> 'b \<Rightarrow> 'c) \<Rightarrow> 'a list \<Rightarrow> 'b list \<Rightarrow> error + 'c list" where
  "ew1 f xs ys =
     (case bc_len (length xs) (length ys) of
        None \<Rightarrow> Inl ValueError
      | Some n \<Rightarrow> Inr (map (\<lambda>k. f (xs ! (if length xs = 1 then 0 else k))
                                  (ys ! (if length ys = 1 then 0 else k))) [0..<n]))"

definition np_all :: "bool list list \<Rightarrow> bool" where
  "np_all m = list_all (list_all (\<lambda>c. c)) m"

text \<open>\<^verbatim>\<open>np.tensordot(xs, ys, axes=0)\<close>, the outer product.\<close>

definition outer :: "vec \<Rightarrow> vec \<Rightarrow> mat" where
  "outer xs ys = map (\<lambda>x. map (\<lambda>y. x * y) ys) xs"

definition ones :: "nat \<Rightarrow> vec" where
  "ones n = replicate n (Fin 1)"

text \<open>\<^verbatim>\<open>np.min\<close>: a NaN cell makes the minimum NaN, an empty array raises.\<close>

definition min2 :: "npfloat \<Rightarrow> npfloat \<Rightarrow> npfloat" where
  "min2 x y = (if x = NaN \<or> y = NaN then NaN else if y < x then y else x)"

definition np_min :: "vec \<Rightarrow> error + npfloat" where
  "np_min xs = (case xs of [] \<Rightarrow> Inl ValueError | x # ys \<Rightarrow> Inr (foldl min2 x ys))"

definition flatten_C :: "mat \<Rightarrow> vec" where
  "flatten_C m = concat m"

definition np_transpose :: "mat \<Rightarrow> mat" where
  "np_transpose m = map (\<lambda>j. map (\<lambda>row. row ! j) m) [0..<ncols m]"

definition flatten_F :: "mat \<Rightarrow> vec" where
  "flatten_F m = concat (np_transpose m)"

definition reshape_C :: "vec \<Rightarrow> nat \<Rightarrow> nat \<Rightarrow> error + mat" where
  "reshape_C v I J =
     (if length v = I * J then Inr (tabulate2 I J (\<lambda>i j. v ! (i * J + j)))
      else Inl ValueError)"

definition reshape_F :: "vec \<Rightarrow> nat \<Rightarrow> nat \<Rightarrow> error + mat" where
  "reshape_F v I J =
     (if length v = I * J then Inr (tabulate2 I J (\<lambda>i j. v ! (j * I + i)))
      else Inl ValueError)"

text \<open>\<^verbatim>\<open>psi[-1,:] = 0\<close>: raises on an array without rows.\<close>

definition zero_last_row :: "mat \<Rightarrow> error + mat" where
  "zero_last_row m =
     (if m = [] then Inl IndexError
      else Inr (butlast m @ [map (\<lambda>c. Fin 0) (last m)]))"


section \<open>The Crank-Nicolson iteration\<close>

text \<open>
  \<^verbatim>\<open>scipy.sparse.linalg.spsolve\<close> is not code of this repository: it is a parameter
  of the model.  Nothing is assumed about the vector it returns; \<^verbatim>\<open>np.reshape\<close>
  raises when its length is not \<open>I * J\<close>.
\<close>

type_synonym solver = "spmatrix \<Rightarrow> vec \<Rightarrow> vec"

definition stability_tol :: npfloat where
  "stability_tol = Fin (1 / 10 ^ 5)"

definition max_t :: nat where
  "max_t = 10 ^ 4"

text \<open>The local variables of \<^verbatim>\<open>cn_2D\<close> that live across iterations.\<close>

record cn_locals =
  psi :: mat
  psi_prev :: mat
  convergence_check :: bool
  stability_check :: bool
  loss_ts_check :: bool
  diff_ts_check :: bool
  ts_check :: bool
  benchmark_check :: bool
  rel_diff_check :: bool
  t :: nat
  t_part :: nat
  t_elapsed :: npfloat
  loss_AB :: "(spmatrix \<times> spmatrix) option"
  diff_AB :: "(spmatrix \<times> spmatrix) option"

text \<open>The block under \<^verbatim>\<open>if t>1:\<close>, which recomputes the flags from the last two iterates.\<close>

definition update_checks :: "cn_scheme \<Rightarrow> cn_locals \<Rightarrow> error + cn_locals" where
  "update_checks s l =
     (if 1 < t l then
        bind_err (ew2 (\<lambda>p q. \<bar>p / q - Fin 1\<bar> < stability_tol)
                    (butlast (psi l)) (butlast (psi_prev l))) (\<lambda>rd.
        bind_err (if const_Delta_t s then Inr (np_all rd)
                  else case max_t_part s of
                         None \<Rightarrow> Inl TypeError
                       | Some m \<Rightarrow> Inr (m < t_part l)) (\<lambda>stab.
        bind_err (ew2 (\<lambda>p q. (p - q) / Delta_t s)
                    (butlast (psi l)) (butlast (psi_prev l))) (\<lambda>dpsidt.
        bind_err (ew2 (\<lambda>p d. \<bar>p / d\<bar>) (butlast (psi l)) dpsidt) (\<lambda>psi_ts.
        bind_err (ew2 (\<lambda>p c. c < p) psi_ts (butlast (loss_ts s))) (\<lambda>lc.
        bind_err (ew2 (\<lambda>p c. c < p) psi_ts (butlast (diff_ts s))) (\<lambda>dc.
        Inr (l\<lparr>rel_diff_check := np_all rd,
                stability_check := stab,
                loss_ts_check := np_all lc,
                diff_ts_check := np_all dc,
                ts_check := (case effect s of
                               Loss \<Rightarrow> np_all lc
                             | Diffusion \<Rightarrow> np_all dc
                             | All \<Rightarrow> np_all lc \<and> np_all dc),
                benchmark_check :=
                  (if benchmark_flag s then np_all (map (map (\<lambda>d. \<bar>d\<bar> = Fin 0)) dpsidt)
                   else benchmark_check l)\<rparr>)))))))
      else Inr l)"

text \<open>
  The block under \<^verbatim>\<open>if stability_check:\<close>.  The result says whether the loop is left by
  \<^verbatim>\<open>break\<close>.
\<close>

definition rebuild :: "cn_scheme \<Rightarrow> cn_locals \<Rightarrow> error + cn_locals" where
  "rebuild s l =
     bind_err (if effect s \<in> {Loss, All}
               then bind_err (spmatrices_loss s) (\<lambda>m. Inr (l\<lparr>loss_AB := Some m\<rparr>))
               else Inr l) (\<lambda>l1.
     if effect s \<in> {Diffusion, All}
     then bind_err (spmatrices_diff s) (\<lambda>m. Inr (l1\<lparr>diff_AB := Some m\<rparr>))
     else Inr l1)"

definition switching :: "cn_scheme \<Rightarrow> cn_locals \<Rightarrow> error + bool \<times> cn_scheme \<times> cn_locals" where
  "switching s l =
     (if stability_check l then
        if benchmark_flag s then
          if ts_check l \<and> benchmark_check l
          then Inr (True, s, l\<lparr>convergence_check := True\<rparr>)
          else Inr (False, s, l)
        else if const_Delta_t s then
          if ts_check l
          then Inr (True, s, l\<lparr>convergence_check := True\<rparr>)
          else Inr (False, s, l)
        else
          case smallest_Delta_t s of
            None \<Rightarrow> Inl TypeError
          | Some smallest \<Rightarrow>
              if smallest < Delta_t s then
                case Delta_t_reduction s of
                  None \<Rightarrow> Inl TypeError
                | Some red \<Rightarrow>
                    let s' = s\<lparr>Delta_t := Delta_t s * red\<rparr> in
                    bind_err (rebuild s' (l\<lparr>t_part := 0\<rparr>)) (\<lambda>l'. Inr (False, s', l'))
              else if Delta_t s < smallest then
                if ts_check l \<or> rel_diff_check l
                then Inr (True, s, l\<lparr>convergence_check := True\<rparr>)
                else Inr (False, s, l)
              else Inr (False, s, l)
      else Inr (False, s, l))"

text \<open>
  One implicit half-step: \<^verbatim>\<open>rhs = B.dot(psi.flatten()) + Q.flatten()*self.Delta_t\<close>, then
  \<^verbatim>\<open>spsolve(A, rhs)\<close>.
\<close>

definition half_rhs :: "spmatrix \<Rightarrow> vec \<Rightarrow> vec \<Rightarrow> npfloat \<Rightarrow> error + vec" where
  "half_rhs B_mat psi_flat Q_flat dt =
     bind_err (sp_dot B_mat psi_flat) (\<lambda>Bpsi.
     ew1 (\<lambda>x y. x + y) Bpsi (map (\<lambda>q. q * dt) Q_flat))"

definition half_step :: "solver \<Rightarrow> (spmatrix \<times> spmatrix) option \<Rightarrow> vec \<Rightarrow> vec \<Rightarrow> npfloat
    \<Rightarrow> error + vec" where
  "half_step spsolve AB psi_flat Q_flat dt =
     (case AB of
        None \<Rightarrow> Inl NameError
      | Some (A_mat, B_mat) \<Rightarrow>
          bind_err (half_rhs B_mat psi_flat Q_flat dt) (\<lambda>rhs. Inr (spsolve A_mat rhs)))"

text \<open>
  The rest of the loop body: both half-steps, the boundary row, the counters and the
  snapshot.
\<close>

definition advance :: "solver \<Rightarrow> mat \<Rightarrow> cn_scheme \<Rightarrow> cn_locals \<Rightarrow> error + cn_scheme \<times> cn_locals" where
  "advance spsolve Q_in s l =
     (let I = r_bins s; J = E_bins s in
      bind_err (if effect s \<in> {Loss, All}
                then bind_err (half_step spsolve (loss_AB l) (flatten_C (psi l))
                                 (flatten_C Q_in) (Delta_t s)) (\<lambda>v. reshape_C v I J)
                else Inr (psi l)) (\<lambda>psi1.
      bind_err (if effect s \<in> {Diffusion, All}
                then bind_err (half_step spsolve (diff_AB l) (flatten_F psi1)
                                 (flatten_F Q_in) (Delta_t s)) (\<lambda>v. reshape_F v I J)
                else Inr psi1) (\<lambda>psi2.
      bind_err (zero_last_row psi2) (\<lambda>psi3.
      bind_err (if animation_flag s
                then case snapshots s of
                       None \<Rightarrow> Inl AttributeError
                     | Some sn \<Rightarrow> Inr (s\<lparr>snapshots := Some (sn @ [(butlast psi3, Delta_t s)])\<rparr>)
                else Inr s) (\<lambda>s'.
      Inr (s', l\<lparr>psi_prev := psi l, psi := psi3,
                 t_elapsed := t_elapsed l + Delta_t s,
                 t := t l + 1, t_part := t_part l + 1\<rparr>))))))"

definition cn_iter :: "solver \<Rightarrow> mat \<Rightarrow> cn_scheme \<Rightarrow> cn_locals
    \<Rightarrow> error + bool \<times> cn_scheme \<times> cn_locals" where
  "cn_iter spsolve Q_in s l =
     bind_err (update_checks s l) (\<lambda>l1.
     bind_err (switching s l1) (\<lambda>r.
       case r of (brk, s2, l2) \<Rightarrow>
         if brk then Inr (True, s2, l2)
         else bind_err (advance spsolve Q_in s2 l2) (\<lambda>r'. Inr (False, r'))))"

text \<open>\<^verbatim>\<open>while not(convergence_check) and (t < max_t)\<close>.\<close>

function cn_loop :: "solver \<Rightarrow> mat \<Rightarrow> cn_scheme \<Rightarrow> cn_locals \<Rightarrow> error + cn_scheme \<times> cn_locals" where
  "cn_loop spsolve Q_in s l =
     (if \<not> convergence_check l \<and> t l < max_t then
        case cn_iter spsolve Q_in s l of
          Inl e \<Rightarrow> Inl e
        | Inr (brk, s', l') \<Rightarrow> if brk then Inr (s', l') else cn_loop spsolve Q_in s' l'
      else Inr (s, l))"
  by pat_completeness auto
termination
proof (relation "measure (\<lambda>(spsolve, Q_in, s, l). max_t - t l)")
  show "wf (measure (\<lambda>(spsolve, Q_in, s, l). max_t - t l))" by simp
next
  fix spsolve :: solver and Q_in s l x2 x y s' l'
  assume run: "\<not> convergence_check l \<and> t l < max_t"
    and it: "cn_iter spsolve Q_in s l = Inr x2" "(x, y) = x2" "(s', l') = y" "\<not> x"
  from it obtain l1 s2 l2 where adv: "advance spsolve Q_in s2 l2 = Inr (s', l')"
    and sw: "switching s l1 = Inr (False, s2, l2)" and up: "update_checks s l = Inr l1"
    by (auto simp: cn_iter_def bind_err_def split: sum.splits prod.splits if_splits)
  from up have t1: "t l1 = t l"
    by (auto simp: update_checks_def bind_err_def split: sum.splits if_splits)
  from sw have t2: "t l2 = t l1"
    by (auto simp: switching_def rebuild_def bind_err_def Let_def
        split: sum.splits if_splits option.splits)
  from adv have t3: "t l' = t l2 + 1"
    by (auto simp: advance_def bind_err_def Let_def split: sum.splits if_splits option.splits)
  from run t1 t2 t3
  show "((spsolve, Q_in, s', l'), (spsolve, Q_in, s, l)) \<in> measure (\<lambda>(spsolve, Q_in, s, l). max_t - t l)"
    by (auto intro: diff_less_mono2)
qed

declare cn_loop.simps [simp del]


text \<open>
  \<^verbatim>\<open>cn_2D\<close>: the matrices of the first time step, the initial and boundary condition, the
  loop.  \<^verbatim>\<open>psi_prev\<close> starts as \<^verbatim>\<open>np.empty\<close>, whose cells are not read before the first
  assignment (the tests start at \<^verbatim>\<open>t>1\<close>); the model fills it with zeros.  Besides the
  returned \<^verbatim>\<open>psi\<close> the model returns the object and the locals at the end of the loop.
\<close>

definition cn_init :: "cn_scheme \<Rightarrow> mat \<Rightarrow> error + cn_scheme \<times> cn_locals" where
  "cn_init s Q_in =
     bind_err (if effect s \<in> {Loss, All}
               then bind_err (spmatrices_loss s) (\<lambda>m. Inr (Some m)) else Inr None) (\<lambda>lAB.
     bind_err (if effect s \<in> {Diffusion, All}
               then bind_err (spmatrices_diff s) (\<lambda>m. Inr (Some m)) else Inr None) (\<lambda>dAB.
     bind_err (zero_last_row Q_in) (\<lambda>psi0.
     Inr (if animation_flag s then s\<lparr>snapshots := Some [(butlast psi0, Delta_t s)]\<rparr> else s,
          \<lparr>psi = psi0, psi_prev = map (map (\<lambda>c. Fin 0)) psi0,
           convergence_check = False, stability_check = False, loss_ts_check = False,
           diff_ts_check = False, ts_check = False, benchmark_check = False,
           rel_diff_check = False, t = 0, t_part = 0, t_elapsed = Fin 0,
           loss_AB = lAB, diff_AB = dAB\<rparr>))))"

definition cn_2D :: "solver \<Rightarrow> cn_scheme \<Rightarrow> mat \<Rightarrow> error + mat \<times> cn_scheme \<times> cn_locals" where
  "cn_2D spsolve s Q_in =
     bind_err (cn_init s Q_in) (\<lambda>(s0, l0).
     bind_err (cn_loop spsolve Q_in s0 l0) (\<lambda>(s1, l1).
     Inr (psi l1, s1\<lparr>electrons := Some (psi l1)\<rparr>, l1)))"

section \<open>Coefficient fields and the entry point\<close>

text \<open>
  \<^verbatim>\<open>set_D\<close>, \<^verbatim>\<open>set_dDdr\<close> and \<^verbatim>\<open>set_b\<close> combine their array arguments cell by cell.
  Each also stores its result in the object; \<^verbatim>\<open>solveElectrons\<close> stores it again, and the
  model stores it there.
\<close>

definition set_D :: "cn_scheme \<Rightarrow> mat \<Rightarrow> mat \<Rightarrow> error + mat" where
  "set_D s B_in E_in =
     (let alpha = Fin 2 - delta s in
      ew2 (\<lambda>Bc Ec.
             let Dc = D0 s * np_pow (d0 s) (Fin 1 - alpha) * np_pow Bc (- alpha) * np_pow Ec alpha;
                 dLim = Fin (10 ^ 32) * np_pow Ec alpha
             in if dLim < Dc then dLim else Dc) B_in E_in)"

definition set_dDdr :: "cn_scheme \<Rightarrow> mat \<Rightarrow> mat \<Rightarrow> mat \<Rightarrow> error + mat" where
  "set_dDdr s B_in dBdr_in E_in =
     (let alpha = Fin 2 - delta s;
          pf = tabulate2 (r_bins s) (E_bins s) (\<lambda>i j. r_prefactor s i)
      in if r_bins s \<le> length (logr_grid s) then
           ew4 (\<lambda>pfc Bc dBc Ec.
                  (- (Fin 1 / pfc * D0 s * alpha)) * np_pow (d0 s) (Fin 1 - alpha)
                    * np_pow Bc (- alpha - Fin 1) * dBc * np_pow Ec alpha) pf B_in dBdr_in E_in
         else Inl IndexError)"

definition me :: npfloat where
  "me = Fin (511 / 10 ^ 6)"

definition set_b :: "cn_scheme \<Rightarrow> mat \<Rightarrow> mat \<Rightarrow> mat \<Rightarrow> error + mat" where
  "set_b s B_in ne_in E_in =
     ew3 (\<lambda>Bc nec Ec.
            ICISRF (constants s) * np_pow Ec (Fin 2)
            + sync (constants s) * np_pow Ec (Fin 2) * np_pow Bc (Fin 2)
            + coul (constants s) * nec * (Fin 1 + np_log (Ec / (me * nec)) / Fin 75)
            + brem (constants s) * nec * Ec) B_in ne_in E_in"

text \<open>
  The unit conversions of \<^verbatim>\<open>astropy\<close> multiply by a fixed factor each; the factors are
  parameters of the model.
\<close>

record units =
  Mpc_to_cm :: npfloat
  Mpc_to_kpc :: npfloat
  rho_to_GeV_cm3 :: npfloat
  per_Mpc_to_per_cm :: npfloat
  yr_to_s :: npfloat

text \<open>
  The arguments of \<^verbatim>\<open>solveElectrons\<close>.  Those that share their name with a field of the
  object carry the suffix \<open>_arg\<close>.
\<close>

record solve_args =
  mx :: npfloat
  z :: npfloat
  E_sample :: vec
  r_sample :: vec
  rho_sample :: vec
  Q_sample :: vec
  b_sample :: vec
  dBdr_sample :: vec
  ne_sample :: vec
  rScale :: npfloat
  eScale :: npfloat
  d0_arg :: npfloat
  delta_arg :: npfloat
  diff0 :: npfloat
  lossOnly :: bool
  mode_exp :: nat
  Delta_t_min :: npfloat
  Delta_ti_arg :: npfloat
  max_t_part_arg :: nat
  Delta_t_reduction_arg :: npfloat

text \<open>The part of \<^verbatim>\<open>solveElectrons\<close> up to the coefficient fields.\<close>

definition setup_grid :: "units \<Rightarrow> cn_scheme \<Rightarrow> solve_args \<Rightarrow> cn_scheme" where
  "setup_grid u s a =
     (let r_grid' = map (\<lambda>r. r * Mpc_to_cm u) (r_sample a);
          r0' = rScale a * Mpc_to_cm u;
          E0' = eScale a
      in s\<lparr>effect := (if lossOnly a then Loss else All),
             r_bins := length (r_sample a),
             E_bins := length (E_sample a),
             r_grid := r_grid',
             E_grid := E_sample a,
             delta := delta_arg a,
             d0 := d0_arg a * Mpc_to_kpc u,
             D0 := diff0 a,
             r0 := r0',
             E0 := E0',
             logr_grid := map (\<lambda>r. np_log10 (r / r0')) r_grid',
             logE_grid := map (\<lambda>e. np_log10 (e / E0')) (E_sample a),
             constants :=
               \<lparr>ICISRF = Fin (608 / 10 ^ 18) + Fin (25 / 10 ^ 18) * np_pow (Fin 1 + z a) (Fin 4),
                ICCMB = Fin (25 / 10 ^ 18) * np_pow (Fin 1 + z a) (Fin 4),
                sync = Fin (254 / 10 ^ 20),
                coul = Fin (613 / 10 ^ 18),
                brem = Fin (47 / 10 ^ 17)\<rparr>\<rparr>)"

definition setup_fields :: "units \<Rightarrow> cn_scheme \<Rightarrow> solve_args \<Rightarrow> error + cn_scheme" where
  "setup_fields u s a =
     (let rho = map (\<lambda>x. x * rho_to_GeV_cm3 u) (rho_sample a);
          dBdr' = map (\<lambda>x. x * per_Mpc_to_per_cm u) (dBdr_sample a)
      in if mode_exp a = 0 then Inl ZeroDivisionError
         else
           bind_err (ew2 (\<lambda>x y. x * y)
                       (map (map (\<lambda>x. Fin (1 / real (mode_exp a))
                                        * np_pow (x / mx a) (Fin (real (mode_exp a)))))
                          (outer rho (ones (length (E_grid s)))))
                       (outer (ones (length rho)) (Q_sample a))) (\<lambda>Q'.
           let Etens = outer (ones (r_bins s)) (E_grid s);
               Btens = outer (b_sample a) (ones (E_bins s));
               netens = outer (ne_sample a) (ones (E_bins s));
               dBdrtens = outer dBdr' (ones (E_bins s))
           in bind_err (set_D s Btens Etens) (\<lambda>D'.
              bind_err (set_dDdr s Btens dBdrtens Etens) (\<lambda>dDdr'.
              bind_err (set_b s Btens netens Etens) (\<lambda>b'.
              Inr (s\<lparr>Q := Q', D := D', dDdr := dDdr', b := b'\<rparr>))))))"

text \<open>Time scales, step sizes and the initial time step.\<close>

definition setup_steps :: "units \<Rightarrow> cn_scheme \<Rightarrow> solve_args \<Rightarrow> error + cn_scheme" where
  "setup_steps u s a =
     bind_err (ew2 (\<lambda>e bc. e / bc) [E_grid s] (b s)) (\<lambda>loss_ts'.
     if length (r_grid s) < 2 then Inl IndexError
     else
       let dr2 = np_pow (r_grid s ! 1 - r_grid s ! 0) (Fin 2);
           diff_ts' = map (map (\<lambda>Dc. dr2 / Dc)) (D s)
       in bind_err (np_min (concat loss_ts')) (\<lambda>loss_min.
          bind_err (np_min (concat diff_ts')) (\<lambda>diff_min.
          if length (logE_grid s) < 2 then Inl IndexError
          else
            let s1 = s\<lparr>loss_ts := loss_ts', diff_ts := diff_ts',
                       Delta_r := logr_grid s ! 1 - logr_grid s ! 0,
                       Delta_E := logE_grid s ! 1 - logE_grid s ! 0\<rparr>;
                s2 = (if benchmark_flag s1 then s1\<lparr>const_Delta_t := True\<rparr> else s1);
                s3 = (if \<not> const_Delta_t s2 then
                        s2\<lparr>Delta_ti := Delta_ti_arg a * yr_to_s u,
                           smallest_Delta_t := Some (Delta_t_min a * yr_to_s u),
                           max_t_part := Some (max_t_part_arg a),
                           Delta_t_reduction := Some (Delta_t_reduction_arg a)\<rparr>
                      else
                        s2\<lparr>Delta_ti := (case effect s2 of
                                           Loss \<Rightarrow> loss_min
                                         | Diffusion \<Rightarrow> diff_min
                                         | All \<Rightarrow> min2 loss_min diff_min)\<rparr>);
                stability_factor = (if benchmark_flag s3 then Fin (1 / 10) else Fin 1);
                adi_factor = (if effect s3 \<in> {All} then Fin (1 / 2) else Fin 1)
            in Inr (s3\<lparr>Delta_t := Delta_ti s3 * adi_factor * stability_factor\<rparr>))))"

definition solveElectrons :: "solver \<Rightarrow> units \<Rightarrow> cn_scheme \<Rightarrow> solve_args
    \<Rightarrow> error + mat \<times> cn_scheme \<times> cn_locals" where
  "solveElectrons spsolve u s a =
     bind_err (setup_fields u (setup_grid u s a) a) (\<lambda>s1.
     bind_err (setup_steps u s1 a) (\<lambda>s2.
     bind_err (cn_2D spsolve s2 (Q s2)) (\<lambda>(psi_end, s3, l3).
     Inr (np_transpose psi_end, s3, l3))))"

text \<open>
  \<^verbatim>\<open>__init__\<close> stores the three flags and sets every other field to \<^verbatim>\<open>None\<close>.  The fields
  that are not options are written by \<^verbatim>\<open>solveElectrons\<close> before they are read; the model
  gives them a placeholder.
\<close>

definition init_scheme :: "bool \<Rightarrow> bool \<Rightarrow> bool \<Rightarrow> cn_scheme" where
  "init_scheme benchmark const_dt animation =
     \<lparr>effect = All, Q = [], r_bins = 0, E_bins = 0, r_grid = [], E_grid = [],
      r0 = Fin 0, E0 = Fin 0, logr_grid = [], logE_grid = [],
      delta = Fin 0, d0 = Fin 0, D0 = Fin 0, D = [], dDdr = [], b = [],
      constants = \<lparr>ICISRF = Fin 0, ICCMB = Fin 0, sync = Fin 0, coul = Fin 0, brem = Fin 0\<rparr>,
      Delta_r = Fin 0, Delta_E = Fin 0, Delta_t = Fin 0, Delta_ti = Fin 0,
      loss_ts = [], diff_ts = [],
      benchmark_flag = benchmark, const_Delta_t = const_dt,
      smallest_Delta_t = None, max_t_part = None, Delta_t_reduction = None,
      animation_flag = animation, snapshots = None, electrons = None\<rparr>"

section \<open>A direct tridiagonal solver\<close>

text \<open>
  Gaussian elimination without pivoting on the three diagonals (the Thomas algorithm),
  one function that can stand for \<^verbatim>\<open>spsolve\<close> where an example needs a concrete one.
  Row \<open>k\<close> is read as (sub-diagonal, diagonal, super-diagonal, right-hand side).
\<close>

fun thomas_fwd :: "npfloat \<Rightarrow> npfloat \<Rightarrow> (npfloat \<times> npfloat \<times> npfloat \<times> npfloat) list
    \<Rightarrow> (npfloat \<times> npfloat) list" where
  "thomas_fwd cp dp [] = []"
| "thomas_fwd cp dp ((lo, mi, up, rh) # rows) =
     (let den = mi - lo * cp; c = up / den; d = (rh - lo * dp) / den
      in (c, d) # thomas_fwd c d rows)"

fun thomas_back :: "(npfloat \<times> npfloat) list \<Rightarrow> vec" where
  "thomas_back [] = []"
| "thomas_back ((c, d) # rest) =
     (case thomas_back rest of [] \<Rightarrow> [d] | x # xs \<Rightarrow> (d - c * x) # x # xs)"

definition thomas :: solver where
  "thomas A rhs =
     thomas_back (thomas_fwd (Fin 0) (Fin 0)
       (map (\<lambda>k. (if 0 < k then sp_lower A ! (k - 1) else Fin 0,
                   sp_main A ! k,
                   if k + 1 < length rhs then sp_upper A ! k else Fin 0,
                   rhs ! k)) [0..<length rhs]))"

section \<open>The coefficients as the specification words them\<close>

text \<open>
  The radial coefficients of the specification, for \<open>i \<ge> 1\<close>: the drift term carries
  the natural logarithm of 10.
\<close>

definition r_alpha1_spec :: "cn_scheme \<Rightarrow> nat \<Rightarrow> nat \<Rightarrow> npfloat" where
  "r_alpha1_spec s i j =
     Delta_t s * np_pow (r_prefactor s i) (Fin 2) *
       ((- (np_log (Fin 10) * at2 (D s) i j + at2 (dDdr s) i j)) / (Fin 2 * Delta_r s)
        + at2 (D s) i j / np_pow (Delta_r s) (Fin 2))"

definition r_alpha3_spec :: "cn_scheme \<Rightarrow> nat \<Rightarrow> nat \<Rightarrow> npfloat" where
  "r_alpha3_spec s i j =
     Delta_t s * np_pow (r_prefactor s i) (Fin 2) *
       ((np_log (Fin 10) * at2 (D s) i j + at2 (dDdr s) i j) / (Fin 2 * Delta_r s)
        + at2 (D s) i j / np_pow (Delta_r s) (Fin 2))"

text \<open>
  The upper energy coefficient of the specification: prefactor and loss rate at \<open>j + 1\<close>
  for every \<open>j < N_E - 1\<close>, at \<open>j\<close> for the last index.
\<close>

definition E_alpha3_spec :: "cn_scheme \<Rightarrow> nat \<Rightarrow> nat \<Rightarrow> npfloat" where
  "E_alpha3_spec s i j =
     (if j < E_bins s - 1
      then Delta_t s * (E_prefactor s (j + 1) * at2 (b s) i (j + 1) / Delta_E s)
      else Delta_t s * (E_prefactor s j * at2 (b s) i j / Delta_E s))"

section \<open>Example states\<close>

text \<open>
  Two radii \<open>r0\<close> and \<open>10 r0\<close> and one energy, with \<open>D = 1\<close>, no gradient of \<open>D\<close> and unit
  steps.
\<close>

definition ex_radial :: cn_scheme where
  "ex_radial = (init_scheme False False False)
     \<lparr>r_bins := 2, E_bins := 1, r0 := Fin 1, logr_grid := [Fin 0, Fin 1],
      D := [[Fin 1], [Fin 1]], dDdr := [[Fin 0], [Fin 0]],
      Delta_r := Fin 1, Delta_t := Fin 1\<rparr>"

text \<open>One radius and the three energies \<open>E0\<close>, \<open>10 E0\<close>, \<open>100 E0\<close>, with loss rates 1, 2, 3.\<close>

definition ex_energy :: cn_scheme where
  "ex_energy = (init_scheme False False False)
     \<lparr>effect := Loss, r_bins := 1, E_bins := 3, E0 := Fin 1,
      logE_grid := [Fin 0, Fin 1, Fin 2], b := [[Fin 1, Fin 2, Fin 3]],
      Delta_E := Fin 1, Delta_t := Fin 1\<rparr>"

text \<open>
  A state of the accelerated method at the start of an iteration with \<open>t = 2\<close>: two radii
  and two energies, the interior row unchanged since the last iterate, one more inner
  iteration done than \<^verbatim>\<open>max_t_part\<close> allows, and \<open>\<Delta>t\<close> equal to the smallest time step.
\<close>

definition ex_switch :: cn_scheme where
  "ex_switch = (init_scheme False False False)
     \<lparr>effect := Loss, r_bins := 2, E_bins := 2,
      Delta_t := Fin 10, smallest_Delta_t := Some (Fin 10), max_t_part := Some 1,
      Delta_t_reduction := Some (Fin (1 / 2)),
      loss_ts := [[Fin 1, Fin 1], [Fin 1, Fin 1]],
      diff_ts := [[Fin 1, Fin 1], [Fin 1, Fin 1]]\<rparr>"


section \<open>Well-shaped inputs and states\<close>

text \<open>An array of \<open>I\<close> rows of \<open>J\<close> cells each.\<close>

definition rect :: "nat \<Rightarrow> nat \<Rightarrow> 'a list list \<Rightarrow> bool" where
  "rect I J m = (length m = I \<and> (\<forall>row \<in> set m. length row = J))"

text \<open>What is asked of \<^verbatim>\<open>spsolve\<close>: the solution has as many components as the system.\<close>

definition solver_ok :: "solver \<Rightarrow> bool" where
  "solver_ok spsolve =
     (\<forall>A rhs. length rhs = sp_dim A \<longrightarrow> length (spsolve A rhs) = sp_dim A)"

text \<open>
  The arguments the specification calls valid, as far as the shapes go: at least two
  radii and two energies, one sample per radius or energy, and a positive exponent.
\<close>

definition valid_args :: "solve_args \<Rightarrow> bool" where
  "valid_args a =
     (2 \<le> length (r_sample a) \<and> 2 \<le> length (E_sample a)
      \<and> length (rho_sample a) = length (r_sample a)
      \<and> length (b_sample a) = length (r_sample a)
      \<and> length (dBdr_sample a) = length (r_sample a)
      \<and> length (ne_sample a) = length (r_sample a)
      \<and> length (Q_sample a) = length (E_sample a)
      \<and> 0 < mode_exp a)"

text \<open>The object as \<^verbatim>\<open>solveElectrons\<close> hands it to \<^verbatim>\<open>cn_2D\<close>, as far as the shapes go.\<close>

definition wf_scheme :: "cn_scheme \<Rightarrow> bool" where
  "wf_scheme s =
     (2 \<le> r_bins s \<and> 2 \<le> E_bins s
      \<and> length (logr_grid s) = r_bins s \<and> length (logE_grid s) = E_bins s
      \<and> rect (r_bins s) (E_bins s) (D s) \<and> rect (r_bins s) (E_bins s) (dDdr s)
      \<and> rect (r_bins s) (E_bins s) (b s)
      \<and> rect (r_bins s) (E_bins s) (loss_ts s) \<and> rect (r_bins s) (E_bins s) (diff_ts s)
      \<and> (const_Delta_t s \<or> (smallest_Delta_t s \<noteq> None \<and> max_t_part s \<noteq> None
            \<and> Delta_t_reduction s \<noteq> None)))"

definition has_matrices :: "nat \<Rightarrow> (spmatrix \<times> spmatrix) option \<Rightarrow> bool" where
  "has_matrices n AB =
     (case AB of None \<Rightarrow> False | Some (A_mat, B_mat) \<Rightarrow> sp_dim A_mat = n \<and> sp_dim B_mat = n)"

text \<open>The object and the locals of \<^verbatim>\<open>cn_2D\<close> between two iterations.\<close>

definition wf_state :: "cn_scheme \<Rightarrow> cn_locals \<Rightarrow> bool" where
  "wf_state s l =
     (wf_scheme s
      \<and> rect (r_bins s) (E_bins s) (psi l) \<and> rect (r_bins s) (E_bins s) (psi_prev l)
      \<and> (effect s = Diffusion \<or> has_matrices (r_bins s * E_bins s) (loss_AB l))
      \<and> (effect s = Loss \<or> has_matrices (r_bins s * E_bins s) (diff_AB l))
      \<and> (animation_flag s \<longrightarrow> snapshots s \<noteq> None))"

text \<open>The four diagonals under construction all have \<open>n\<close> cells.\<close>

definition len4 :: "nat \<Rightarrow> diagonals \<Rightarrow> bool" where
  "len4 n ks = (case ks of (k_u, k_mA, k_mB, k_l) \<Rightarrow>
     length k_u = n \<and> length k_mA = n \<and> length k_mB = n \<and> length k_l = n)"

text \<open>
  The boundary condition on an array of the shape of the grid: the row of the outermost
  radius is zero.
\<close>

definition zero_boundary :: "cn_scheme \<Rightarrow> mat \<Rightarrow> bool" where
  "zero_boundary s m =
     (0 < r_bins s \<and> rect (r_bins s) (E_bins s) m
      \<and> (\<forall>j < E_bins s. m ! (r_bins s - 1) ! j = Fin 0))"

text \<open>The formula of \<^verbatim>\<open>set_b\<close> for one cell.\<close>

definition b_cell :: "loss_constants \<Rightarrow> npfloat \<Rightarrow> npfloat \<Rightarrow> npfloat \<Rightarrow> npfloat" where
  "b_cell c Bc nec Ec =
     ICISRF c * np_pow Ec (Fin 2)
     + sync c * np_pow Ec (Fin 2) * np_pow Bc (Fin 2)
     + coul c * nec * (Fin 1 + np_log (Ec / (me * nec)) / Fin 75)
     + brem c * nec * Ec"

text \<open>
  The object at the end of the step-size part of \<^verbatim>\<open>solveElectrons\<close>, given the two arrays
  of time scales and their minima.
\<close>

definition steps_state :: "units \<Rightarrow> cn_scheme \<Rightarrow> solve_args \<Rightarrow> mat \<Rightarrow> mat \<Rightarrow> npfloat \<Rightarrow> npfloat
    \<Rightarrow> cn_scheme" where
  "steps_state u s a loss_ts' diff_ts' loss_min diff_min =
     (let s1 = s\<lparr>loss_ts := loss_ts', diff_ts := diff_ts',
                       Delta_r := logr_grid s ! 1 - logr_grid s ! 0,
                       Delta_E := logE_grid s ! 1 - logE_grid s ! 0\<rparr>;
                s2 = (if benchmark_flag s1 then s1\<lparr>const_Delta_t := True\<rparr> else s1);
                s3 = (if \<not> const_Delta_t s2 then
                        s2\<lparr>Delta_ti := Delta_ti_arg a * yr_to_s u,
                           smallest_Delta_t := Some (Delta_t_min a * yr_to_s u),
                           max_t_part := Some (max_t_part_arg a),
                           Delta_t_reduction := Some (Delta_t_reduction_arg a)\<rparr>
                      else
                        s2\<lparr>Delta_ti := (case effect s2 of
                                           Loss \<Rightarrow> loss_min
                                         | Diffusion \<Rightarrow> diff_min
                                         | All \<Rightarrow> min2 loss_min diff_min)\<rparr>);
                stability_factor = (if benchmark_flag s3 then Fin (1 / 10) else Fin 1);
                adi_factor = (if effect s3 \<in> {All} then Fin (1 / 2) else Fin 1)
            in s3\<lparr>Delta_t := Delta_ti s3 * adi_factor * stability_factor\<rparr>)"

text \<open>
  A call with two radii and two energies, a field of 1 \<open>\<mu>G\<close> without gradient and no
  thermal gas (\<open>n_e = 0\<close>), and the default settings of the accelerated method.  The unit
  factors are those of astropy, rounded.
\<close>

definition ex_units :: units where
  "ex_units = \<lparr>Mpc_to_cm = Fin (30857 * 10 ^ 20), Mpc_to_kpc = Fin 1000,
     rho_to_GeV_cm3 = Fin (37966 / 10 ^ 21), per_Mpc_to_per_cm = Fin (1 / (30857 * 10 ^ 20)),
     yr_to_s = Fin 31557600\<rparr>"

definition ex_args :: solve_args where
  "ex_args = \<lparr>mx = Fin 100, z = Fin 0,
     E_sample = [Fin 1, Fin 10], r_sample = [Fin 1, Fin 10],
     rho_sample = [Fin 1, Fin 1], Q_sample = [Fin 1, Fin 1],
     b_sample = [Fin 1, Fin 1], dBdr_sample = [Fin 0, Fin 0], ne_sample = [Fin 0, Fin 0],
     rScale = Fin 1, eScale = Fin 1, d0_arg = Fin (1 / 1000), delta_arg = Fin (1 / 3),
     diff0 = Fin (31 * 10 ^ 27), lossOnly = False, mode_exp = 2,
     Delta_t_min = Fin 10, Delta_ti_arg = Fin (10 ^ 9), max_t_part_arg = 100,
     Delta_t_reduction_arg = Fin (1 / 2)\<rparr>"

text \<open>
  An object ready for \<^verbatim>\<open>cn_2D\<close>: two radii and two energies, all effects, unit
  coefficients and a unit source, the accelerated method and snapshots switched on.
\<close>

definition ex_cn :: cn_scheme where
  "ex_cn = ex_switch
     \<lparr>effect := All, animation_flag := True, r0 := Fin 1, E0 := Fin 1,
      logr_grid := [Fin 0, Fin 1], logE_grid := [Fin 0, Fin 1],
      Delta_r := Fin 1, Delta_E := Fin 1,
      D := [[Fin 1, Fin 1], [Fin 1, Fin 1]], dDdr := [[Fin 0, Fin 0], [Fin 0, Fin 0]],
      b := [[Fin 1, Fin 1], [Fin 1, Fin 1]], Q := [[Fin 1, Fin 1], [Fin 1, Fin 1]]\<rparr>"

text \<open>The invariant of the loop on the snapshots, \<open>first\<close> being the one stored before it.\<close>

definition snap_inv :: "mat \<times> npfloat \<Rightarrow> cn_scheme \<Rightarrow> cn_locals \<Rightarrow> bool" where
  "snap_inv first s l =
     (animation_flag s
      \<and> (case snapshots s of
            None \<Rightarrow> False
          | Some sn \<Rightarrow> length sn = t l + 1 \<and> hd sn = first
              \<and> last sn = (butlast (psi l), Delta_t s)))"

text \<open>The same call with a thermal gas of density 1 per cubic centimetre.\<close>

definition ex_args_gas :: solve_args where
  "ex_args_gas = ex_args\<lparr>ne_sample := [Fin 1, Fin 1]\<rparr>"

text \<open>
  The state of a run that cannot converge: a constant time step, losses active, and a loss
  time scale that is NaN in its first cell.
\<close>

definition stuck :: "mat \<Rightarrow> cn_scheme \<Rightarrow> cn_locals \<Rightarrow> bool" where
  "stuck Q_in s l =
     (wf_state s l \<and> rect (r_bins s) (E_bins s) Q_in
      \<and> \<not> convergence_check l \<and> \<not> ts_check l
      \<and> (benchmark_flag s \<or> const_Delta_t s) \<and> effect s \<noteq> Diffusion
      \<and> loss_ts s ! 0 ! 0 = NaN)"

text \<open>What \<^verbatim>\<open>np.isfinite\<close> tests: neither an infinity nor NaN.\<close>

fun np_isfinite :: "npfloat \<Rightarrow> bool" where
  "np_isfinite (Fin x) = True"
| "np_isfinite PInf = False"
| "np_isfinite NInf = False"
| "np_isfinite NaN = False"

text \<open>The call of \<open>ex_args\<close> with a magnetic field that is zero at the first radius and NaN at the second.\<close>

definition ex_args_nonfinite :: solve_args where
  "ex_args_nonfinite = ex_args\<lparr>b_sample := [Fin 0, NaN]\<rparr>"

section \<open>Properties\<close>

subsection \<open>Arrays\<close>

lemma np_mul_one [simp]: "np_mul x (Fin 1) = x" "np_mul (Fin 1) x = x"
  by (cases x; simp add: signed_inf_def)+

lemma np_add_NaN [simp]: "np_add x NaN = NaN" "np_add NaN x = NaN"
  by (cases x; simp)+

lemma np_mul_NaN [simp]: "np_mul x NaN = NaN" "np_mul NaN x = NaN"
  by (cases x; simp)+

lemma rect_tabulate2 [simp]: "rect R C (tabulate2 R C f)"
  by (auto simp: rect_def tabulate2_def)

lemma tabulate2_nth [simp]: "i < R \<Longrightarrow> j < C \<Longrightarrow> tabulate2 R C f ! i ! j = f i j"
  by (simp add: tabulate2_def)

lemma rect_length: "rect I J m \<Longrightarrow> length m = I"
  by (simp add: rect_def)

lemma rect_row: "rect I J m \<Longrightarrow> i < I \<Longrightarrow> length (m ! i) = J"
  by (simp add: rect_def)

lemma ncols_rect: "rect I J m \<Longrightarrow> 0 < I \<Longrightarrow> ncols m = J"
  by (cases m) (auto simp: rect_def ncols_def)

lemma shape_rect: "rect I J m \<Longrightarrow> 0 < I \<Longrightarrow> shape m = (I, J)"
  by (simp add: shape_def ncols_rect rect_length)

lemma bcell_rect: "rect I J m \<Longrightarrow> i < I \<Longrightarrow> j < J \<Longrightarrow> bcell m i j = m ! i ! j"
  by (auto simp: bcell_def ncols_rect rect_length)

lemma bc_len_same [simp]: "bc_len n n = Some n"
  by (simp add: bc_len_def)

lemma bc_shape_same [simp]: "bc_shape p p = Some p"
  by (simp add: bc_shape_def)

lemma tabulate2_cong:
  "(\<And>i j. i < R \<Longrightarrow> j < C \<Longrightarrow> f i j = g i j) \<Longrightarrow> tabulate2 R C f = tabulate2 R C g"
  by (simp add: tabulate2_def)

lemma ew2_rect:
  assumes "rect I J A" "rect I J B" "0 < I"
  shows "ew2 f A B = Inr (tabulate2 I J (\<lambda>i j. f (A ! i ! j) (B ! i ! j)))"
  using assms
  by (auto simp: ew2_def shape_rect bcell_rect intro!: tabulate2_cong)

lemma ew3_rect:
  assumes "rect I J A" "rect I J B" "rect I J C" "0 < I"
  shows "ew3 f A B C = Inr (tabulate2 I J (\<lambda>i j. f (A ! i ! j) (B ! i ! j) (C ! i ! j)))"
  using assms
  by (auto simp: ew3_def shape_rect bcell_rect intro!: tabulate2_cong)

lemma ew4_rect:
  assumes "rect I J A" "rect I J B" "rect I J C" "rect I J E" "0 < I"
  shows "ew4 f A B C E =
     Inr (tabulate2 I J (\<lambda>i j. f (A ! i ! j) (B ! i ! j) (C ! i ! j) (E ! i ! j)))"
  using assms
  by (auto simp: ew4_def shape_rect bcell_rect intro!: tabulate2_cong)

lemma rect_outer [simp]: "rect (length xs) (length ys) (outer xs ys)"
  by (auto simp: rect_def outer_def)

lemma outer_nth [simp]:
  "i < length xs \<Longrightarrow> j < length ys \<Longrightarrow> outer xs ys ! i ! j = xs ! i * ys ! j"
  by (simp add: outer_def)

lemma rect_butlast: "rect I J m \<Longrightarrow> rect (I - 1) J (butlast m)"
  by (auto simp: rect_def dest: in_set_butlastD)

lemma rect_map_map [simp]: "rect I J (map (map f) m) = rect I J m"
  by (auto simp: rect_def)

lemma length_concat_rect: "rect I J m \<Longrightarrow> length (concat m) = I * J"
proof (induction m arbitrary: I)
  case Nil
  then show ?case by (simp add: rect_def)
next
  case (Cons row m)
  then have "rect (I - 1) J m" and "length row = J" and "0 < I" by (auto simp: rect_def)
  with Cons.IH[of "I - 1"] show ?case
    by (cases I) simp_all
qed

lemma concat_nth_rect:
  "rect I J m \<Longrightarrow> i < I \<Longrightarrow> j < J \<Longrightarrow> concat m ! (i * J + j) = m ! i ! j"
proof (induction m arbitrary: I i)
  case Nil
  then show ?case by (simp add: rect_def)
next
  case (Cons row m)
  then have r: "rect (I - 1) J m" and lr: "length row = J" by (auto simp: rect_def)
  show ?case
  proof (cases i)
    case 0
    with Cons.prems lr show ?thesis by (simp add: nth_append)
  next
    case (Suc k)
    with Cons.prems have "k < I - 1" by simp
    from Cons.IH[OF r this Cons.prems(3)] Suc lr show ?thesis
      by (simp add: nth_append)
  qed
qed

lemma rect_np_transpose: "rect I J m \<Longrightarrow> 0 < I \<Longrightarrow> rect J I (np_transpose m)"
  by (auto simp: np_transpose_def ncols_rect rect_def)

lemma np_transpose_nth:
  "rect I J m \<Longrightarrow> i < I \<Longrightarrow> j < J \<Longrightarrow> np_transpose m ! j ! i = m ! i ! j"
  by (simp add: np_transpose_def ncols_rect rect_length)

lemma zero_last_row_rect:
  assumes "rect I J m" "0 < I"
  shows "\<exists>m'. zero_last_row m = Inr m' \<and> rect I J m'
     \<and> (\<forall>j < J. m' ! (I - 1) ! j = Fin 0) \<and> butlast m' = butlast m"
proof -
  from assms have ne: "m \<noteq> []" and len: "length m = I" by (auto simp: rect_def)
  let ?m' = "butlast m @ [map (\<lambda>c. Fin 0) (last m)]"
  have "length (last m) = J" using assms ne by (auto simp: rect_def)
  moreover have "rect I J ?m'"
    using assms ne by (auto simp: rect_def dest: in_set_butlastD)
  ultimately show ?thesis
    using ne len by (auto simp: zero_last_row_def nth_append)
qed

subsection \<open>The matrices can be built\<close>

lemma set_slice_ok:
  assumes "lo \<le> hi" "hi \<le> length xs" "length vs = hi - lo"
  shows "\<exists>ys. set_slice xs lo hi vs = Inr ys \<and> length ys = length xs"
  using assms by (auto simp: set_slice_def Let_def min_def max_def)

lemma block_bounds:
  assumes "i < (I::nat)" "0 < J"
  shows "i * J \<le> (i + 1) * J - 1" "(i + 1) * J - 1 \<le> I * J" "(i + 1) * J \<le> I * J"
    "(i + 1) * J - 1 - i * J = J - 1" "(i + 1) * J - i * J = J" "i * J \<le> (i + 1) * J"
proof -
  from assms have "Suc i \<le> I" by simp
  then have le: "Suc i * J \<le> I * J" by (rule mult_le_mono1)
  show "(i + 1) * J \<le> I * J" using le by simp
  then show "(i + 1) * J - 1 \<le> I * J" by simp
  show "i * J \<le> (i + 1) * J - 1" using assms by (cases J) simp_all
  show "(i + 1) * J - 1 - i * J = J - 1" by simp
  show "(i + 1) * J - i * J = J" by simp
  show "i * J \<le> (i + 1) * J" by simp
qed

lemma wf_in2:
  "rect I J m \<Longrightarrow> i < I \<Longrightarrow> j < J \<Longrightarrow> in2 m i j"
  by (simp add: in2_def rect_def)

lemma E_ok_wf: "wf_scheme s \<Longrightarrow> i < r_bins s \<Longrightarrow> j < E_bins s \<Longrightarrow> E_ok s i j"
  by (auto simp: E_ok_def wf_scheme_def intro: wf_in2)

lemma r_ok_wf: "wf_scheme s \<Longrightarrow> i < r_bins s \<Longrightarrow> j < E_bins s \<Longrightarrow> r_ok s i j"
  by (auto simp: r_ok_def wf_scheme_def intro: wf_in2)

lemma set_butlast_upt: "x \<in> set (butlast [0..<n]) \<Longrightarrow> Suc x < n"
  by (cases n) auto

lemma E_alpha3_ok:
  assumes "wf_scheme s" "i < r_bins s"
  shows "\<exists>v. E_alpha3 s i (butlast [0..<E_bins s]) = Inr v \<and> length v = E_bins s - 1"
proof -
  let ?js = "butlast [0..<E_bins s]"
  from assms have J: "2 \<le> E_bins s" by (simp add: wf_scheme_def)
  then have ne: "?js \<noteq> []" by (cases "E_bins s") auto
  have mem: "\<And>j. j \<in> set ?js \<Longrightarrow> Suc j < E_bins s" by (rule set_butlast_upt)
  have a: "\<forall>j \<in> set (butlast ?js). E_ok s i (j + 1)"
  proof
    fix j assume "j \<in> set (butlast ?js)"
    then have "j \<in> set ?js" by (rule in_set_butlastD)
    then have "j + 1 < E_bins s" using mem by fastforce
    then show "E_ok s i (j + 1)" using assms by (simp add: E_ok_wf)
  qed
  have "last ?js \<in> set ?js" using ne by simp
  then have "last ?js < E_bins s" using mem by fastforce
  then have b: "E_ok s i (last ?js)" using assms by (simp add: E_ok_wf)
  have "length (butlast ?js) + 1 = E_bins s - 1" using J by simp
  with ne a b show ?thesis by (simp add: E_alpha3_def)
qed

lemma E_alpha2_ok:
  assumes "wf_scheme s" "i < r_bins s"
  shows "\<exists>v. E_alpha2 s i [0..<E_bins s] = Inr v \<and> length v = E_bins s"
  using assms by (simp add: E_alpha2_def E_ok_wf)

lemma E_alpha1_ok:
  "\<exists>v. E_alpha1 s i (tl [0..<E_bins s]) = Inr v \<and> length v = E_bins s - 1"
  by (simp add: E_alpha1_def)


lemma loss_block_ok:
  assumes wf: "wf_scheme s" and i: "i < r_bins s" and len: "len4 (r_bins s * E_bins s) ks"
  shows "\<exists>ks'. loss_block s ks i = Inr ks' \<and> len4 (r_bins s * E_bins s) ks'"
proof -
  obtain k_u k_mA k_mB k_l where ks: "ks = (k_u, k_mA, k_mB, k_l)" by (cases ks) auto
  let ?I = "r_bins s" and ?J = "E_bins s"
  from wf have J: "0 < ?J" by (simp add: wf_scheme_def)
  note bb = block_bounds[OF i J]
  from len ks have l: "length k_u = ?I * ?J" "length k_mA = ?I * ?J" "length k_mB = ?I * ?J"
    "length k_l = ?I * ?J" by (simp_all add: len4_def)
  obtain a3 where a3: "E_alpha3 s i (butlast [0..<?J]) = Inr a3" "length a3 = ?J - 1"
    using E_alpha3_ok[OF wf i] by blast
  obtain a2 where a2: "E_alpha2 s i [0..<?J] = Inr a2" "length a2 = ?J"
    using E_alpha2_ok[OF wf i] by blast
  obtain a1 where a1: "E_alpha1 s i (tl [0..<?J]) = Inr a1" "length a1 = ?J - 1"
    using E_alpha1_ok by blast
  obtain k_u' where u: "set_slice k_u (i * ?J) ((i + 1) * ?J - 1) (map (\<lambda>x. (- x) / Fin 2) a3) = Inr k_u'"
    "length k_u' = ?I * ?J"
    using set_slice_ok[of "i * ?J" "(i + 1) * ?J - 1" k_u "map (\<lambda>x. (- x) / Fin 2) a3"] bb l a3
    by auto
  obtain k_mA' where mA: "set_slice k_mA (i * ?J) ((i + 1) * ?J) (map (\<lambda>x. Fin 1 + x / Fin 2) a2) = Inr k_mA'"
    "length k_mA' = ?I * ?J"
    using set_slice_ok[of "i * ?J" "(i + 1) * ?J" k_mA "map (\<lambda>x. Fin 1 + x / Fin 2) a2"] bb l a2
    by auto
  obtain k_mB' where mB: "set_slice k_mB (i * ?J) ((i + 1) * ?J) (map (\<lambda>x. Fin 1 - x / Fin 2) a2) = Inr k_mB'"
    "length k_mB' = ?I * ?J"
    using set_slice_ok[of "i * ?J" "(i + 1) * ?J" k_mB "map (\<lambda>x. Fin 1 - x / Fin 2) a2"] bb l a2
    by auto
  obtain k_l' where lo: "set_slice k_l (i * ?J) ((i + 1) * ?J - 1) (map (\<lambda>x. (- x) / Fin 2) a1) = Inr k_l'"
    "length k_l' = ?I * ?J"
    using set_slice_ok[of "i * ?J" "(i + 1) * ?J - 1" k_l "map (\<lambda>x. (- x) / Fin 2) a1"] bb l a1
    by auto
  have "loss_block s ks i = Inr (k_u', k_mA', k_mB', k_l')"
    unfolding loss_block_def ks prod.case Let_def a3 a2 a1 bind_err_def sum.case u mA mB lo ..
  then show ?thesis using u mA mB lo by (simp add: len4_def)
qed

lemma fold_err_ok:
  assumes "\<And>a x. P a \<Longrightarrow> x \<in> set xs \<Longrightarrow> \<exists>a'. f a x = Inr a' \<and> P a'" and "P a"
  shows "\<exists>a'. fold_err f xs a = Inr a' \<and> P a'"
  using assms
proof (induction xs arbitrary: a)
  case Nil
  then show ?case by simp
next
  case (Cons x xs)
  from Cons.prems(1)[OF Cons.prems(2), of x] obtain a1 where a1: "f a x = Inr a1" "P a1"
    by auto
  from Cons.IH[OF _ a1(2)] Cons.prems(1) obtain a' where "fold_err f xs a1 = Inr a'" "P a'"
    by (metis list.set_intros(2))
  with a1 show ?case by (simp add: bind_err_def)
qed

lemma assemble_ok:
  assumes "len4 n ks" "0 < n"
  shows "\<exists>m. assemble ks n = Inr m \<and> has_matrices n (Some m)"
  using assms
  by (cases ks) (auto simp: assemble_def len4_def sparse_diags_def fit_diag_def bind_err_def
      has_matrices_def)

lemma wf_IJ_pos: "wf_scheme s \<Longrightarrow> 0 < r_bins s * E_bins s"
  by (simp add: wf_scheme_def)

lemma spmatrices_loss_ok:
  assumes wf: "wf_scheme s"
  shows "\<exists>m. spmatrices_loss s = Inr m \<and> has_matrices (r_bins s * E_bins s) (Some m)"
proof -
  let ?n = "r_bins s * E_bins s"
  let ?z = "replicate ?n (Fin 0)"
  have "\<exists>ks. fold_err (loss_block s) [0..<r_bins s] (?z, ?z, ?z, ?z) = Inr ks \<and> len4 ?n ks"
  proof (rule fold_err_ok)
    show "len4 ?n (?z, ?z, ?z, ?z)" by (simp add: len4_def)
  next
    fix a x assume "len4 ?n a" "x \<in> set [0..<r_bins s]"
    then show "\<exists>a'. loss_block s a x = Inr a' \<and> len4 ?n a'"
      using loss_block_ok[OF wf, of x a] by simp
  qed
  then obtain ks where ks: "fold_err (loss_block s) [0..<r_bins s] (?z, ?z, ?z, ?z) = Inr ks"
    "len4 ?n ks" by blast
  from assemble_ok[OF ks(2) wf_IJ_pos[OF wf]] ks(1) show ?thesis
    by (simp add: spmatrices_loss_def Let_def bind_err_def)
qed

lemma r_alpha3_ok:
  assumes "wf_scheme s" "j < E_bins s"
  shows "\<exists>v. r_alpha3 s (butlast [0..<r_bins s]) j = Inr v \<and> length v = r_bins s - 1"
proof -
  let ?is = "butlast [0..<r_bins s]"
  from assms have I: "2 \<le> r_bins s" by (simp add: wf_scheme_def)
  then have ne: "?is \<noteq> []" by (cases "r_bins s") auto
  have mem: "\<And>i. i \<in> set ?is \<Longrightarrow> Suc i < r_bins s" by (rule set_butlast_upt)
  have a: "\<forall>i \<in> set (tl ?is). r_ok s i j"
    using mem assms ne by (auto intro!: r_ok_wf dest!: list.set_sel(2)[rotated] Suc_lessD)
  have b: "r_ok s 0 j" using assms I by (auto intro!: r_ok_wf)
  have "length (tl ?is) + 1 = r_bins s - 1" using I by simp
  with ne a b show ?thesis by (simp add: r_alpha3_def)
qed

lemma r_alpha2_ok:
  assumes "wf_scheme s" "j < E_bins s"
  shows "\<exists>v. r_alpha2 s [0..<r_bins s] j = Inr v \<and> length v = r_bins s"
proof -
  from assms have I: "2 \<le> r_bins s" by (simp add: wf_scheme_def)
  then have ne: "[0..<r_bins s] \<noteq> []" by auto
  have a: "\<forall>i \<in> set (tl [0..<r_bins s]). r_ok s i j"
    using assms ne by (auto intro!: r_ok_wf dest!: list.set_sel(2)[rotated])
  have b: "r_ok s 0 j" using assms I by (auto intro!: r_ok_wf)
  have "length (tl [0..<r_bins s]) + 1 = r_bins s" using I by simp
  with ne a b show ?thesis by (simp add: r_alpha2_def)
qed

lemma r_alpha1_ok:
  assumes "wf_scheme s" "j < E_bins s"
  shows "\<exists>v. r_alpha1 s (tl [0..<r_bins s]) j = Inr v \<and> length v = r_bins s - 1"
proof -
  have a: "\<forall>i \<in> set (tl [0..<r_bins s]). r_ok s i j"
    using assms by (cases "r_bins s = 0") (auto intro!: r_ok_wf dest!: list.set_sel(2)[rotated])
  then show ?thesis by (simp add: r_alpha1_def)
qed


lemma diff_block_ok:
  assumes wf: "wf_scheme s" and j: "j < E_bins s" and len: "len4 (r_bins s * E_bins s) ks"
  shows "\<exists>ks'. diff_block s ks j = Inr ks' \<and> len4 (r_bins s * E_bins s) ks'"
proof -
  obtain k_u k_mA k_mB k_l where ks: "ks = (k_u, k_mA, k_mB, k_l)" by (cases ks) auto
  let ?I = "r_bins s" and ?J = "E_bins s"
  from wf have I: "0 < ?I" by (simp add: wf_scheme_def)
  note bb = block_bounds[OF j I]
  from len ks have l: "length k_u = ?J * ?I" "length k_mA = ?J * ?I" "length k_mB = ?J * ?I"
    "length k_l = ?J * ?I" by (simp_all add: len4_def mult.commute)
  obtain a3 where a3: "r_alpha3 s (butlast [0..<?I]) j = Inr a3" "length a3 = ?I - 1"
    using r_alpha3_ok[OF wf j] by blast
  obtain a2 where a2: "r_alpha2 s [0..<?I] j = Inr a2" "length a2 = ?I"
    using r_alpha2_ok[OF wf j] by blast
  obtain a1 where a1: "r_alpha1 s (tl [0..<?I]) j = Inr a1" "length a1 = ?I - 1"
    using r_alpha1_ok[OF wf j] by blast
  obtain k_u' where u: "set_slice k_u (j * ?I) ((j + 1) * ?I - 1) (map (\<lambda>x. (- x) / Fin 2) a3) = Inr k_u'"
    "length k_u' = ?J * ?I"
    using set_slice_ok[of "j * ?I" "(j + 1) * ?I - 1" k_u "map (\<lambda>x. (- x) / Fin 2) a3"] bb l a3
    by auto
  obtain k_mA' where mA: "set_slice k_mA (j * ?I) ((j + 1) * ?I) (map (\<lambda>x. Fin 1 + x / Fin 2) a2) = Inr k_mA'"
    "length k_mA' = ?J * ?I"
    using set_slice_ok[of "j * ?I" "(j + 1) * ?I" k_mA "map (\<lambda>x. Fin 1 + x / Fin 2) a2"] bb l a2
    by auto
  obtain k_mB' where mB: "set_slice k_mB (j * ?I) ((j + 1) * ?I) (map (\<lambda>x. Fin 1 - x / Fin 2) a2) = Inr k_mB'"
    "length k_mB' = ?J * ?I"
    using set_slice_ok[of "j * ?I" "(j + 1) * ?I" k_mB "map (\<lambda>x. Fin 1 - x / Fin 2) a2"] bb l a2
    by auto
  obtain k_l' where lo: "set_slice k_l (j * ?I) ((j + 1) * ?I - 1) (map (\<lambda>x. (- x) / Fin 2) a1) = Inr k_l'"
    "length k_l' = ?J * ?I"
    using set_slice_ok[of "j * ?I" "(j + 1) * ?I - 1" k_l "map (\<lambda>x. (- x) / Fin 2) a1"] bb l a1
    by auto
  have "diff_block s ks j = Inr (k_u', k_mA', k_mB', k_l')"
    unfolding diff_block_def ks prod.case Let_def a3 a2 a1 bind_err_def sum.case u mA mB lo ..
  then show ?thesis using u mA mB lo by (simp add: len4_def mult.commute)
qed

lemma spmatrices_diff_ok:
  assumes wf: "wf_scheme s"
  shows "\<exists>m. spmatrices_diff s = Inr m \<and> has_matrices (r_bins s * E_bins s) (Some m)"
proof -
  let ?n = "r_bins s * E_bins s"
  let ?z = "replicate ?n (Fin 0)"
  have "\<exists>ks. fold_err (diff_block s) [0..<E_bins s] (?z, ?z, ?z, ?z) = Inr ks \<and> len4 ?n ks"
  proof (rule fold_err_ok)
    show "len4 ?n (?z, ?z, ?z, ?z)" by (simp add: len4_def)
  next
    fix a x assume "len4 ?n a" "x \<in> set [0..<E_bins s]"
    then show "\<exists>a'. diff_block s a x = Inr a' \<and> len4 ?n a'"
      using diff_block_ok[OF wf, of x a] by simp
  qed
  then obtain ks where ks: "fold_err (diff_block s) [0..<E_bins s] (?z, ?z, ?z, ?z) = Inr ks"
    "len4 ?n ks" by blast
  from assemble_ok[OF ks(2) wf_IJ_pos[OF wf]] ks(1) show ?thesis
    by (simp add: spmatrices_diff_def Let_def bind_err_def)
qed

lemma wf_scheme_Delta_t [simp]: "wf_scheme (s\<lparr>Delta_t := x\<rparr>) = wf_scheme s"
  by (simp add: wf_scheme_def)

lemma wf_scheme_snapshots [simp]: "wf_scheme (s\<lparr>snapshots := x\<rparr>) = wf_scheme s"
  by (simp add: wf_scheme_def)

lemma wf_scheme_electrons [simp]: "wf_scheme (s\<lparr>electrons := x\<rparr>) = wf_scheme s"
  by (simp add: wf_scheme_def)

lemma rebuild_ok:
  assumes "wf_state s l"
  shows "\<exists>l'. rebuild s l = Inr l' \<and> wf_state s l'
     \<and> l' = l\<lparr>loss_AB := loss_AB l', diff_AB := diff_AB l'\<rparr>"
proof -
  from assms have wf: "wf_scheme s" by (simp add: wf_state_def)
  obtain m1 where m1: "spmatrices_loss s = Inr m1" "has_matrices (r_bins s * E_bins s) (Some m1)"
    using spmatrices_loss_ok[OF wf] by blast
  obtain m2 where m2: "spmatrices_diff s = Inr m2" "has_matrices (r_bins s * E_bins s) (Some m2)"
    using spmatrices_diff_ok[OF wf] by blast
  show ?thesis
    using assms m1 m2
    by (cases "effect s") (auto simp: rebuild_def bind_err_def wf_state_def)
qed

subsection \<open>One iteration\<close>

lemma rect_butlast_pos:
  "rect I J m \<Longrightarrow> 2 \<le> I \<Longrightarrow> rect (I - 1) J (butlast m) \<and> 0 < I - 1"
  using rect_butlast[of I J m] by simp

lemma bind_err_Inr [simp]: "bind_err (Inr x) f = f x"
  by (simp add: bind_err_def)

lemma bind_err_Inl [simp]: "bind_err (Inl e) f = Inl e"
  by (simp add: bind_err_def)

lemma ew2_rect_ex:
  "rect I J A \<Longrightarrow> rect I J B \<Longrightarrow> 0 < I \<Longrightarrow> \<exists>m. ew2 f A B = Inr m \<and> rect I J m"
  by (simp add: ew2_rect)

lemma update_checks_form:
  assumes "wf_state s l"
  shows "\<exists>rd st lc dc ts bc.
     update_checks s l = Inr (l\<lparr>rel_diff_check := rd, stability_check := st,
       loss_ts_check := lc, diff_ts_check := dc, ts_check := ts, benchmark_check := bc\<rparr>)
     \<and> (t l \<le> 1 \<longrightarrow> st = stability_check l)"
proof (cases "1 < t l")
  case False
  have "l = l\<lparr>rel_diff_check := rel_diff_check l, stability_check := stability_check l,
       loss_ts_check := loss_ts_check l, diff_ts_check := diff_ts_check l,
       ts_check := ts_check l, benchmark_check := benchmark_check l\<rparr>" by simp
  moreover have "update_checks s l = Inr l" using False by (simp add: update_checks_def)
  ultimately show ?thesis by metis
next
  case True
  let ?I = "r_bins s" and ?J = "E_bins s"
  from assms have wf: "wf_scheme s" and I2: "2 \<le> ?I"
    and rp: "rect ?I ?J (psi l)" and rq: "rect ?I ?J (psi_prev l)"
    and rl: "rect ?I ?J (loss_ts s)" and rd: "rect ?I ?J (diff_ts s)"
    by (simp_all add: wf_state_def wf_scheme_def)
  note bp = rect_butlast_pos[OF rp I2] and bq = rect_butlast_pos[OF rq I2]
    and bl = rect_butlast_pos[OF rl I2] and bd = rect_butlast_pos[OF rd I2]
  have e1: "\<And>f. \<exists>m. ew2 f (butlast (psi l)) (butlast (psi_prev l)) = Inr m \<and> rect (?I - 1) ?J m"
    using ew2_rect_ex[of "?I - 1" ?J "butlast (psi l)" "butlast (psi_prev l)"] bp bq by blast
  have e2: "\<And>f m B. rect (?I - 1) ?J m \<Longrightarrow> rect (?I - 1) ?J B \<Longrightarrow>
      \<exists>m'. ew2 f m B = Inr m' \<and> rect (?I - 1) ?J m'"
    using ew2_rect_ex[of "?I - 1" ?J] bp by blast
  obtain m1 where m1: "ew2 (\<lambda>p q. \<bar>p / q - Fin 1\<bar> < stability_tol)
      (butlast (psi l)) (butlast (psi_prev l)) = Inr m1"
    using e1 by blast
  have "\<exists>st. (if const_Delta_t s then Inr (np_all m1)
                  else case max_t_part s of
                         None \<Rightarrow> Inl TypeError
                       | Some m \<Rightarrow> Inr (m < t_part l)) = (Inr st :: error + bool)"
    using wf by (cases "const_Delta_t s") (auto simp: wf_scheme_def)
  then obtain st where st: "(if const_Delta_t s then Inr (np_all m1)
                  else case max_t_part s of
                         None \<Rightarrow> Inl TypeError
                       | Some m \<Rightarrow> Inr (m < t_part l)) = (Inr st :: error + bool)"
    by blast
  obtain dp where dp: "ew2 (\<lambda>p q. (p - q) / Delta_t s)
      (butlast (psi l)) (butlast (psi_prev l)) = Inr dp" "rect (?I - 1) ?J dp"
    using e1 by blast
  obtain pts where pts: "ew2 (\<lambda>p d. \<bar>p / d\<bar>) (butlast (psi l)) dp = Inr pts" "rect (?I - 1) ?J pts"
    using e2[OF conjunct1[OF bp] dp(2)] by blast
  obtain lc where lc: "ew2 (\<lambda>p c. c < p) pts (butlast (loss_ts s)) = Inr lc"
    using e2[OF pts(2) conjunct1[OF bl]] by blast
  obtain dc where dc: "ew2 (\<lambda>p c. c < p) pts (butlast (diff_ts s)) = Inr dc"
    using e2[OF pts(2) conjunct1[OF bd]] by blast
  have "update_checks s l = Inr (l\<lparr>rel_diff_check := np_all m1,
                stability_check := st,
                loss_ts_check := np_all lc,
                diff_ts_check := np_all dc,
                ts_check := (case effect s of
                               Loss \<Rightarrow> np_all lc
                             | Diffusion \<Rightarrow> np_all dc
                             | All \<Rightarrow> np_all lc \<and> np_all dc),
                benchmark_check :=
                  (if benchmark_flag s then np_all (map (map (\<lambda>d. \<bar>d\<bar> = Fin 0)) dp)
                   else benchmark_check l)\<rparr>)"
    using True by (simp only: update_checks_def m1 bind_err_Inr st dp(1) pts(1) lc dc if_True)
  moreover have "\<not> t l \<le> 1" using True by simp
  ultimately show ?thesis by blast
qed

lemma switching_cases:
  assumes "switching s l = Inr (brk, s', l')"
  shows "(brk \<and> stability_check l \<and> s' = s \<and> l' = l\<lparr>convergence_check := True\<rparr>)
     \<or> (\<not> brk \<and> s' = s \<and> l' = l)
     \<or> (\<not> brk \<and> stability_check l \<and> \<not> benchmark_flag s \<and> \<not> const_Delta_t s
         \<and> (\<exists>red. s' = s\<lparr>Delta_t := Delta_t s * red\<rparr>
               \<and> rebuild s' (l\<lparr>t_part := 0\<rparr>) = Inr l'))"
  using assms
  by (auto simp: switching_def bind_err_def Let_def split: if_splits option.splits sum.splits)

lemma wf_state_convergence [simp]:
  "wf_state s (l\<lparr>convergence_check := x\<rparr>) = wf_state s l"
  by (simp add: wf_state_def)

lemma wf_state_t_part [simp]: "wf_state s (l\<lparr>t_part := x\<rparr>) = wf_state s l"
  by (simp add: wf_state_def)

lemma wf_state_Delta_t [simp]: "wf_state (s\<lparr>Delta_t := x\<rparr>) l = wf_state s l"
  by (simp add: wf_state_def)

lemma wf_state_checks [simp]:
  "wf_state s (l\<lparr>rel_diff_check := rd, stability_check := st,
       loss_ts_check := lc, diff_ts_check := dc, ts_check := ts, benchmark_check := bc\<rparr>)
   = wf_state s l"
  by (simp add: wf_state_def)

lemma switching_ok:
  assumes "wf_state s l"
  shows "\<exists>brk s' l'. switching s l = Inr (brk, s', l') \<and> wf_state s' l'"
proof (cases "stability_check l \<and> \<not> benchmark_flag s \<and> \<not> const_Delta_t s")
  case False
  then show ?thesis using assms by (auto simp: switching_def)
next
  case True
  with assms obtain sm red where sm: "smallest_Delta_t s = Some sm" "Delta_t_reduction s = Some red"
    by (auto simp: wf_state_def wf_scheme_def)
  let ?s = "s\<lparr>Delta_t := Delta_t s * red\<rparr>"
  have "wf_state ?s (l\<lparr>t_part := 0\<rparr>)" using assms by simp
  from rebuild_ok[OF this] obtain l1 where "rebuild ?s (l\<lparr>t_part := 0\<rparr>) = Inr l1" "wf_state ?s l1"
    by blast
  then show ?thesis
    using True sm assms by (auto simp: switching_def bind_err_def Let_def)
qed

lemma sp_dot_ok: "length x = sp_dim A \<Longrightarrow> sp_dot A x = Inr (map (sp_row A x) [0..<sp_dim A])"
  by (simp add: sp_dot_def)

lemma ew1_same:
  "length xs = length ys \<Longrightarrow>
     ew1 f xs ys = Inr (map (\<lambda>k. f (xs ! k) (ys ! k)) [0..<length xs])"
  by (auto simp: ew1_def)

lemma half_rhs_ok:
  assumes "length x = sp_dim B_mat" "length q = sp_dim B_mat"
  shows "half_rhs B_mat x q dt =
     Inr (map (\<lambda>k. sp_row B_mat x k + q ! k * dt) [0..<sp_dim B_mat])"
  using assms by (simp add: half_rhs_def sp_dot_ok bind_err_def ew1_same)

lemma half_step_ok:
  assumes "has_matrices n AB" "length x = n" "length q = n" "solver_ok spsolve"
  shows "\<exists>v. half_step spsolve AB x q dt = Inr v \<and> length v = n"
proof -
  from assms(1) obtain A_mat B_mat where AB: "AB = Some (A_mat, B_mat)" "sp_dim A_mat = n"
    "sp_dim B_mat = n"
    by (auto simp: has_matrices_def split: option.splits)
  have "length (spsolve A_mat (map (\<lambda>k. sp_row B_mat x k + q ! k * dt) [0..<sp_dim B_mat])) = n"
    using assms(4) AB by (simp add: solver_ok_def)
  then show ?thesis
    using AB assms by (simp add: half_step_def half_rhs_ok bind_err_def)
qed

lemma length_flatten_C: "rect I J m \<Longrightarrow> length (flatten_C m) = I * J"
  by (simp add: flatten_C_def length_concat_rect)

lemma length_flatten_F: "rect I J m \<Longrightarrow> 0 < I \<Longrightarrow> length (flatten_F m) = I * J"
  using length_concat_rect[OF rect_np_transpose] by (simp add: flatten_F_def mult.commute)

lemma reshape_C_ok: "length v = I * J \<Longrightarrow> \<exists>m. reshape_C v I J = Inr m \<and> rect I J m"
  by (simp add: reshape_C_def)

lemma reshape_F_ok: "length v = I * J \<Longrightarrow> \<exists>m. reshape_F v I J = Inr m \<and> rect I J m"
  by (simp add: reshape_F_def)

lemma advance_ok:
  assumes wf: "wf_state s l" and so: "solver_ok spsolve" and rQ: "rect (r_bins s) (E_bins s) Q_in"
  shows "\<exists>s' l'. advance spsolve Q_in s l = Inr (s', l') \<and> wf_state s' l'"
proof -
  let ?I = "r_bins s" and ?J = "E_bins s"
  from wf have I: "0 < ?I" and rp: "rect ?I ?J (psi l)" and wfs: "wf_scheme s"
    by (simp_all add: wf_state_def wf_scheme_def)
  have s1: "\<exists>psi1. (if effect s \<in> {Loss, All}
                then bind_err (half_step spsolve (loss_AB l) (flatten_C (psi l))
                                 (flatten_C Q_in) (Delta_t s)) (\<lambda>v. reshape_C v ?I ?J)
                else Inr (psi l)) = Inr psi1 \<and> rect ?I ?J psi1"
  proof (cases "effect s \<in> {Loss, All}")
    case True
    then have "has_matrices (?I * ?J) (loss_AB l)" using wf by (auto simp: wf_state_def)
    from half_step_ok[OF this length_flatten_C[OF rp] length_flatten_C[OF rQ] so]
    obtain v where "half_step spsolve (loss_AB l) (flatten_C (psi l)) (flatten_C Q_in) (Delta_t s) = Inr v"
      "length v = ?I * ?J" by blast
    with reshape_C_ok[OF this(2)] True show ?thesis by (auto simp: bind_err_def)
  next
    case False
    then show ?thesis using rp by simp
  qed
  then obtain psi1 where psi1: "(if effect s \<in> {Loss, All}
                then bind_err (half_step spsolve (loss_AB l) (flatten_C (psi l))
                                 (flatten_C Q_in) (Delta_t s)) (\<lambda>v. reshape_C v ?I ?J)
                else Inr (psi l)) = Inr psi1" and r1: "rect ?I ?J psi1" by blast
  have s2: "\<exists>psi2. (if effect s \<in> {Diffusion, All}
                then bind_err (half_step spsolve (diff_AB l) (flatten_F psi1)
                                 (flatten_F Q_in) (Delta_t s)) (\<lambda>v. reshape_F v ?I ?J)
                else Inr psi1) = Inr psi2 \<and> rect ?I ?J psi2"
  proof (cases "effect s \<in> {Diffusion, All}")
    case True
    then have "has_matrices (?I * ?J) (diff_AB l)" using wf by (auto simp: wf_state_def)
    from half_step_ok[OF this length_flatten_F[OF r1 I] length_flatten_F[OF rQ I] so]
    obtain v where "half_step spsolve (diff_AB l) (flatten_F psi1) (flatten_F Q_in) (Delta_t s) = Inr v"
      "length v = ?I * ?J" by blast
    with reshape_F_ok[OF this(2)] True show ?thesis by (auto simp: bind_err_def)
  next
    case False
    then show ?thesis using r1 by simp
  qed
  then obtain psi2 where psi2: "(if effect s \<in> {Diffusion, All}
                then bind_err (half_step spsolve (diff_AB l) (flatten_F psi1)
                                 (flatten_F Q_in) (Delta_t s)) (\<lambda>v. reshape_F v ?I ?J)
                else Inr psi1) = Inr psi2" and r2: "rect ?I ?J psi2" by blast
  from zero_last_row_rect[OF r2 I] obtain psi3 where psi3: "zero_last_row psi2 = Inr psi3"
    and r3: "rect ?I ?J psi3" by blast
  obtain s' where s': "(if animation_flag s
                then case snapshots s of
                       None \<Rightarrow> Inl AttributeError
                     | Some sn \<Rightarrow> Inr (s\<lparr>snapshots := Some (sn @ [(butlast psi3, Delta_t s)])\<rparr>)
                else Inr s) = Inr s'"
    and s'wf: "wf_scheme s'" "r_bins s' = ?I" "E_bins s' = ?J" "effect s' = effect s"
      "animation_flag s' \<longrightarrow> snapshots s' \<noteq> None"
    using wf wfs by (cases "animation_flag s") (auto simp: wf_state_def)
  have "advance spsolve Q_in s l = Inr (s', l\<lparr>psi_prev := psi l, psi := psi3,
                 t_elapsed := t_elapsed l + Delta_t s,
                 t := t l + 1, t_part := t_part l + 1\<rparr>)"
    by (simp only: advance_def Let_def psi1 bind_err_Inr psi2 psi3 s')
  moreover have "wf_state s' (l\<lparr>psi_prev := psi l, psi := psi3,
                 t_elapsed := t_elapsed l + Delta_t s,
                 t := t l + 1, t_part := t_part l + 1\<rparr>)"
    using wf s'wf r3 rp by (simp add: wf_state_def)
  ultimately show ?thesis by blast
qed

subsection \<open>The loop\<close>

lemma cn_iter_cases:
  assumes "cn_iter spsolve Q_in s l = Inr (brk, s1, l1)"
  shows "\<exists>la sb lb. update_checks s l = Inr la \<and> switching s la = Inr (brk, sb, lb)
     \<and> (if brk then s1 = sb \<and> l1 = lb else advance spsolve Q_in sb lb = Inr (s1, l1))"
  using assms
  by (auto simp: cn_iter_def bind_err_def split: sum.splits prod.splits if_splits)

lemma cn_loop_stop:
  "\<not> (\<not> convergence_check l \<and> t l < max_t) \<Longrightarrow> cn_loop spsolve Q_in s l = Inr (s, l)"
  by (subst cn_loop.simps) auto

lemma cn_loop_step:
  "\<not> convergence_check l \<Longrightarrow> t l < max_t \<Longrightarrow> cn_iter spsolve Q_in s l = Inr (brk, s1, l1) \<Longrightarrow>
     cn_loop spsolve Q_in s l = (if brk then Inr (s1, l1) else cn_loop spsolve Q_in s1 l1)"
  by (subst cn_loop.simps) simp

lemma cn_loop_error:
  "\<not> convergence_check l \<Longrightarrow> t l < max_t \<Longrightarrow> cn_iter spsolve Q_in s l = Inl e \<Longrightarrow>
     cn_loop spsolve Q_in s l = Inl e"
  by (subst cn_loop.simps) simp

lemma cn_loop_invariant:
  assumes "cn_loop spsolve Q_in s l = Inr (s', l')" and "P s l"
    and "\<And>s l brk s1 l1. P s l \<Longrightarrow> \<not> convergence_check l \<Longrightarrow> t l < max_t \<Longrightarrow>
       cn_iter spsolve Q_in s l = Inr (brk, s1, l1) \<Longrightarrow> (if brk then R s1 l1 else P s1 l1)"
    and "\<And>s l. P s l \<Longrightarrow> \<not> (\<not> convergence_check l \<and> t l < max_t) \<Longrightarrow> R s l"
  shows "R s' l'"
  using assms
proof (induction spsolve Q_in s l rule: cn_loop.induct)
  case (1 spsolve Q_in s l)
  note step = "1.prems"(3) and exit = "1.prems"(4)
  show ?case
  proof (cases "\<not> convergence_check l \<and> t l < max_t")
    case False
    with "1.prems"(1) have "s' = s" "l' = l" by (simp_all add: cn_loop_stop)
    with exit[OF "1.prems"(2) False] show ?thesis by simp
  next
    case True
    then have nc: "\<not> convergence_check l" and lt: "t l < max_t" by simp_all
    obtain brk s1 l1 where it: "cn_iter spsolve Q_in s l = Inr (brk, s1, l1)"
    proof (cases "cn_iter spsolve Q_in s l")
      case (Inl e)
      with cn_loop_error[OF nc lt Inl] "1.prems"(1) show ?thesis by simp
    next
      case (Inr r)
      with that show ?thesis by (cases r) auto
    qed
    note unf = cn_loop_step[OF nc lt it]
    from step[OF "1.prems"(2) nc lt it] have st: "if brk then R s1 l1 else P s1 l1" .
    show ?thesis
    proof (cases brk)
      case True
      with unf "1.prems"(1) st show ?thesis by simp
    next
      case False
      with unf "1.prems"(1) have c1: "cn_loop spsolve Q_in s1 l1 = Inr (s', l')" by simp
      from False st have c2: "P s1 l1" by simp
      show ?thesis
        by (rule "1.IH"[OF True it refl refl False c1 c2 step exit])
    qed
  qed
qed

lemma cn_loop_total:
  assumes "P s l"
    and "\<And>s l. P s l \<Longrightarrow> \<exists>brk s1 l1. cn_iter spsolve Q_in s l = Inr (brk, s1, l1) \<and> P s1 l1"
  shows "\<exists>s' l'. cn_loop spsolve Q_in s l = Inr (s', l')"
  using assms
proof (induction spsolve Q_in s l rule: cn_loop.induct)
  case (1 spsolve Q_in s l)
  note step = "1.prems"(2)
  show ?case
  proof (cases "\<not> convergence_check l \<and> t l < max_t")
    case False
    then show ?thesis by (simp add: cn_loop_stop)
  next
    case True
    then have nc: "\<not> convergence_check l" and lt: "t l < max_t" by simp_all
    from step[OF "1.prems"(1)] obtain brk s1 l1 where
      it: "cn_iter spsolve Q_in s l = Inr (brk, s1, l1)" and P1: "P s1 l1" by blast
    note unf = cn_loop_step[OF nc lt it]
    show ?thesis
    proof (cases brk)
      case True
      with unf show ?thesis by simp
    next
      case False
      from "1.IH"[OF True it refl refl False P1 step] obtain s' l' where
        "cn_loop spsolve Q_in s1 l1 = Inr (s', l')" by blast
      with unf False show ?thesis by simp
    qed
  qed
qed

lemma rebuild_result:
  assumes "rebuild s l = Inr l'"
  shows "l' = l\<lparr>loss_AB := loss_AB l', diff_AB := diff_AB l'\<rparr>"
    and "effect s \<in> {Loss, All} \<Longrightarrow> spmatrices_loss s = Inr (the (loss_AB l'))"
    and "effect s \<in> {Diffusion, All} \<Longrightarrow> spmatrices_diff s = Inr (the (diff_AB l'))"
    and "effect s \<notin> {Loss, All} \<Longrightarrow> loss_AB l' = loss_AB l"
    and "effect s \<notin> {Diffusion, All} \<Longrightarrow> diff_AB l' = diff_AB l"
  using assms
  by (cases "effect s"; auto simp: rebuild_def bind_err_def split: sum.splits)+

lemma update_checks_result:
  assumes "update_checks s l = Inr la"
  shows "\<exists>rd st lc dc ts bc.
     la = l\<lparr>rel_diff_check := rd, stability_check := st,
       loss_ts_check := lc, diff_ts_check := dc, ts_check := ts, benchmark_check := bc\<rparr>
     \<and> (t l \<le> 1 \<longrightarrow> st = stability_check l)"
proof (cases "1 < t l")
  case False
  then have "la = l" using assms by (simp add: update_checks_def)
  then have "la = l\<lparr>rel_diff_check := rel_diff_check l, stability_check := stability_check l,
       loss_ts_check := loss_ts_check l, diff_ts_check := diff_ts_check l,
       ts_check := ts_check l, benchmark_check := benchmark_check l\<rparr>" by simp
  then show ?thesis by blast
next
  case True
  then have nt: "\<not> t l \<le> 1" by simp
  from assms True obtain rd st lc dc ts bc where
    "la = l\<lparr>rel_diff_check := rd, stability_check := st,
       loss_ts_check := lc, diff_ts_check := dc, ts_check := ts, benchmark_check := bc\<rparr>"
    unfolding update_checks_def bind_err_def
    by (simp split: sum.splits) blast
  with nt show ?thesis by blast
qed

lemma update_checks_keeps:
  assumes "update_checks s l = Inr la"
  shows "psi la = psi l" "psi_prev la = psi_prev l" "t la = t l" "t_part la = t_part l"
    "convergence_check la = convergence_check l" "loss_AB la = loss_AB l"
    "diff_AB la = diff_AB l" "t_elapsed la = t_elapsed l"
    "t l \<le> 1 \<Longrightarrow> stability_check la = stability_check l"
  using update_checks_result[OF assms] by auto


lemma reshape_C_rect: "reshape_C v I J = Inr m \<Longrightarrow> rect I J m"
  by (auto simp: reshape_C_def split: if_splits)

lemma reshape_F_rect: "reshape_F v I J = Inr m \<Longrightarrow> rect I J m"
  by (auto simp: reshape_F_def split: if_splits)

lemma zero_last_row_result:
  assumes "zero_last_row m = Inr m'" "rect I J m"
  shows "0 < I" "rect I J m'" "\<forall>j < J. m' ! (I - 1) ! j = Fin 0" "butlast m' = butlast m"
proof -
  from assms(1) have ne: "m \<noteq> []" by (auto simp: zero_last_row_def split: if_splits)
  with assms(2) show "0 < I" by (auto simp: rect_def)
  with zero_last_row_rect[OF assms(2) this] assms(1)
  show "rect I J m'" "\<forall>j < J. m' ! (I - 1) ! j = Fin 0" "butlast m' = butlast m"
    by auto
qed

lemma advance_result:
  assumes "advance spsolve Q_in s l = Inr (s', l')"
  shows "\<exists>psi3. l' = l\<lparr>psi_prev := psi l, psi := psi3,
                 t_elapsed := t_elapsed l + Delta_t s,
                 t := t l + 1, t_part := t_part l + 1\<rparr>
     \<and> zero_boundary s psi3
     \<and> (if animation_flag s
        then \<exists>sn. snapshots s = Some sn
               \<and> s' = s\<lparr>snapshots := Some (sn @ [(butlast psi3, Delta_t s)])\<rparr>
        else s' = s)"
proof -
  let ?I = "r_bins s" and ?J = "E_bins s"
  from assms obtain psi1 psi2 psi3 s1 where
    p1: "(if effect s \<in> {Loss, All}
                then bind_err (half_step spsolve (loss_AB l) (flatten_C (psi l))
                                 (flatten_C Q_in) (Delta_t s)) (\<lambda>v. reshape_C v ?I ?J)
                else Inr (psi l)) = Inr psi1"
    and p2: "(if effect s \<in> {Diffusion, All}
                then bind_err (half_step spsolve (diff_AB l) (flatten_F psi1)
                                 (flatten_F Q_in) (Delta_t s)) (\<lambda>v. reshape_F v ?I ?J)
                else Inr psi1) = Inr psi2"
    and p3: "zero_last_row psi2 = Inr psi3"
    and p4: "(if animation_flag s
                then case snapshots s of
                       None \<Rightarrow> Inl AttributeError
                     | Some sn \<Rightarrow> Inr (s\<lparr>snapshots := Some (sn @ [(butlast psi3, Delta_t s)])\<rparr>)
                else Inr s) = Inr s1"
    and res: "s' = s1" "l' = l\<lparr>psi_prev := psi l, psi := psi3,
                 t_elapsed := t_elapsed l + Delta_t s,
                 t := t l + 1, t_part := t_part l + 1\<rparr>"
    unfolding advance_def Let_def
    by (auto simp: bind_err_def[of "if _ then _ else _"] bind_err_def[of "zero_last_row _"]
        split: sum.splits)
  have r2: "rect ?I ?J psi2"
  proof (cases "effect s")
    case Loss
    with p1 p2 show ?thesis by (auto simp: bind_err_def split: sum.splits dest: reshape_C_rect)
  next
    case Diffusion
    with p2 show ?thesis by (auto simp: bind_err_def split: sum.splits dest: reshape_F_rect)
  next
    case All
    with p2 show ?thesis by (auto simp: bind_err_def split: sum.splits dest: reshape_F_rect)
  qed
  from zero_last_row_result[OF p3 r2] have zb: "zero_boundary s psi3"
    by (simp add: zero_boundary_def)
  from p4 res(1) have "if animation_flag s
        then \<exists>sn. snapshots s = Some sn
               \<and> s' = s\<lparr>snapshots := Some (sn @ [(butlast psi3, Delta_t s)])\<rparr>
        else s' = s"
    by (auto split: if_splits option.splits)
  with zb res(2) show ?thesis by blast
qed

lemma switching_keeps:
  assumes "switching s l = Inr (brk, s', l')"
  shows "t l' = t l" "psi l' = psi l" "psi_prev l' = psi_prev l"
    "r_bins s' = r_bins s" "E_bins s' = E_bins s" "snapshots s' = snapshots s"
    "animation_flag s' = animation_flag s" "benchmark_flag s' = benchmark_flag s"
    "effect s' = effect s" "\<not> brk \<Longrightarrow> convergence_check l' = convergence_check l"
    "brk \<Longrightarrow> stability_check l \<and> Delta_t s' = Delta_t s"
proof -
  note c = switching_cases[OF assms]
  have r: "\<And>sx lx. rebuild sx (l\<lparr>t_part := 0\<rparr>) = Inr lx \<Longrightarrow>
      t lx = t l \<and> psi lx = psi l \<and> psi_prev lx = psi_prev l
      \<and> convergence_check lx = convergence_check l"
  proof -
    fix sx lx assume "rebuild sx (l\<lparr>t_part := 0\<rparr>) = Inr lx"
    from rebuild_result(1)[OF this]
    have "lx = l\<lparr>t_part := 0, loss_AB := loss_AB lx, diff_AB := diff_AB lx\<rparr>" by simp
    then obtain x y where "lx = l\<lparr>t_part := 0, loss_AB := x, diff_AB := y\<rparr>" by blast
    then show "t lx = t l \<and> psi lx = psi l \<and> psi_prev lx = psi_prev l
      \<and> convergence_check lx = convergence_check l" by simp
  qed
  from c r show "t l' = t l" by auto
  from c r show "psi l' = psi l" by auto
  from c r show "psi_prev l' = psi_prev l" by auto
  from c show "r_bins s' = r_bins s" by auto
  from c show "E_bins s' = E_bins s" by auto
  from c show "snapshots s' = snapshots s" by auto
  from c show "animation_flag s' = animation_flag s" by auto
  from c show "benchmark_flag s' = benchmark_flag s" by auto
  from c show "effect s' = effect s" by auto
  from c r show "convergence_check l' = convergence_check l" if "\<not> brk" using that by auto
  from c show "stability_check l \<and> Delta_t s' = Delta_t s" if "brk" using that by auto
qed

lemma advance_keeps:
  assumes "advance spsolve Q_in s l = Inr (s', l')"
  shows "t l' = t l + 1" "r_bins s' = r_bins s" "E_bins s' = E_bins s"
    "Delta_t s' = Delta_t s" "benchmark_flag s' = benchmark_flag s"
    "animation_flag s' = animation_flag s" "effect s' = effect s"
    "loss_AB l' = loss_AB l" "diff_AB l' = diff_AB l"
    "convergence_check l' = convergence_check l" "zero_boundary s' (psi l')"
proof -
  from advance_result[OF assms] obtain psi3 where
    l': "l' = l\<lparr>psi_prev := psi l, psi := psi3,
                 t_elapsed := t_elapsed l + Delta_t s,
                 t := t l + 1, t_part := t_part l + 1\<rparr>"
    and zb: "zero_boundary s psi3"
    and s': "if animation_flag s
        then \<exists>sn. snapshots s = Some sn
               \<and> s' = s\<lparr>snapshots := Some (sn @ [(butlast psi3, Delta_t s)])\<rparr>
        else s' = s" by blast
  from l' show "t l' = t l + 1" "loss_AB l' = loss_AB l" "diff_AB l' = diff_AB l"
    "convergence_check l' = convergence_check l" by simp_all
  from s' show a: "r_bins s' = r_bins s" by (auto split: if_splits)
  from s' show b: "E_bins s' = E_bins s" by (auto split: if_splits)
  from s' show "Delta_t s' = Delta_t s" by (auto split: if_splits)
  from s' show "benchmark_flag s' = benchmark_flag s" by (auto split: if_splits)
  from s' show "animation_flag s' = animation_flag s" by (auto split: if_splits)
  from s' show "effect s' = effect s" by (auto split: if_splits)
  from zb a b l' show "zero_boundary s' (psi l')" by (simp add: zero_boundary_def)
qed

lemma cn_iter_ok:
  assumes wf: "wf_state s l" and rQ: "rect (r_bins s) (E_bins s) Q_in" and so: "solver_ok spsolve"
  shows "\<exists>brk s1 l1. cn_iter spsolve Q_in s l = Inr (brk, s1, l1)
     \<and> wf_state s1 l1 \<and> rect (r_bins s1) (E_bins s1) Q_in"
proof -
  from update_checks_form[OF wf] obtain rd st lc dc ts bc where
    "update_checks s l = Inr (l\<lparr>rel_diff_check := rd, stability_check := st,
       loss_ts_check := lc, diff_ts_check := dc, ts_check := ts, benchmark_check := bc\<rparr>)"
    by blast
  moreover have "wf_state s (l\<lparr>rel_diff_check := rd, stability_check := st,
       loss_ts_check := lc, diff_ts_check := dc, ts_check := ts, benchmark_check := bc\<rparr>)"
    using wf by (simp only: wf_state_checks)
  ultimately obtain la where la: "update_checks s l = Inr la" and wfa: "wf_state s la"
    by blast
  from switching_ok[OF wfa] obtain brk sb lb where sw: "switching s la = Inr (brk, sb, lb)"
    and wfb: "wf_state sb lb" by blast
  note k = switching_keeps[OF sw]
  show ?thesis
  proof (cases brk)
    case True
    then have "cn_iter spsolve Q_in s l = Inr (True, sb, lb)"
      by (simp add: cn_iter_def la sw)
    with wfb k rQ show ?thesis by auto
  next
    case False
    from rQ k have rQb: "rect (r_bins sb) (E_bins sb) Q_in" by simp
    from advance_ok[OF wfb so rQb] obtain s1 l1 where
      adv: "advance spsolve Q_in sb lb = Inr (s1, l1)" and wf1: "wf_state s1 l1" by blast
    from False have "cn_iter spsolve Q_in s l = Inr (False, s1, l1)"
      by (simp add: cn_iter_def la sw adv)
    with wf1 rQb advance_keeps(2,3)[OF adv] show ?thesis by auto
  qed
qed

lemma cn_loop_ok:
  assumes "wf_state s l" "rect (r_bins s) (E_bins s) Q_in" "solver_ok spsolve"
  shows "\<exists>s' l'. cn_loop spsolve Q_in s l = Inr (s', l')"
proof (rule cn_loop_total[where P = "\<lambda>s l. wf_state s l \<and> rect (r_bins s) (E_bins s) Q_in"])
  show "wf_state s l \<and> rect (r_bins s) (E_bins s) Q_in" using assms by simp
next
  fix s l assume "wf_state s l \<and> rect (r_bins s) (E_bins s) Q_in"
  then show "\<exists>brk s1 l1. cn_iter spsolve Q_in s l = Inr (brk, s1, l1)
      \<and> wf_state s1 l1 \<and> rect (r_bins s1) (E_bins s1) Q_in"
    using cn_iter_ok[OF _ _ assms(3)] by blast
qed

lemma cn_iter_t:
  assumes "cn_iter spsolve Q_in s l = Inr (brk, s1, l1)"
  shows "t l1 = (if brk then t l else t l + 1)"
proof -
  from cn_iter_cases[OF assms] obtain la sb lb where
    la: "update_checks s l = Inr la" and sw: "switching s la = Inr (brk, sb, lb)"
    and r: "if brk then s1 = sb \<and> l1 = lb else advance spsolve Q_in sb lb = Inr (s1, l1)"
    by blast
  show ?thesis
    using update_checks_keeps(3)[OF la] switching_keeps(1)[OF sw] r advance_keeps(1)
    by (auto split: if_splits)
qed

lemma cn_loop_t:
  assumes "cn_loop spsolve Q_in s l = Inr (s', l')" "t l \<le> max_t"
  shows "t l' \<le> max_t"
proof (rule cn_loop_invariant[OF assms(1), where P = "\<lambda>s l. t l \<le> max_t"
      and R = "\<lambda>s l. t l \<le> max_t"])
  show "t l \<le> max_t" by fact
next
  fix s l brk s1 l1
  assume "t l \<le> max_t" "\<not> convergence_check l" "t l < max_t"
    "cn_iter spsolve Q_in s l = Inr (brk, s1, l1)"
  then show "if brk then t l1 \<le> max_t else t l1 \<le> max_t"
    using cn_iter_t by auto
next
  fix s :: cn_scheme and l assume "t l \<le> max_t"
  then show "t l \<le> max_t" .
qed

lemma zero_boundary_cong:
  "r_bins s' = r_bins s \<Longrightarrow> E_bins s' = E_bins s \<Longrightarrow> zero_boundary s' m = zero_boundary s m"
  by (simp add: zero_boundary_def)

lemma cn_loop_boundary:
  assumes "cn_loop spsolve Q_in s l = Inr (s', l')"
    and "t l = 0" "\<not> convergence_check l" "\<not> stability_check l"
  shows "zero_boundary s' (psi l') \<and> 0 < t l'"
proof (rule cn_loop_invariant[OF assms(1),
      where P = "\<lambda>s l. (t l = 0 \<and> \<not> convergence_check l \<and> \<not> stability_check l)
                   \<or> (zero_boundary s (psi l) \<and> 0 < t l)"
      and R = "\<lambda>s l. zero_boundary s (psi l) \<and> 0 < t l"])
  show "(t l = 0 \<and> \<not> convergence_check l \<and> \<not> stability_check l)
      \<or> (zero_boundary s (psi l) \<and> 0 < t l)" using assms by simp
next
  fix s l brk s1 l1
  assume P: "(t l = 0 \<and> \<not> convergence_check l \<and> \<not> stability_check l)
      \<or> (zero_boundary s (psi l) \<and> 0 < t l)"
    and it: "cn_iter spsolve Q_in s l = Inr (brk, s1, l1)"
  from cn_iter_cases[OF it] obtain la sb lb where
    la: "update_checks s l = Inr la" and sw: "switching s la = Inr (brk, sb, lb)"
    and r: "if brk then s1 = sb \<and> l1 = lb else advance spsolve Q_in sb lb = Inr (s1, l1)"
    by blast
  note ka = update_checks_keeps[OF la] and kb = switching_keeps[OF sw]
  show "if brk then zero_boundary s1 (psi l1) \<and> 0 < t l1
        else (t l1 = 0 \<and> \<not> convergence_check l1 \<and> \<not> stability_check l1)
          \<or> (zero_boundary s1 (psi l1) \<and> 0 < t l1)"
  proof (cases brk)
    case True
    with kb(11) have st: "stability_check la" by simp
    have "\<not> (t l = 0 \<and> \<not> stability_check l)"
    proof
      assume a: "t l = 0 \<and> \<not> stability_check l"
      then have "t l \<le> 1" by simp
      from ka(9)[OF this] st a show False by simp
    qed
    with P have "zero_boundary s (psi l) \<and> 0 < t l" by blast
    moreover have "zero_boundary sb (psi lb) = zero_boundary s (psi l)"
      using kb(2) ka(1) zero_boundary_cong[OF kb(4) kb(5)] by simp
    ultimately show ?thesis using True r kb(1) ka(3) by simp
  next
    case False
    with r have adv: "advance spsolve Q_in sb lb = Inr (s1, l1)" by simp
    from advance_keeps(1,11)[OF adv] False show ?thesis by simp
  qed
next
  fix s l
  assume "(t l = 0 \<and> \<not> convergence_check l \<and> \<not> stability_check l)
      \<or> (zero_boundary s (psi l) \<and> 0 < t l)"
    and "\<not> (\<not> convergence_check l \<and> t l < max_t)"
  then show "zero_boundary s (psi l) \<and> 0 < t l" by (auto simp: max_t_def)
qed


lemma cn_init_result:
  assumes "cn_init s Q_in = Inr (s0, l0)"
  shows "t l0 = 0" "\<not> convergence_check l0" "\<not> stability_check l0"
    "zero_last_row Q_in = Inr (psi l0)"
    "s0 = (if animation_flag s then s\<lparr>snapshots := Some [(butlast (psi l0), Delta_t s)]\<rparr> else s)"
    "effect s \<in> {Loss, All} \<Longrightarrow> spmatrices_loss s = Inr (the (loss_AB l0))"
    "effect s \<in> {Diffusion, All} \<Longrightarrow> spmatrices_diff s = Inr (the (diff_AB l0))"
  using assms
  by (auto simp: cn_init_def bind_err_def split: sum.splits if_splits)

lemma cn_init_ok:
  assumes wf: "wf_scheme s" and rQ: "rect (r_bins s) (E_bins s) Q_in"
  shows "\<exists>s0 l0. cn_init s Q_in = Inr (s0, l0) \<and> wf_state s0 l0
     \<and> r_bins s0 = r_bins s \<and> E_bins s0 = E_bins s"
proof -
  let ?I = "r_bins s" and ?J = "E_bins s"
  from wf have I: "0 < ?I" by (simp add: wf_scheme_def)
  obtain m1 where m1: "spmatrices_loss s = Inr m1" "has_matrices (?I * ?J) (Some m1)"
    using spmatrices_loss_ok[OF wf] by blast
  obtain m2 where m2: "spmatrices_diff s = Inr m2" "has_matrices (?I * ?J) (Some m2)"
    using spmatrices_diff_ok[OF wf] by blast
  from zero_last_row_rect[OF rQ I] obtain psi0 where p0: "zero_last_row Q_in = Inr psi0"
    "rect ?I ?J psi0" by blast
  show ?thesis
    using wf m1 m2 p0
    by (cases "effect s") (auto simp: cn_init_def wf_state_def)
qed

lemma cn_2D_result:
  assumes "cn_2D spsolve s Q_in = Inr (res, s', l')"
  shows "\<exists>s0 l0 s1. cn_init s Q_in = Inr (s0, l0) \<and> cn_loop spsolve Q_in s0 l0 = Inr (s1, l')
     \<and> res = psi l' \<and> s' = s1\<lparr>electrons := Some (psi l')\<rparr>"
  using assms
  by (auto simp: cn_2D_def bind_err_def split: sum.splits prod.splits)

lemma cn_2D_ok:
  assumes wf: "wf_scheme s" and rQ: "rect (r_bins s) (E_bins s) Q_in" and so: "solver_ok spsolve"
  shows "\<exists>res s' l'. cn_2D spsolve s Q_in = Inr (res, s', l')"
proof -
  from cn_init_ok[OF wf rQ] obtain s0 l0 where i: "cn_init s Q_in = Inr (s0, l0)"
    and w: "wf_state s0 l0" and e: "r_bins s0 = r_bins s" "E_bins s0 = E_bins s" by blast
  from rQ e have "rect (r_bins s0) (E_bins s0) Q_in" by simp
  from cn_loop_ok[OF w this so] obtain s1 l1 where "cn_loop spsolve Q_in s0 l0 = Inr (s1, l1)"
    by blast
  with i show ?thesis by (simp add: cn_2D_def)
qed

lemma cn_2D_t:
  assumes "cn_2D spsolve s Q_in = Inr (res, s', l')"
  shows "t l' \<le> max_t" "0 < t l'"
proof -
  from cn_2D_result[OF assms] obtain s0 l0 s1 where i: "cn_init s Q_in = Inr (s0, l0)"
    and lp: "cn_loop spsolve Q_in s0 l0 = Inr (s1, l')" by blast
  note r = cn_init_result[OF i]
  from cn_loop_t[OF lp] r(1) show "t l' \<le> max_t" by simp
  from cn_loop_boundary[OF lp r(1,2,3)] show "0 < t l'" by simp
qed

lemma cn_loop_keeps_bins:
  assumes "cn_loop spsolve Q_in s l = Inr (s', l')"
  shows "r_bins s' = r_bins s \<and> E_bins s' = E_bins s"
proof (rule cn_loop_invariant[OF assms, where P = "\<lambda>x y. r_bins x = r_bins s \<and> E_bins x = E_bins s"
      and R = "\<lambda>x y. r_bins x = r_bins s \<and> E_bins x = E_bins s"])
  show "r_bins s = r_bins s \<and> E_bins s = E_bins s" by simp
next
  fix sa l brk s1 l1
  assume P: "r_bins sa = r_bins s \<and> E_bins sa = E_bins s"
    and it: "cn_iter spsolve Q_in sa l = Inr (brk, s1, l1)"
  from cn_iter_cases[OF it] obtain la sb lb where
    sw: "switching sa la = Inr (brk, sb, lb)"
    and r: "if brk then s1 = sb \<and> l1 = lb else advance spsolve Q_in sb lb = Inr (s1, l1)"
    by blast
  from switching_keeps(4,5)[OF sw] P r advance_keeps(2,3)
  have "r_bins s1 = r_bins s \<and> E_bins s1 = E_bins s" by (auto split: if_splits)
  then show "if brk then r_bins s1 = r_bins s \<and> E_bins s1 = E_bins s
        else r_bins s1 = r_bins s \<and> E_bins s1 = E_bins s" by simp
next
  fix sa :: cn_scheme and l :: cn_locals
  assume "r_bins sa = r_bins s \<and> E_bins sa = E_bins s"
  then show "r_bins sa = r_bins s \<and> E_bins sa = E_bins s" .
qed

lemma cn_2D_boundary:
  assumes "cn_2D spsolve s Q_in = Inr (res, s', l')"
  shows "zero_boundary s res"
proof -
  from cn_2D_result[OF assms] obtain s0 l0 s1 where i: "cn_init s Q_in = Inr (s0, l0)"
    and lp: "cn_loop spsolve Q_in s0 l0 = Inr (s1, l')" and res: "res = psi l'" by blast
  note r = cn_init_result[OF i]
  from r(5) have "r_bins s0 = r_bins s" "E_bins s0 = E_bins s" by (auto split: if_splits)
  with cn_loop_keeps_bins[OF lp] have "r_bins s1 = r_bins s" "E_bins s1 = E_bins s" by simp_all
  from zero_boundary_cong[OF this] cn_loop_boundary[OF lp r(1,2,3)] res show ?thesis by simp
qed

subsection \<open>The entry point\<close>

lemma setup_grid_sel [simp]:
  "r_bins (setup_grid u s a) = length (r_sample a)"
  "E_bins (setup_grid u s a) = length (E_sample a)"
  "E_grid (setup_grid u s a) = E_sample a"
  "length (r_grid (setup_grid u s a)) = length (r_sample a)"
  "length (logr_grid (setup_grid u s a)) = length (r_sample a)"
  "length (logE_grid (setup_grid u s a)) = length (E_sample a)"
  "effect (setup_grid u s a) = (if lossOnly a then Loss else All)"
  "benchmark_flag (setup_grid u s a) = benchmark_flag s"
  "const_Delta_t (setup_grid u s a) = const_Delta_t s"
  "animation_flag (setup_grid u s a) = animation_flag s"
  "smallest_Delta_t (setup_grid u s a) = smallest_Delta_t s"
  "max_t_part (setup_grid u s a) = max_t_part s"
  "Delta_t_reduction (setup_grid u s a) = Delta_t_reduction s"
  "constants (setup_grid u s a) =
     \<lparr>ICISRF = Fin (608 / 10 ^ 18) + Fin (25 / 10 ^ 18) * np_pow (Fin 1 + z a) (Fin 4),
      ICCMB = Fin (25 / 10 ^ 18) * np_pow (Fin 1 + z a) (Fin 4),
      sync = Fin (254 / 10 ^ 20),
      coul = Fin (613 / 10 ^ 18),
      brem = Fin (47 / 10 ^ 17)\<rparr>"
  by (simp_all add: setup_grid_def Let_def)

lemma ew4_rect_ex:
  "rect I J A \<Longrightarrow> rect I J B \<Longrightarrow> rect I J C \<Longrightarrow> rect I J E \<Longrightarrow> 0 < I \<Longrightarrow>
     \<exists>m. ew4 f A B C E = Inr m \<and> rect I J m"
  by (simp add: ew4_rect)

lemma rect_ones_outer [simp]:
  "rect n (length ys) (outer (ones n) ys)" "rect (length xs) n (outer xs (ones n))"
  using rect_outer[of "ones n" ys] rect_outer[of xs "ones n"] by (simp_all add: ones_def)

lemma outer_ones_nth [simp]:
  "i < length xs \<Longrightarrow> j < n \<Longrightarrow> outer xs (ones n) ! i ! j = xs ! i"
  "i < n \<Longrightarrow> j < length ys \<Longrightarrow> outer (ones n) ys ! i ! j = ys ! j"
  by (simp_all add: outer_def ones_def)

lemma set_b_rect:
  assumes "rect I J B_in" "rect I J ne_in" "rect I J E_in" "0 < I"
  shows "set_b s B_in ne_in E_in =
     Inr (tabulate2 I J (\<lambda>i j. b_cell (constants s) (B_in ! i ! j) (ne_in ! i ! j) (E_in ! i ! j)))"
  unfolding set_b_def b_cell_def by (rule ew3_rect[OF assms])

lemma setup_fields_ok:
  assumes va: "valid_args a"
    and sI: "r_bins s = length (r_sample a)" and sJ: "E_bins s = length (E_sample a)"
    and sE: "E_grid s = E_sample a" and sl: "length (logr_grid s) = r_bins s"
  shows "\<exists>q' d' dd'. setup_fields u s a =
       Inr (s\<lparr>Q := q', D := d', dDdr := dd',
              b := tabulate2 (r_bins s) (E_bins s)
                     (\<lambda>i j. b_cell (constants s) (b_sample a ! i) (ne_sample a ! i) (E_sample a ! j))\<rparr>)
     \<and> rect (r_bins s) (E_bins s) q' \<and> rect (r_bins s) (E_bins s) d'
     \<and> rect (r_bins s) (E_bins s) dd'"
proof -
  let ?I = "r_bins s" and ?J = "E_bins s"
  from va sI sJ have I: "0 < ?I" and J: "0 < ?J"
    and lens: "length (rho_sample a) = ?I" "length (b_sample a) = ?I"
      "length (dBdr_sample a) = ?I" "length (ne_sample a) = ?I" "length (Q_sample a) = ?J"
      "length (E_sample a) = ?J" "length (r_sample a) = ?I"
    and me: "mode_exp a \<noteq> 0"
    by (auto simp: valid_args_def)
  let ?rho = "map (\<lambda>x. x * rho_to_GeV_cm3 u) (rho_sample a)"
  let ?dB = "map (\<lambda>x. x * per_Mpc_to_per_cm u) (dBdr_sample a)"
  let ?Et = "outer (ones ?I) (E_grid s)" and ?Bt = "outer (b_sample a) (ones ?J)"
  let ?nt = "outer (ne_sample a) (ones ?J)" and ?dt = "outer ?dB (ones ?J)"
  have rE: "rect ?I ?J ?Et" using rect_ones_outer(1)[of ?I "E_grid s"] sE lens by simp
  have rB: "rect ?I ?J ?Bt" using rect_ones_outer(2)[of "b_sample a" ?J] lens by simp
  have rn: "rect ?I ?J ?nt" using rect_ones_outer(2)[of "ne_sample a" ?J] lens by simp
  have rd: "rect ?I ?J ?dt" using rect_ones_outer(2)[of ?dB ?J] lens by simp
  have r1: "rect ?I ?J (map (map (\<lambda>x. Fin (1 / real (mode_exp a))
                                        * np_pow (x / mx a) (Fin (real (mode_exp a)))))
                          (outer ?rho (ones (length (E_grid s)))))"
    using rect_ones_outer(2)[of ?rho "length (E_grid s)"] sE lens by simp
  have r2: "rect ?I ?J (outer (ones (length ?rho)) (Q_sample a))"
    using rect_ones_outer(1)[of "length ?rho" "Q_sample a"] lens by simp
  from ew2_rect_ex[OF r1 r2 I] obtain q' where
    q: "ew2 (\<lambda>x y. x * y)
          (map (map (\<lambda>x. Fin (1 / real (mode_exp a))
                                        * np_pow (x / mx a) (Fin (real (mode_exp a)))))
                          (outer ?rho (ones (length (E_grid s)))))
          (outer (ones (length ?rho)) (Q_sample a)) = Inr q'" and rq: "rect ?I ?J q'"
    by blast
  obtain d' where d: "set_D s ?Bt ?Et = Inr d'" and rdd: "rect ?I ?J d'"
    unfolding set_D_def Let_def using ew2_rect_ex[OF rB rE I] by blast
  have rpf: "rect ?I ?J (tabulate2 ?I ?J (\<lambda>i j. r_prefactor s i))" by simp
  have g: "r_bins s \<le> length (logr_grid s)" using sl by simp
  have "\<exists>dd'. set_dDdr s ?Bt ?dt ?Et = Inr dd' \<and> rect ?I ?J dd'"
    unfolding set_dDdr_def Let_def
    by (simp only: g if_True) (rule ew4_rect_ex[OF rpf rB rd rE I])
  then obtain dd' where dd: "set_dDdr s ?Bt ?dt ?Et = Inr dd'" and rddd: "rect ?I ?J dd'"
    by blast
  have bb: "set_b s ?Bt ?nt ?Et = Inr (tabulate2 ?I ?J
      (\<lambda>i j. b_cell (constants s) (b_sample a ! i) (ne_sample a ! i) (E_sample a ! j)))"
    unfolding set_b_rect[OF rB rn rE I]
    using lens sE by (auto intro!: tabulate2_cong)
  have "setup_fields u s a = Inr (s\<lparr>Q := q', D := d', dDdr := dd',
              b := tabulate2 ?I ?J
                     (\<lambda>i j. b_cell (constants s) (b_sample a ! i) (ne_sample a ! i) (E_sample a ! j))\<rparr>)"
    using me by (simp only: setup_fields_def Let_def q d dd bb bind_err_Inr if_False)
  with rq rdd rddd show ?thesis by blast
qed

lemma ew2_row:
  assumes "rect I J B" "0 < I" "length xs = J"
  shows "ew2 f [xs] B = Inr (tabulate2 I J (\<lambda>i j. f (xs ! j) (B ! i ! j)))"
proof -
  have s1: "shape [xs] = (Suc 0, J)" using assms by (simp add: shape_def ncols_def)
  have bs: "bc_shape (Suc 0, J) (I, J) = Some (I, J)"
    using assms by (simp add: bc_shape_def bc_len_def)
  have c: "\<And>i j. j < J \<Longrightarrow> bcell [xs] i j = xs ! j"
    using assms by (auto simp: bcell_def ncols_def)
  have "ew2 f [xs] B = Inr (tabulate2 I J (\<lambda>i j. f (bcell [xs] i j) (bcell B i j)))"
    unfolding ew2_def s1 shape_rect[OF assms(1,2)] bs by simp
  also have "tabulate2 I J (\<lambda>i j. f (bcell [xs] i j) (bcell B i j))
      = tabulate2 I J (\<lambda>i j. f (xs ! j) (B ! i ! j))"
    by (rule tabulate2_cong) (simp add: c bcell_rect[OF assms(1)])
  finally show ?thesis .
qed

lemma np_min_ok: "xs \<noteq> [] \<Longrightarrow> \<exists>v. np_min xs = Inr v"
  by (cases xs) (simp_all add: np_min_def)

lemma concat_rect_nonempty:
  assumes "rect I J m" "0 < I" "0 < J"
  shows "concat m \<noteq> []"
proof -
  have "0 < length (concat m)" using length_concat_rect[OF assms(1)] assms(2,3) by simp
  then show ?thesis by auto
qed

lemma setup_steps_result:
  assumes "setup_steps u s a = Inr s'"
  shows "\<exists>lts lmin dmin.
     ew2 (\<lambda>e bc. e / bc) [E_grid s] (b s) = Inr lts
     \<and> np_min (concat lts) = Inr lmin
     \<and> np_min (concat (map (map (\<lambda>Dc. np_pow (r_grid s ! 1 - r_grid s ! 0) (Fin 2) / Dc)) (D s)))
         = Inr dmin
     \<and> s' = steps_state u s a lts
              (map (map (\<lambda>Dc. np_pow (r_grid s ! 1 - r_grid s ! 0) (Fin 2) / Dc)) (D s)) lmin dmin"
  using assms
  unfolding setup_steps_def steps_state_def
  by (auto simp: bind_err_def Let_def split: sum.splits if_splits)

lemma steps_state_sel:
  "r_bins (steps_state u s a lts dts lmin dmin) = r_bins s"
  "E_bins (steps_state u s a lts dts lmin dmin) = E_bins s"
  "Q (steps_state u s a lts dts lmin dmin) = Q s"
  "D (steps_state u s a lts dts lmin dmin) = D s"
  "dDdr (steps_state u s a lts dts lmin dmin) = dDdr s"
  "b (steps_state u s a lts dts lmin dmin) = b s"
  "logr_grid (steps_state u s a lts dts lmin dmin) = logr_grid s"
  "logE_grid (steps_state u s a lts dts lmin dmin) = logE_grid s"
  "loss_ts (steps_state u s a lts dts lmin dmin) = lts"
  "diff_ts (steps_state u s a lts dts lmin dmin) = dts"
  "effect (steps_state u s a lts dts lmin dmin) = effect s"
  "benchmark_flag (steps_state u s a lts dts lmin dmin) = benchmark_flag s"
  "animation_flag (steps_state u s a lts dts lmin dmin) = animation_flag s"
  "snapshots (steps_state u s a lts dts lmin dmin) = snapshots s"
  "const_Delta_t (steps_state u s a lts dts lmin dmin) = (benchmark_flag s \<or> const_Delta_t s)"
  by (simp_all add: steps_state_def Let_def)

lemma steps_state_accelerated:
  assumes "\<not> benchmark_flag s" "\<not> const_Delta_t s"
  shows "smallest_Delta_t (steps_state u s a lts dts lmin dmin) = Some (Delta_t_min a * yr_to_s u)"
    "max_t_part (steps_state u s a lts dts lmin dmin) = Some (max_t_part_arg a)"
    "Delta_t_reduction (steps_state u s a lts dts lmin dmin) = Some (Delta_t_reduction_arg a)"
    "Delta_t (steps_state u s a lts dts lmin dmin) =
       Delta_ti_arg a * yr_to_s u * (if effect s \<in> {All} then Fin (1 / 2) else Fin 1) * Fin 1"
  using assms by (simp_all add: steps_state_def Let_def)

lemma steps_state_benchmark:
  assumes "benchmark_flag s"
  shows "Delta_t (steps_state u s a lts dts lmin dmin) =
       (case effect s of Loss \<Rightarrow> lmin | Diffusion \<Rightarrow> dmin | All \<Rightarrow> min2 lmin dmin)
       * (if effect s \<in> {All} then Fin (1 / 2) else Fin 1) * Fin (1 / 10)"
  using assms by (simp add: steps_state_def Let_def)

lemma setup_steps_ok:
  assumes I: "2 \<le> r_bins s" and J: "2 \<le> E_bins s"
    and lr: "length (r_grid s) = r_bins s" and lE: "length (E_grid s) = E_bins s"
    and llr: "length (logr_grid s) = r_bins s" and llE: "length (logE_grid s) = E_bins s"
    and rb: "rect (r_bins s) (E_bins s) (b s)" and rD: "rect (r_bins s) (E_bins s) (D s)"
    and rdD: "rect (r_bins s) (E_bins s) (dDdr s)"
  shows "\<exists>s'. setup_steps u s a = Inr s' \<and> wf_scheme s'"
proof -
  let ?I = "r_bins s" and ?J = "E_bins s"
  from I J have I0: "0 < ?I" and J0: "0 < ?J" by simp_all
  let ?lts = "tabulate2 ?I ?J (\<lambda>i j. E_grid s ! j / b s ! i ! j)"
  let ?dts = "map (map (\<lambda>Dc. np_pow (r_grid s ! 1 - r_grid s ! 0) (Fin 2) / Dc)) (D s)"
  have e: "ew2 (\<lambda>e bc. e / bc) [E_grid s] (b s) = Inr ?lts"
    by (rule ew2_row[OF rb I0 lE])
  have rl: "rect ?I ?J ?lts" by simp
  have rd: "rect ?I ?J ?dts" using rD by simp
  obtain lmin where lmin: "np_min (concat ?lts) = Inr lmin"
    using np_min_ok[OF concat_rect_nonempty[OF rl I0 J0]] by blast
  obtain dmin where dmin: "np_min (concat ?dts) = Inr dmin"
    using np_min_ok[OF concat_rect_nonempty[OF rd I0 J0]] by blast
  have g1: "\<not> length (r_grid s) < 2" using I lr by simp
  have g2: "\<not> length (logE_grid s) < 2" using J llE by simp
  have "setup_steps u s a = Inr (steps_state u s a ?lts ?dts lmin dmin)"
    unfolding setup_steps_def steps_state_def
    by (simp only: e bind_err_Inr g1 g2 if_False Let_def lmin dmin)
  moreover have "wf_scheme (steps_state u s a ?lts ?dts lmin dmin)"
    unfolding wf_scheme_def steps_state_sel
    using I J llr llE rD rdD rb rl rd
    by (cases "benchmark_flag s \<or> const_Delta_t s")
       (auto simp: steps_state_accelerated)
  ultimately show ?thesis by blast
qed

lemma setup_fields_result:
  assumes "setup_fields u s a = Inr s1"
  shows "\<exists>q d dd bb. s1 = s\<lparr>Q := q, D := d, dDdr := dd, b := bb\<rparr>"
  using assms
  by (auto simp: setup_fields_def bind_err_def Let_def split: sum.splits if_splits)

lemma solveElectrons_result:
  assumes "solveElectrons spsolve u s a = Inr (res, s', l')"
  shows "\<exists>s1 s2 psi_end. setup_fields u (setup_grid u s a) a = Inr s1
     \<and> setup_steps u s1 a = Inr s2 \<and> cn_2D spsolve s2 (Q s2) = Inr (psi_end, s', l')
     \<and> res = np_transpose psi_end"
  using assms
  by (auto simp: solveElectrons_def bind_err_def split: sum.splits prod.splits)

lemma solveElectrons_bins:
  assumes "setup_fields u (setup_grid u s a) a = Inr s1" "setup_steps u s1 a = Inr s2"
  shows "r_bins s2 = length (r_sample a)" "E_bins s2 = length (E_sample a)"
    "benchmark_flag s2 = benchmark_flag s" "animation_flag s2 = animation_flag s"
    "effect s2 = (if lossOnly a then Loss else All)" "b s2 = b s1"
proof -
  from setup_fields_result[OF assms(1)] obtain q d dd bb where
    s1: "s1 = (setup_grid u s a)\<lparr>Q := q, D := d, dDdr := dd, b := bb\<rparr>" by blast
  from setup_steps_result[OF assms(2)] obtain lts dts lmin dmin where
    s2: "s2 = steps_state u s1 a lts dts lmin dmin" by blast
  show "r_bins s2 = length (r_sample a)" "E_bins s2 = length (E_sample a)"
    "benchmark_flag s2 = benchmark_flag s" "animation_flag s2 = animation_flag s"
    "effect s2 = (if lossOnly a then Loss else All)" "b s2 = b s1"
    unfolding s2 steps_state_sel by (simp_all add: s1)
qed

lemma solveElectrons_ok:
  assumes va: "valid_args a" and so: "solver_ok spsolve"
  shows "\<exists>res s' l'. solveElectrons spsolve u s a = Inr (res, s', l')"
proof -
  let ?s0 = "setup_grid u s a"
  let ?I = "length (r_sample a)" and ?J = "length (E_sample a)"
  from va have IJ: "2 \<le> ?I" "2 \<le> ?J" by (simp_all add: valid_args_def)
  from setup_fields_ok[OF va, of ?s0 u] obtain q' d' dd' where
    f: "setup_fields u ?s0 a = Inr (?s0\<lparr>Q := q', D := d', dDdr := dd',
       b := tabulate2 (r_bins ?s0) (E_bins ?s0)
              (\<lambda>i j. b_cell (constants ?s0) (b_sample a ! i) (ne_sample a ! i) (E_sample a ! j))\<rparr>)"
    and r: "rect ?I ?J q'" "rect ?I ?J d'" "rect ?I ?J dd'"
    by auto
  define s1 where "s1 = ?s0\<lparr>Q := q', D := d', dDdr := dd',
       b := tabulate2 (r_bins ?s0) (E_bins ?s0)
              (\<lambda>i j. b_cell (constants ?s0) (b_sample a ! i) (ne_sample a ! i) (E_sample a ! j))\<rparr>"
  have f1: "setup_fields u ?s0 a = Inr s1" using f by (simp add: s1_def)
  have sel1: "r_bins s1 = ?I" "E_bins s1 = ?J" "length (r_grid s1) = ?I"
    "length (E_grid s1) = ?J" "length (logr_grid s1) = ?I" "length (logE_grid s1) = ?J"
    "Q s1 = q'" "D s1 = d'" "dDdr s1 = dd'" "rect ?I ?J (b s1)"
    by (simp_all add: s1_def)
  from setup_steps_ok[of s1 u a] sel1 IJ r obtain s2 where
    st: "setup_steps u s1 a = Inr s2" and wf: "wf_scheme s2" by auto
  from setup_steps_result[OF st] obtain lts dts lmin dmin where
    s2: "s2 = steps_state u s1 a lts dts lmin dmin" by blast
  have "rect (r_bins s2) (E_bins s2) (Q s2)"
    unfolding s2 steps_state_sel using sel1 r by simp
  from cn_2D_ok[OF wf this so] obtain psi_end s' l' where
    "cn_2D spsolve s2 (Q s2) = Inr (psi_end, s', l')" by blast
  with f1 st show ?thesis by (simp add: solveElectrons_def)
qed

lemma length_thomas_fwd [simp]: "length (thomas_fwd c d rows) = length rows"
  by (induction rows arbitrary: c d) (auto simp: Let_def)

lemma length_thomas_back [simp]: "length (thomas_back cds) = length cds"
  by (induction cds) (auto split: list.splits)

lemma solver_ok_thomas: "solver_ok thomas"
  by (simp add: solver_ok_def thomas_def)

lemma valid_ex_args: "valid_args ex_args"
  by (simp add: valid_args_def ex_args_def)

lemma cn_loop_exit:
  assumes "cn_loop spsolve Q_in s l = Inr (s', l')" "t l \<le> max_t"
  shows "convergence_check l' \<or> t l' = max_t"
proof (rule cn_loop_invariant[OF assms(1), where P = "\<lambda>s l. t l \<le> max_t"
      and R = "\<lambda>s l. convergence_check l \<or> t l = max_t"])
  show "t l \<le> max_t" by fact
next
  fix s l brk s1 l1
  assume a: "t l \<le> max_t" "\<not> convergence_check l" "t l < max_t"
    and it: "cn_iter spsolve Q_in s l = Inr (brk, s1, l1)"
  from cn_iter_cases[OF it] obtain la sb lb where
    sw: "switching s la = Inr (brk, sb, lb)"
    and r: "if brk then s1 = sb \<and> l1 = lb else advance spsolve Q_in sb lb = Inr (s1, l1)"
    by blast
  show "if brk then convergence_check l1 \<or> t l1 = max_t else t l1 \<le> max_t"
  proof (cases brk)
    case True
    with switching_cases[OF sw] r show ?thesis by auto
  next
    case False
    with cn_iter_t[OF it] a show ?thesis by simp
  qed
next
  fix s :: cn_scheme and l
  assume "t l \<le> max_t" "\<not> (\<not> convergence_check l \<and> t l < max_t)"
  then show "convergence_check l \<or> t l = max_t" by auto
qed

lemma cn_2D_exit:
  assumes "cn_2D spsolve s Q_in = Inr (res, s', l')"
  shows "convergence_check l' \<or> t l' = max_t"
proof -
  from cn_2D_result[OF assms] obtain s0 l0 s1 where i: "cn_init s Q_in = Inr (s0, l0)"
    and lp: "cn_loop spsolve Q_in s0 l0 = Inr (s1, l')" by blast
  from cn_loop_exit[OF lp] cn_init_result(1)[OF i] show ?thesis by simp
qed


lemma cn_iter_scheme:
  assumes "cn_iter spsolve Q_in s l = Inr (brk, s1, l1)"
  shows "\<exists>d sn. s1 = s\<lparr>Delta_t := d, snapshots := sn\<rparr>"
proof -
  from cn_iter_cases[OF assms] obtain la sb lb where
    sw: "switching s la = Inr (brk, sb, lb)"
    and r: "if brk then s1 = sb \<and> l1 = lb else advance spsolve Q_in sb lb = Inr (s1, l1)"
    by blast
  from switching_cases[OF sw] have "\<exists>d. sb = s\<lparr>Delta_t := d\<rparr>"
  proof (elim disjE conjE exE)
    assume "sb = s"
    then have "sb = s\<lparr>Delta_t := Delta_t s\<rparr>" by simp
    then show ?thesis by blast
  next
    assume "sb = s"
    then have "sb = s\<lparr>Delta_t := Delta_t s\<rparr>" by simp
    then show ?thesis by blast
  next
    fix red assume "sb = s\<lparr>Delta_t := Delta_t s * red\<rparr>"
    then show ?thesis by blast
  qed
  then obtain d where sb: "sb = s\<lparr>Delta_t := d\<rparr>" by blast
  show ?thesis
  proof (cases brk)
    case True
    with r sb have "s1 = s\<lparr>Delta_t := d, snapshots := snapshots s\<rparr>" by simp
    then show ?thesis by blast
  next
    case False
    with r have adv: "advance spsolve Q_in sb lb = Inr (s1, l1)" by simp
    from advance_result[OF adv] have "s1 = sb \<or> (\<exists>sn. s1 = sb\<lparr>snapshots := sn\<rparr>)"
      by (auto split: if_splits)
    then show ?thesis
    proof
      assume "s1 = sb"
      with sb have "s1 = s\<lparr>Delta_t := d, snapshots := snapshots s\<rparr>" by simp
      then show ?thesis by blast
    next
      assume "\<exists>sn. s1 = sb\<lparr>snapshots := sn\<rparr>"
      with sb show ?thesis by blast
    qed
  qed
qed

lemma cn_loop_scheme:
  assumes "cn_loop spsolve Q_in s l = Inr (s', l')"
  shows "\<exists>d sn. s' = s\<lparr>Delta_t := d, snapshots := sn\<rparr>"
proof (rule cn_loop_invariant[OF assms, where P = "\<lambda>x y. \<exists>d sn. x = s\<lparr>Delta_t := d, snapshots := sn\<rparr>"
      and R = "\<lambda>x y. \<exists>d sn. x = s\<lparr>Delta_t := d, snapshots := sn\<rparr>"])
  have "s = s\<lparr>Delta_t := Delta_t s, snapshots := snapshots s\<rparr>" by simp
  then show "\<exists>d sn. s = s\<lparr>Delta_t := d, snapshots := sn\<rparr>" by blast
next
  fix sa l brk s1 l1
  assume P: "\<exists>d sn. sa = s\<lparr>Delta_t := d, snapshots := sn\<rparr>"
    and it: "cn_iter spsolve Q_in sa l = Inr (brk, s1, l1)"
  from cn_iter_scheme[OF it] obtain d sn where "s1 = sa\<lparr>Delta_t := d, snapshots := sn\<rparr>"
    by blast
  with P obtain d' sn' where "s1 = s\<lparr>Delta_t := d', snapshots := sn'\<rparr>" by auto
  then have "\<exists>d sn. s1 = s\<lparr>Delta_t := d, snapshots := sn\<rparr>" by blast
  then show "if brk then \<exists>d sn. s1 = s\<lparr>Delta_t := d, snapshots := sn\<rparr>
        else \<exists>d sn. s1 = s\<lparr>Delta_t := d, snapshots := sn\<rparr>" by simp
next
  fix sa :: cn_scheme and l :: cn_locals
  assume "\<exists>d sn. sa = s\<lparr>Delta_t := d, snapshots := sn\<rparr>"
  then show "\<exists>d sn. sa = s\<lparr>Delta_t := d, snapshots := sn\<rparr>" .
qed

lemma cn_2D_scheme:
  assumes "cn_2D spsolve s Q_in = Inr (res, s', l')"
  shows "\<exists>d sn e. s' = s\<lparr>Delta_t := d, snapshots := sn, electrons := e\<rparr>"
proof -
  from cn_2D_result[OF assms] obtain s0 l0 s1 where i: "cn_init s Q_in = Inr (s0, l0)"
    and lp: "cn_loop spsolve Q_in s0 l0 = Inr (s1, l')"
    and s': "s' = s1\<lparr>electrons := Some (psi l')\<rparr>" by blast
  from cn_init_result(5)[OF i] obtain sn0 where "s0 = s\<lparr>snapshots := sn0\<rparr>"
    by (cases "animation_flag s") (auto intro: that[of "snapshots s"])
  with cn_loop_scheme[OF lp] s' show ?thesis by auto
qed

lemma snap_inv_iter:
  assumes P: "snap_inv first s l" and it: "cn_iter spsolve Q_in s l = Inr (brk, s1, l1)"
  shows "snap_inv first s1 l1"
proof -
  from cn_iter_cases[OF it] obtain la sb lb where
    la: "update_checks s l = Inr la" and sw: "switching s la = Inr (brk, sb, lb)"
    and r: "if brk then s1 = sb \<and> l1 = lb else advance spsolve Q_in sb lb = Inr (s1, l1)"
    by blast
  note ka = update_checks_keeps[OF la] and kb = switching_keeps[OF sw]
  from P obtain sn where an: "animation_flag s" and sn: "snapshots s = Some sn"
    "length sn = t l + 1" "last sn = (butlast (psi l), Delta_t s)" "hd sn = first"
    by (auto simp: snap_inv_def split: option.splits)
  show ?thesis
  proof (cases brk)
    case True
    with r kb ka an sn show ?thesis by (simp add: snap_inv_def)
  next
    case False
    with r have adv: "advance spsolve Q_in sb lb = Inr (s1, l1)" by simp
    from advance_result[OF adv] kb(6,7) an sn(1) obtain psi3 where
      l1: "l1 = lb\<lparr>psi_prev := psi lb, psi := psi3,
                 t_elapsed := t_elapsed lb + Delta_t sb,
                 t := t lb + 1, t_part := t_part lb + 1\<rparr>"
      and s1: "s1 = sb\<lparr>snapshots := Some (sn @ [(butlast psi3, Delta_t sb)])\<rparr>"
      by auto
    from sn(2) have "sn \<noteq> []" by auto
    then show ?thesis
      unfolding snap_inv_def s1 l1 using kb(1,7) ka(3) an sn(2,4) by simp
  qed
qed

lemma cn_loop_snapshots:
  assumes "cn_loop spsolve Q_in s l = Inr (s', l')" "snap_inv first s l"
  shows "snap_inv first s' l'"
proof (rule cn_loop_invariant[OF assms(1), where P = "snap_inv first" and R = "snap_inv first"])
  show "snap_inv first s l" by fact
next
  fix s l brk s1 l1
  assume "snap_inv first s l" "cn_iter spsolve Q_in s l = Inr (brk, s1, l1)"
  from snap_inv_iter[OF this]
  show "if brk then snap_inv first s1 l1 else snap_inv first s1 l1" by simp
next
  fix s l assume "snap_inv first s l"
  then show "snap_inv first s l" .
qed

lemma cn_2D_snapshots:
  assumes "animation_flag s" "cn_2D spsolve s Q_in = Inr (res, s', l')"
  shows "\<exists>sn psi0. snapshots s' = Some sn \<and> length sn = t l' + 1
     \<and> last sn = (butlast res, Delta_t s')
     \<and> zero_last_row Q_in = Inr psi0 \<and> hd sn = (butlast psi0, Delta_t s)"
proof -
  from cn_2D_result[OF assms(2)] obtain s0 l0 s1 where i: "cn_init s Q_in = Inr (s0, l0)"
    and lp: "cn_loop spsolve Q_in s0 l0 = Inr (s1, l')" and res: "res = psi l'"
    and s': "s' = s1\<lparr>electrons := Some (psi l')\<rparr>" by blast
  from cn_init_result(1,5)[OF i] assms(1)
  have "snap_inv (butlast (psi l0), Delta_t s) s0 l0"
    by (simp add: snap_inv_def)
  from cn_loop_snapshots[OF lp this] res s' cn_init_result(4)[OF i] show ?thesis
    by (auto simp: snap_inv_def split: option.splits)
qed

lemma advance_snapshot:
  assumes "animation_flag s" "snapshots s = Some sn" "advance spsolve Q_in s l = Inr (s', l')"
  shows "snapshots s' = Some (sn @ [(butlast (psi l'), Delta_t s')])"
  using advance_result[OF assms(3)] assms(1,2) by auto


subsection \<open>A run that cannot converge\<close>

text \<open>
  Without thermal gas the Coulomb term of the loss rate is \<open>0 \<cdot> \<infinity>\<close>, the loss rate and the
  loss time scale are NaN, and every comparison with NaN is false: with a constant time
  step the test on the time scales never succeeds and the loop runs to its ceiling.
\<close>

lemma np_log_div_zero:
  "np_mul (Fin 0) (np_add (Fin 1) (np_div (np_log (np_div Ec (Fin 0))) (Fin 75))) = NaN"
  by (cases Ec) (auto simp: signed_inf_def)

lemma b_cell_no_gas:
  assumes "coul c = Fin x"
  shows "b_cell c Bc (Fin 0) Ec = NaN"
proof -
  have "coul c * Fin 0 * (Fin 1 + np_log (Ec / (me * Fin 0)) / Fin 75) = NaN"
    using assms np_log_div_zero[of Ec] by (simp add: me_def)
  then show ?thesis by (simp add: b_cell_def)
qed

lemma np_all_tabulate2_False:
  assumes "0 < R" "0 < C" "\<not> f 0 0"
  shows "\<not> np_all (tabulate2 R C f)"
proof -
  from assms(1,2) have "[0..<R] = 0 # [1..<R]" "[0..<C] = 0 # [1..<C]"
    by (simp_all add: upt_rec)
  then show ?thesis using assms(3) by (simp add: np_all_def tabulate2_def)
qed

lemma update_checks_nan:
  assumes wf: "wf_state s l" and la: "update_checks s l = Inr la"
    and nan: "loss_ts s ! 0 ! 0 = NaN" and ef: "effect s \<noteq> Diffusion" and nts: "\<not> ts_check l"
  shows "\<not> ts_check la"
proof (cases "1 < t l")
  case False
  with la have "la = l" by (simp add: update_checks_def)
  with nts show ?thesis by simp
next
  case True
  let ?I = "r_bins s" and ?J = "E_bins s"
  from wf have I2: "2 \<le> ?I" and J2: "2 \<le> ?J"
    and rp: "rect ?I ?J (psi l)" and rq: "rect ?I ?J (psi_prev l)"
    and rl: "rect ?I ?J (loss_ts s)" and rd: "rect ?I ?J (diff_ts s)"
    and cd: "const_Delta_t s \<or> max_t_part s \<noteq> None"
    by (auto simp: wf_state_def wf_scheme_def)
  note bp = rect_butlast_pos[OF rp I2] and bq = rect_butlast_pos[OF rq I2]
    and bl = rect_butlast_pos[OF rl I2] and bd = rect_butlast_pos[OF rd I2]
  note e = ew2_rect[OF _ _ conjunct2[OF bp]]
  define dp where "dp = tabulate2 (?I - 1) ?J
      (\<lambda>i j. (butlast (psi l) ! i ! j - butlast (psi_prev l) ! i ! j) / Delta_t s)"
  define pts where "pts = tabulate2 (?I - 1) ?J (\<lambda>i j. \<bar>butlast (psi l) ! i ! j / dp ! i ! j\<bar>)"
  define lc where "lc = tabulate2 (?I - 1) ?J (\<lambda>i j. butlast (loss_ts s) ! i ! j < pts ! i ! j)"
  obtain m1 where m1: "ew2 (\<lambda>p q. \<bar>p / q - Fin 1\<bar> < stability_tol)
      (butlast (psi l)) (butlast (psi_prev l)) = Inr m1"
    using e[OF conjunct1[OF bp] conjunct1[OF bq]] by blast
  have "\<exists>st. (if const_Delta_t s then Inr (np_all m1)
                  else case max_t_part s of
                         None \<Rightarrow> Inl TypeError
                       | Some m \<Rightarrow> Inr (m < t_part l)) = (Inr st :: error + bool)"
    using cd by (cases "const_Delta_t s") auto
  then obtain st where st: "(if const_Delta_t s then Inr (np_all m1)
                  else case max_t_part s of
                         None \<Rightarrow> Inl TypeError
                       | Some m \<Rightarrow> Inr (m < t_part l)) = (Inr st :: error + bool)"
    by blast
  have dpe: "ew2 (\<lambda>p q. (p - q) / Delta_t s) (butlast (psi l)) (butlast (psi_prev l)) = Inr dp"
    unfolding dp_def by (rule e[OF conjunct1[OF bp] conjunct1[OF bq]])
  have rdp: "rect (?I - 1) ?J dp" by (simp add: dp_def)
  have ptse: "ew2 (\<lambda>p d. \<bar>p / d\<bar>) (butlast (psi l)) dp = Inr pts"
    unfolding pts_def by (rule e[OF conjunct1[OF bp] rdp])
  have rpts: "rect (?I - 1) ?J pts" by (simp add: pts_def)
  have lce: "ew2 (\<lambda>p c. c < p) pts (butlast (loss_ts s)) = Inr lc"
    unfolding lc_def by (rule e[OF rpts conjunct1[OF bl]])
  obtain dc where dce: "ew2 (\<lambda>p c. c < p) pts (butlast (diff_ts s)) = Inr dc"
    using e[OF rpts conjunct1[OF bd]] by blast
  have la': "update_checks s l = Inr (l\<lparr>rel_diff_check := np_all m1,
                stability_check := st,
                loss_ts_check := np_all lc,
                diff_ts_check := np_all dc,
                ts_check := (case effect s of
                               Loss \<Rightarrow> np_all lc
                             | Diffusion \<Rightarrow> np_all dc
                             | All \<Rightarrow> np_all lc \<and> np_all dc),
                benchmark_check :=
                  (if benchmark_flag s then np_all (map (map (\<lambda>d. \<bar>d\<bar> = Fin 0)) dp)
                   else benchmark_check l)\<rparr>)"
    using True by (simp only: update_checks_def m1 bind_err_Inr st dpe ptse lce dce if_True)
  have "butlast (loss_ts s) ! 0 = loss_ts s ! 0"
    using rl I2 by (simp add: nth_butlast rect_def)
  then have "\<not> (butlast (loss_ts s) ! 0 ! 0 < pts ! 0 ! 0)" using nan by simp
  then have "\<not> np_all lc"
    unfolding lc_def using conjunct2[OF bp] J2 by (intro np_all_tabulate2_False) simp_all
  with la la' ef show ?thesis by (cases "effect s") auto
qed

lemma switching_break_needs_ts:
  assumes "switching s l = Inr (True, s', l')" "benchmark_flag s \<or> const_Delta_t s"
  shows "ts_check l"
  using assms
  by (auto simp: switching_def bind_err_def Let_def split: if_splits option.splits sum.splits)

lemma switching_ts:
  assumes "switching s l = Inr (brk, s', l')"
  shows "ts_check l' = ts_check l"
proof -
  have r: "\<And>sx lx. rebuild sx (l\<lparr>t_part := 0\<rparr>) = Inr lx \<Longrightarrow> ts_check lx = ts_check l"
  proof -
    fix sx lx assume "rebuild sx (l\<lparr>t_part := 0\<rparr>) = Inr lx"
    from rebuild_result(1)[OF this]
    have "lx = l\<lparr>t_part := 0, loss_AB := loss_AB lx, diff_AB := diff_AB lx\<rparr>" by simp
    then obtain x y where "lx = l\<lparr>t_part := 0, loss_AB := x, diff_AB := y\<rparr>" by blast
    then show "ts_check lx = ts_check l" by simp
  qed
  from switching_cases[OF assms] r show ?thesis by auto
qed

lemma advance_ts:
  assumes "advance spsolve Q_in s l = Inr (s', l')"
  shows "ts_check l' = ts_check l"
  using advance_result[OF assms] by auto

lemma stuck_iter:
  assumes P: "stuck Q_in s l" and so: "solver_ok spsolve"
    and it: "cn_iter spsolve Q_in s l = Inr (brk, s1, l1)"
  shows "\<not> brk \<and> stuck Q_in s1 l1"
proof -
  from P have wf: "wf_state s l" and rQ: "rect (r_bins s) (E_bins s) Q_in"
    and nc: "\<not> convergence_check l" and nts: "\<not> ts_check l"
    and md: "benchmark_flag s \<or> const_Delta_t s" and ef: "effect s \<noteq> Diffusion"
    and nan: "loss_ts s ! 0 ! 0 = NaN" by (simp_all add: stuck_def)
  from cn_iter_cases[OF it] obtain la sb lb where
    la: "update_checks s l = Inr la" and sw: "switching s la = Inr (brk, sb, lb)"
    and r: "if brk then s1 = sb \<and> l1 = lb else advance spsolve Q_in sb lb = Inr (s1, l1)"
    by blast
  from update_checks_nan[OF wf la nan ef nts] have ntsa: "\<not> ts_check la" .
  have nb: "\<not> brk"
  proof
    assume brk
    with sw have "switching s la = Inr (True, sb, lb)" by simp
    from switching_break_needs_ts[OF this md] ntsa show False by simp
  qed
  with r have adv: "advance spsolve Q_in sb lb = Inr (s1, l1)" by simp
  from cn_iter_ok[OF wf rQ so] it have wf1: "wf_state s1 l1" "rect (r_bins s1) (E_bins s1) Q_in"
    by auto
  from cn_iter_scheme[OF it] obtain d sn where s1: "s1 = s\<lparr>Delta_t := d, snapshots := sn\<rparr>"
    by blast
  have c1: "\<not> convergence_check l1"
    using advance_keeps(10)[OF adv] switching_keeps(10)[OF sw nb] update_checks_keeps(5)[OF la] nc
    by simp
  have t1: "\<not> ts_check l1"
    using advance_ts[OF adv] switching_ts[OF sw] ntsa by simp
  show ?thesis
    using nb wf1 c1 t1 md ef nan unfolding stuck_def s1 by simp
qed

lemma cn_loop_stuck:
  assumes lp: "cn_loop spsolve Q_in s l = Inr (s', l')" and P: "stuck Q_in s l"
    and so: "solver_ok spsolve" and t0: "t l \<le> max_t"
  shows "\<not> convergence_check l' \<and> t l' = max_t"
proof -
  have "stuck Q_in s' l'"
  proof (rule cn_loop_invariant[OF lp, where P = "stuck Q_in" and R = "stuck Q_in"])
    show "stuck Q_in s l" by fact
  next
    fix x y brk s1 l1
    assume "stuck Q_in x y" "cn_iter spsolve Q_in x y = Inr (brk, s1, l1)"
    from stuck_iter[OF this(1) so this(2)]
    show "if brk then stuck Q_in s1 l1 else stuck Q_in s1 l1" by simp
  next
    fix x y assume "stuck Q_in x y"
    then show "stuck Q_in x y" .
  qed
  then have "\<not> convergence_check l'" by (simp add: stuck_def)
  with cn_loop_exit[OF lp t0] show ?thesis by simp
qed


lemma cn_init_ts:
  assumes "cn_init s Q_in = Inr (s0, l0)"
  shows "\<not> ts_check l0"
  using assms
  by (auto simp: cn_init_def bind_err_def split: sum.splits if_splits)

lemma cn_2D_stuck:
  assumes cn: "cn_2D spsolve s Q_in = Inr (res, s', l')"
    and wf: "wf_scheme s" and rQ: "rect (r_bins s) (E_bins s) Q_in" and so: "solver_ok spsolve"
    and md: "benchmark_flag s \<or> const_Delta_t s" and ef: "effect s \<noteq> Diffusion"
    and nan: "loss_ts s ! 0 ! 0 = NaN"
  shows "\<not> convergence_check l' \<and> t l' = max_t"
proof -
  from cn_2D_result[OF cn] obtain s0 l0 s1 where i: "cn_init s Q_in = Inr (s0, l0)"
    and lp: "cn_loop spsolve Q_in s0 l0 = Inr (s1, l')" by blast
  from cn_init_ok[OF wf rQ] i have wf0: "wf_state s0 l0" and bins: "r_bins s0 = r_bins s"
    "E_bins s0 = E_bins s" by auto
  from cn_init_result(5)[OF i] obtain sn where s0: "s0 = s \<or> s0 = s\<lparr>snapshots := sn\<rparr>"
    by (auto split: if_splits)
  then have same: "benchmark_flag s0 = benchmark_flag s" "const_Delta_t s0 = const_Delta_t s"
    "effect s0 = effect s" "loss_ts s0 = loss_ts s" by auto
  have "stuck Q_in s0 l0"
    unfolding stuck_def same bins
    using wf0 rQ cn_init_result(2)[OF i] cn_init_ts[OF i] md ef nan by simp
  from cn_loop_stuck[OF lp this so] cn_init_result(1)[OF i] show ?thesis by simp
qed

lemma solveElectrons_stuck:
  assumes va: "valid_args a" and so: "solver_ok spsolve"
    and md: "benchmark_flag s \<or> const_Delta_t s"
    and ne0: "ne_sample a ! 0 = Fin 0"
    and r: "solveElectrons spsolve u s a = Inr (res, s', l')"
  shows "\<not> convergence_check l' \<and> t l' = max_t"
proof -
  let ?s0 = "setup_grid u s a"
  let ?I = "length (r_sample a)" and ?J = "length (E_sample a)"
  from va have IJ: "2 \<le> ?I" "2 \<le> ?J" by (simp_all add: valid_args_def)
  then have pos: "0 < ?I" "0 < ?J" by auto
  from solveElectrons_result[OF r] obtain s1 s2 psi_end where
    f: "setup_fields u ?s0 a = Inr s1" and st: "setup_steps u s1 a = Inr s2"
    and cn: "cn_2D spsolve s2 (Q s2) = Inr (psi_end, s', l')" by blast
  from setup_fields_ok[OF va, of ?s0 u] f obtain q' d' dd' where
    s1: "s1 = ?s0\<lparr>Q := q', D := d', dDdr := dd',
       b := tabulate2 (r_bins ?s0) (E_bins ?s0)
              (\<lambda>i j. b_cell (constants ?s0) (b_sample a ! i) (ne_sample a ! i) (E_sample a ! j))\<rparr>"
    and rr: "rect ?I ?J q'" "rect ?I ?J d'" "rect ?I ?J dd'"
    by auto
  have sel1: "r_bins s1 = ?I" "E_bins s1 = ?J" "length (r_grid s1) = ?I"
    "length (E_grid s1) = ?J" "length (logr_grid s1) = ?I" "length (logE_grid s1) = ?J"
    "Q s1 = q'" "D s1 = d'" "dDdr s1 = dd'" "rect ?I ?J (b s1)"
    "benchmark_flag s1 = benchmark_flag s" "const_Delta_t s1 = const_Delta_t s"
    "effect s1 = (if lossOnly a then Loss else All)"
    by (simp_all add: s1)
  have b00: "b s1 ! 0 ! 0 = NaN"
  proof -
    have "b s1 ! 0 ! 0 = b_cell (constants ?s0) (b_sample a ! 0) (Fin 0) (E_sample a ! 0)"
      using pos ne0 by (simp add: s1)
    also have "\<dots> = NaN" by (rule b_cell_no_gas[of _ "613 / 10 ^ 18"]) simp
    finally show ?thesis .
  qed
  from setup_steps_ok[of s1 u a] sel1 IJ rr st have wf: "wf_scheme s2" by auto
  from setup_steps_result[OF st] obtain lts dts lmin dmin where
    l: "ew2 (\<lambda>e bc. e / bc) [E_grid s1] (b s1) = Inr lts"
    and s2: "s2 = steps_state u s1 a lts dts lmin dmin" by blast
  have "lts = tabulate2 ?I ?J (\<lambda>i j. E_grid s1 ! j / b s1 ! i ! j)"
    using ew2_row[OF sel1(10) pos(1) sel1(4), of "\<lambda>e bc. e / bc"] l by simp
  then have "lts ! 0 ! 0 = E_grid s1 ! 0 / b s1 ! 0 ! 0" using pos by simp
  with b00 have nan: "loss_ts s2 ! 0 ! 0 = NaN"
    unfolding s2 steps_state_sel by (cases "E_grid s1 ! 0") simp_all
  have rQ: "rect (r_bins s2) (E_bins s2) (Q s2)"
    unfolding s2 steps_state_sel using sel1 rr by simp
  have md2: "benchmark_flag s2 \<or> const_Delta_t s2"
    unfolding s2 steps_state_sel sel1 using md by simp
  have ef: "effect s2 \<noteq> Diffusion" unfolding s2 steps_state_sel sel1 by simp
  from cn_2D_stuck[OF cn wf rQ so md2 ef nan] show ?thesis .
qed

subsection \<open>Stencil coefficients\<close>

lemma ln10_gt_1: "1 < ln (10::real)"
proof -
  have "exp (1::real) \<le> 3" by (rule exp_le)
  then have "exp (1::real) < 10" by simp
  then show ?thesis by (metis exp_gt_zero ln_less_cancel_iff ln_exp zero_less_numeral)
qed

lemma ex_radial_sel:
  "Delta_t ex_radial = Fin 1" "Delta_r ex_radial = Fin 1" "r0 ex_radial = Fin 1"
  "D ex_radial = [[Fin 1], [Fin 1]]" "dDdr ex_radial = [[Fin 0], [Fin 0]]"
  "logr_grid ex_radial = [Fin 0, Fin 1]"
  by (simp_all add: ex_radial_def init_scheme_def)

lemma r_prefactor_ex:
  "r_prefactor ex_radial 0 = Fin (1 / ln 10)"
  "r_prefactor ex_radial (Suc 0) = Fin (1 / (10 * ln 10))"
  using ln10_gt_1
  by (simp_all add: r_prefactor_def ex_radial_sel powr_minus inverse_eq_divide)

lemma r_alpha1_ex: "r_alpha1 ex_radial [1] 0 = Inr [Fin (1 / (200 * (ln 10)\<^sup>2))]"
  using ln10_gt_1
  by (simp add: r_alpha1_def r_ok_def in2_def at2_def r_prefactor_ex ex_radial_sel
      power2_eq_square)

lemma r_alpha1_spec_ex:
  "r_alpha1_spec ex_radial 1 0 = Fin ((1 - ln 10 / 2) / (100 * (ln 10)\<^sup>2))"
  using ln10_gt_1
  by (simp add: r_alpha1_spec_def at2_def r_prefactor_ex ex_radial_sel np_sub_def
      power2_eq_square)

lemma r_alpha3_ex:
  "r_alpha3 ex_radial [0, 1] 0 = Inr [Fin (4 / (ln 10)\<^sup>2), Fin (3 / (200 * (ln 10)\<^sup>2))]"
  using ln10_gt_1
  by (simp add: r_alpha3_def r_ok_def in2_def at2_def r_prefactor_ex ex_radial_sel
      power2_eq_square)

lemma r_alpha3_spec_ex:
  "r_alpha3_spec ex_radial 1 0 = Fin ((ln 10 / 2 + 1) / (100 * (ln 10)\<^sup>2))"
  using ln10_gt_1
  by (simp add: r_alpha3_spec_def at2_def r_prefactor_ex ex_radial_sel np_sub_def
      power2_eq_square)

text \<open>
  C1.  The specification gives the drift term of the radial coefficients the factor
  \<open>ln 10\<close>.  The code multiplies \<open>D\<close> by \<^verbatim>\<open>np.log10(10)\<close>, which is 1: at radius index 1 of
  \<open>ex_radial\<close> it yields \<open>1 / (200 ln\<^sup>2 10)\<close> and \<open>3 / (200 ln\<^sup>2 10)\<close>, where the formulas
  of the specification give \<open>(1 - ln 10 / 2) / (100 ln\<^sup>2 10)\<close> and
  \<open>(ln 10 / 2 + 1) / (100 ln\<^sup>2 10)\<close>.
\<close>

theorem r_alpha_log10_of_10:
  "r_alpha1 ex_radial [1] 0 = Inr [Fin (1 / (200 * (ln 10)\<^sup>2))]
   \<and> r_alpha1_spec ex_radial 1 0 = Fin ((1 - ln 10 / 2) / (100 * (ln 10)\<^sup>2))
   \<and> r_alpha3 ex_radial [0, 1] 0 = Inr [Fin (4 / (ln 10)\<^sup>2), Fin (3 / (200 * (ln 10)\<^sup>2))]
   \<and> r_alpha3_spec ex_radial 1 0 = Fin ((ln 10 / 2 + 1) / (100 * (ln 10)\<^sup>2))
   \<and> r_alpha1 ex_radial [1] 0 \<noteq> Inr [r_alpha1_spec ex_radial 1 0]
   \<and> r_alpha3 ex_radial [0, 1] 0 \<noteq> Inr [Fin (4 / (ln 10)\<^sup>2), r_alpha3_spec ex_radial 1 0]"
  using ln10_gt_1
  unfolding r_alpha1_ex r_alpha1_spec_ex r_alpha3_ex r_alpha3_spec_ex
  by (simp add: field_simps)

theorem r_alpha_log10_of_10_witness:
  "r_alpha1 ex_radial [1] 0 \<noteq> Inr [r_alpha1_spec ex_radial 1 0]"
  using r_alpha_log10_of_10 by blast

lemma ex_energy_sel:
  "Delta_t ex_energy = Fin 1" "Delta_E ex_energy = Fin 1" "E0 ex_energy = Fin 1"
  "b ex_energy = [[Fin 1, Fin 2, Fin 3]]" "r_bins ex_energy = 1" "E_bins ex_energy = 3"
  "logE_grid ex_energy = [Fin 0, Fin 1, Fin 2]"
  by (simp_all add: ex_energy_def init_scheme_def)

lemma E_prefactor_ex:
  "E_prefactor ex_energy 0 = Fin (1 / ln 10)"
  "E_prefactor ex_energy (Suc 0) = Fin (1 / (10 * ln 10))"
  "E_prefactor ex_energy (Suc (Suc 0)) = Fin (1 / (100 * ln 10))"
  "E_prefactor ex_energy 2 = Fin (1 / (100 * ln 10))"
  using ln10_gt_1
  by (simp_all add: E_prefactor_def ex_energy_sel powr_minus inverse_eq_divide)

lemma E_alpha3_ex:
  "E_alpha3 ex_energy 0 (butlast [0..<3]) = Inr [Fin (1 / (5 * ln 10)), Fin (1 / (5 * ln 10))]"
  using ln10_gt_1
  by (simp add: E_alpha3_def E_ok_def in2_def at2_def E_prefactor_ex ex_energy_sel upt_rec)

lemma E_alpha2_ex:
  "E_alpha2 ex_energy 0 [0..<3] =
     Inr [Fin (1 / ln 10), Fin (1 / (5 * ln 10)), Fin (3 / (100 * ln 10))]"
  using ln10_gt_1
  by (simp add: E_alpha2_def E_ok_def in2_def at2_def E_prefactor_ex ex_energy_sel upt_rec)

lemma E_alpha1_ex: "E_alpha1 ex_energy 0 (tl [0..<3]) = Inr [Fin 0, Fin 0]"
  by (simp add: E_alpha1_def numeral_2_eq_2)

lemma loss_block_ex:
  "loss_block ex_energy
     (replicate 3 (Fin 0), replicate 3 (Fin 0), replicate 3 (Fin 0), replicate 3 (Fin 0)) 0 =
   Inr ([Fin (- 1 / (10 * ln 10)), Fin (- 1 / (10 * ln 10)), Fin 0],
        [Fin (1 + 1 / (2 * ln 10)), Fin (1 + 1 / (10 * ln 10)), Fin (1 + 3 / (200 * ln 10))],
        [Fin (1 - 1 / (2 * ln 10)), Fin (1 - 1 / (10 * ln 10)), Fin (1 - 3 / (200 * ln 10))],
        [Fin 0, Fin 0, Fin 0])"
  unfolding loss_block_def ex_energy_sel Let_def prod.case E_alpha3_ex E_alpha2_ex E_alpha1_ex
  by (simp add: bind_err_def set_slice_def Let_def np_sub_def numeral_3_eq_3)

lemma spmatrices_loss_ex:
  "spmatrices_loss ex_energy = Inr
     (\<lparr>sp_dim = 3, sp_lower = [Fin 0, Fin 0],
       sp_main = [Fin (1 + 1 / (2 * ln 10)), Fin (1 + 1 / (10 * ln 10)),
                  Fin (1 + 3 / (200 * ln 10))],
       sp_upper = [Fin (- 1 / (10 * ln 10)), Fin (- 1 / (10 * ln 10))]\<rparr>,
      \<lparr>sp_dim = 3, sp_lower = [Fin 0, Fin 0],
       sp_main = [Fin (1 - 1 / (2 * ln 10)), Fin (1 - 1 / (10 * ln 10)),
                  Fin (1 - 3 / (200 * ln 10))],
       sp_upper = [Fin (1 / (10 * ln 10)), Fin (1 / (10 * ln 10))]\<rparr>)"
proof -
  have u: "[0..<1] = [0::nat]" by simp
  show ?thesis
    unfolding spmatrices_loss_def ex_energy_sel Let_def u fold_err.simps mult_1 loss_block_ex
    by (simp add: assemble_def sparse_diags_def fit_diag_def bind_err_def)
qed

lemma E_alpha3_spec_ex: "E_alpha3_spec ex_energy 0 1 = Fin (3 / (100 * ln 10))"
  using ln10_gt_1
  by (simp add: E_alpha3_spec_def ex_energy_sel E_prefactor_ex at2_def)

text \<open>
  C2.  With three energies, the specification puts \<open>- \<alpha>3_E(0,1) / 2\<close> with
  \<open>\<alpha>3_E(0,1) = \<Delta>t \<eta>\<^sub>2 b\<^sub>0\<^sub>2 / \<Delta>\<epsilon> = 3 / (100 ln 10)\<close> at position 1 of the super-diagonal of
  \<open>A_E\<close>, and its opposite in \<open>B_E\<close>.  \<^verbatim>\<open>spmatrices_loss\<close> passes the indices \<open>[0, 1]\<close> to
  \<^verbatim>\<open>E_alpha3\<close>, which fills the last position from index 1 itself:
  the matrices hold \<open>\<mp> 1 / (10 ln 10)\<close>, that is \<open>\<Delta>t \<eta>\<^sub>1 b\<^sub>0\<^sub>1 / \<Delta>\<epsilon>\<close> halved.
\<close>

theorem E_alpha3_last_passed_index:
  "(case spmatrices_loss ex_energy of
      Inl e \<Rightarrow> False
    | Inr (A_E, B_E) \<Rightarrow>
        sp_upper A_E = [Fin (- 1 / (10 * ln 10)), Fin (- 1 / (10 * ln 10))]
        \<and> sp_upper B_E = [Fin (1 / (10 * ln 10)), Fin (1 / (10 * ln 10))]
        \<and> sp_upper A_E ! 1 \<noteq> (- E_alpha3_spec ex_energy 0 1) / Fin 2
        \<and> sp_upper B_E ! 1 \<noteq> E_alpha3_spec ex_energy 0 1 / Fin 2)
   \<and> E_alpha3_spec ex_energy 0 1 = Fin (3 / (100 * ln 10))"
  using ln10_gt_1
  unfolding spmatrices_loss_ex E_alpha3_spec_ex
  by (simp add: field_simps)

theorem E_alpha3_last_passed_index_witness:
  "E_alpha3_spec ex_energy 0 1 = Fin (3 / (100 * ln 10))"
  using E_alpha3_last_passed_index by blast

subsection \<open>Time-step switching\<close>





subsection \<open>Shape, boundary and termination\<close>

text \<open>
  C5.  Whenever \<^verbatim>\<open>solveElectrons\<close> returns, the array it returns has one row per energy
  and one cell per radius in each row (the transpose of the internal layout), and in
  every row the cell of the outermost radius is zero.
\<close>

theorem solveElectrons_shape_boundary:
  assumes "solveElectrons spsolve u s a = Inr (res, s', l')"
  shows "length res = length (E_sample a)
     \<and> (\<forall>row \<in> set res. length row = length (r_sample a))
     \<and> (\<forall>j < length (E_sample a). res ! j ! (length (r_sample a) - 1) = Fin 0)"
proof -
  let ?I = "length (r_sample a)" and ?J = "length (E_sample a)"
  from solveElectrons_result[OF assms] obtain s1 s2 psi_end where
    f: "setup_fields u (setup_grid u s a) a = Inr s1" and st: "setup_steps u s1 a = Inr s2"
    and cn: "cn_2D spsolve s2 (Q s2) = Inr (psi_end, s', l')" and res: "res = np_transpose psi_end"
    by blast
  from cn_2D_boundary[OF cn] solveElectrons_bins(1,2)[OF f st]
  have I: "0 < ?I" and r: "rect ?I ?J psi_end"
    and z: "\<forall>j < ?J. psi_end ! (?I - 1) ! j = Fin 0"
    by (simp_all add: zero_boundary_def)
  from rect_np_transpose[OF r I] res have rt: "rect ?J ?I res" by simp
  have "res ! j ! (?I - 1) = Fin 0" if "j < ?J" for j
    using np_transpose_nth[OF r _ that, of "?I - 1"] I z that res by simp
  with rt show ?thesis by (simp add: rect_def)
qed

theorem solveElectrons_shape_boundary_witness:
  "case solveElectrons thomas ex_units (init_scheme False False False) ex_args of
     Inl e \<Rightarrow> False
   | Inr (res, s', l') \<Rightarrow>
       length res = 2 \<and> length (res ! 0) = 2 \<and> length (res ! 1) = 2
       \<and> res ! 0 ! 1 = Fin 0 \<and> res ! 1 ! 1 = Fin 0"
proof -
  from solveElectrons_ok[OF valid_ex_args solver_ok_thomas] obtain res s' l' where
    r: "solveElectrons thomas ex_units (init_scheme False False False) ex_args = Inr (res, s', l')"
    by blast
  from solveElectrons_shape_boundary[OF r]
  have "length res = 2" "\<forall>row \<in> set res. length row = 2"
    "\<forall>j < 2. res ! j ! 1 = Fin 0"
    by (simp_all add: ex_args_def)
  then have "length res = 2 \<and> length (res ! 0) = 2 \<and> length (res ! 1) = 2
       \<and> res ! 0 ! 1 = Fin 0 \<and> res ! 1 ! 1 = Fin 0"
    by simp
  with r show ?thesis by simp
qed

text \<open>
  C6.  For arguments of valid shapes, in every mode (any flags of the object, loss only or
  not) and with any solver that returns vectors of the right length, the call returns:
  the loop ends with the iteration counter at most \<open>10\<^sup>4\<close>, the array returned is the last
  iterate, and either a convergence criterion has fired or the counter has reached
  \<open>10\<^sup>4\<close>.
\<close>

theorem solveElectrons_terminates:
  assumes "valid_args a" and "solver_ok spsolve"
  shows "\<exists>res s' l'. solveElectrons spsolve u s a = Inr (res, s', l')
     \<and> t l' \<le> 10 ^ 4 \<and> res = np_transpose (psi l')
     \<and> (convergence_check l' \<or> t l' = 10 ^ 4)"
proof -
  from solveElectrons_ok[OF assms] obtain res s' l' where
    r: "solveElectrons spsolve u s a = Inr (res, s', l')" by blast
  from solveElectrons_result[OF r] obtain s2 psi_end where
    cn: "cn_2D spsolve s2 (Q s2) = Inr (psi_end, s', l')" and res: "res = np_transpose psi_end"
    by blast
  from cn_2D_result[OF cn] have "psi_end = psi l'" by blast
  with cn_2D_t(1)[OF cn] cn_2D_exit[OF cn] res r show ?thesis
    by (auto simp: max_t_def)
qed

theorem solveElectrons_terminates_witness:
  "\<exists>res s' l'. solveElectrons thomas ex_units (init_scheme True False True) ex_args
      = Inr (res, s', l') \<and> t l' \<le> 10 ^ 4"
  using solveElectrons_terminates[OF valid_ex_args solver_ok_thomas,
      of ex_units "init_scheme True False True"]
  by blast

subsection \<open>Snapshots\<close>

text \<open>
  C7, as stated, fails: the list of snapshots is created with a first snapshot before the
  loop, so at return it has one entry more than the loop has counted iterations (\<^verbatim>\<open>t\<close>).
  In this run (constant time step, no thermal gas) no criterion ever fires, all \<open>10\<^sup>4\<close>
  iterations are completed, and the list has \<open>10\<^sup>4 + 1\<close> entries.
\<close>

theorem snapshots_length_counterexample:
  "case solveElectrons thomas ex_units (init_scheme False True True) ex_args of
     Inl e \<Rightarrow> False
   | Inr (res, s', l') \<Rightarrow>
       \<not> convergence_check l' \<and> t l' = 10 ^ 4
       \<and> (case snapshots s' of
            None \<Rightarrow> False
          | Some sn \<Rightarrow> length sn = 10 ^ 4 + 1 \<and> length sn \<noteq> t l')"
proof -
  from solveElectrons_ok[OF valid_ex_args solver_ok_thomas] obtain res s' l' where
    r: "solveElectrons thomas ex_units (init_scheme False True True) ex_args = Inr (res, s', l')"
    by blast
  from solveElectrons_result[OF r] obtain s1 s2 psi_end where
    f: "setup_fields ex_units (setup_grid ex_units (init_scheme False True True) ex_args) ex_args
          = Inr s1"
    and st: "setup_steps ex_units s1 ex_args = Inr s2"
    and cn: "cn_2D thomas s2 (Q s2) = Inr (psi_end, s', l')" by blast
  from solveElectrons_bins(4)[OF f st] have "animation_flag s2" by (simp add: init_scheme_def)
  from cn_2D_snapshots[OF this cn] obtain sn where
    sn: "snapshots s' = Some sn" "length sn = t l' + 1" by blast
  have "benchmark_flag (init_scheme False True True) \<or> const_Delta_t (init_scheme False True True)"
    by (simp add: init_scheme_def)
  from solveElectrons_stuck[OF valid_ex_args solver_ok_thomas this _ r]
  have "\<not> convergence_check l' \<and> t l' = max_t" by (simp add: ex_args_def)
  with sn r show ?thesis by (simp add: max_t_def)
qed

text \<open>
  C7, amended.  With the animation flag set, the list of snapshots at return has \<open>t + 1\<close>
  entries, \<open>t\<close> being the number of iterations counted: the first is the interior of the
  initial \<open>\<psi>\<close> with the initial \<open>\<Delta>t\<close>, every completed iteration appends the interior rows
  of its \<open>\<psi>\<close> with the \<open>\<Delta>t\<close> in force, and the last entry is the interior of the returned
  \<open>\<psi>\<close> with the final \<open>\<Delta>t\<close>.
\<close>

theorem snapshots_amended:
  assumes "animation_flag s" and "cn_2D spsolve s Q_in = Inr (res, s', l')"
  shows "(\<exists>sn psi0. snapshots s' = Some sn \<and> length sn = t l' + 1
            \<and> last sn = (butlast res, Delta_t s')
            \<and> zero_last_row Q_in = Inr psi0 \<and> hd sn = (butlast psi0, Delta_t s))
     \<and> (\<forall>x y x' y' sn. animation_flag x \<and> snapshots x = Some sn
            \<and> advance spsolve Q_in x y = Inr (x', y')
          \<longrightarrow> t y' = t y + 1
              \<and> snapshots x' = Some (sn @ [(butlast (psi y'), Delta_t x')]))"
  using cn_2D_snapshots[OF assms] advance_snapshot advance_keeps(1) by blast

lemma ex_cn_sel:
  "r_bins ex_cn = 2" "E_bins ex_cn = 2" "Q ex_cn = [[Fin 1, Fin 1], [Fin 1, Fin 1]]"
  "animation_flag ex_cn" "effect ex_cn = All" "Delta_t ex_cn = Fin 10"
  by (simp_all add: ex_cn_def ex_switch_def init_scheme_def)

lemma wf_ex_cn: "wf_scheme ex_cn"
  by (simp add: wf_scheme_def rect_def ex_cn_def ex_switch_def init_scheme_def)

lemma rect_Q_ex_cn: "rect (r_bins ex_cn) (E_bins ex_cn) (Q ex_cn)"
  by (simp add: ex_cn_sel rect_def)

theorem snapshots_amended_witness:
  "\<exists>res s' l' sn. cn_2D thomas ex_cn (Q ex_cn) = Inr (res, s', l')
     \<and> snapshots s' = Some sn \<and> length sn = t l' + 1
     \<and> last sn = (butlast res, Delta_t s') \<and> hd sn = ([[Fin 1, Fin 1]], Fin 10)"
proof -
  from cn_2D_ok[OF wf_ex_cn rect_Q_ex_cn solver_ok_thomas] obtain res s' l' where
    r: "cn_2D thomas ex_cn (Q ex_cn) = Inr (res, s', l')" by blast
  have z: "zero_last_row (Q ex_cn) = Inr [[Fin 1, Fin 1], [Fin 0, Fin 0]]"
    by (simp add: zero_last_row_def ex_cn_sel)
  from snapshots_amended[OF ex_cn_sel(4) r] z r show ?thesis
    by (auto simp: ex_cn_sel)
qed

subsection \<open>Non-finite coefficients and the benchmark mode\<close>

lemma solveElectrons_b:
  assumes va: "valid_args a" and r: "solveElectrons spsolve u s a = Inr (res, s', l')"
    and i: "i < length (r_sample a)" and j: "j < length (E_sample a)"
  shows "b s' ! i ! j =
     b_cell (constants (setup_grid u s a)) (b_sample a ! i) (ne_sample a ! i) (E_sample a ! j)"
proof -
  from solveElectrons_result[OF r] obtain s1 s2 psi_end where
    f: "setup_fields u (setup_grid u s a) a = Inr s1" and st: "setup_steps u s1 a = Inr s2"
    and cn: "cn_2D spsolve s2 (Q s2) = Inr (psi_end, s', l')" by blast
  from cn_2D_scheme[OF cn] have "b s' = b s2" by auto
  also have "b s2 = b s1" by (rule solveElectrons_bins(6)[OF f st])
  finally have e: "b s' = b s1" .
  from setup_fields_ok[OF va, of "setup_grid u s a" u] f
  have "b s1 = tabulate2 (length (r_sample a)) (length (E_sample a))
      (\<lambda>i j. b_cell (constants (setup_grid u s a)) (b_sample a ! i) (ne_sample a ! i)
                (E_sample a ! j))"
    by auto
  with e i j show ?thesis by simp
qed

text \<open>
  C9, as stated, fails.  In \<open>ex_args\<close> the gas density is zero, so the Coulomb term of \<^verbatim>\<open>set_b\<close>
  is \<open>0 \<cdot> \<infinity>\<close> and the loss rate is NaN; the call returns an array all the same.
\<close>

theorem nonfinite_b_counterexample:
  "case solveElectrons thomas ex_units (init_scheme False False False) ex_args of
     Inl e \<Rightarrow> False
   | Inr (res, s', l') \<Rightarrow> b s' ! 0 ! 0 = NaN"
proof -
  from solveElectrons_ok[OF valid_ex_args solver_ok_thomas] obtain res s' l' where
    r: "solveElectrons thomas ex_units (init_scheme False False False) ex_args = Inr (res, s', l')"
    by blast
  have "b s' ! 0 ! 0 = NaN"
    unfolding solveElectrons_b[OF valid_ex_args r, of 0 0, simplified ex_args_def, simplified]
    by (rule b_cell_no_gas[of _ "613 / 10 ^ 18"]) (simp add: setup_grid_def)
  with r show ?thesis by simp
qed

lemma np_mul_nonfinite:
  "\<not> np_isfinite x \<Longrightarrow> \<not> np_isfinite (np_mul x y)"
  "\<not> np_isfinite y \<Longrightarrow> \<not> np_isfinite (np_mul x y)"
  by (cases x; cases y; simp add: signed_inf_def split: option.splits)+

lemma np_less_NaN [simp]: "\<not> np_less x NaN"
  by (cases x) simp_all

lemma set_D_nan:
  assumes r: "rect I J B_in" "rect I J E_in" "0 < I" and ij: "i < I" "j < J"
    and B: "B_in ! i ! j = NaN" and d: "delta s = Fin d" "d \<noteq> 2"
    and m: "set_D s B_in E_in = Inr m"
  shows "m ! i ! j = NaN"
proof -
  have "np_pow NaN (- (Fin 2 - Fin d)) = NaN" using d(2) by (simp add: np_sub_def)
  then show ?thesis
    using m ij B d(1) unfolding set_D_def Let_def ew2_rect[OF r] by auto
qed

lemma set_dDdr_nonfinite:
  assumes r: "rect I J B_in" "rect I J dB_in" "rect I J E_in" "0 < I" and ij: "i < I" "j < J"
    and bins: "r_bins s = I" "E_bins s = J"
    and B: "B_in ! i ! j = Fin 0" and d: "delta s = Fin d" "d < 3"
    and m: "set_dDdr s B_in dB_in E_in = Inr m"
  shows "\<not> np_isfinite (m ! i ! j)"
proof -
  have rpf: "rect I J (tabulate2 (r_bins s) (E_bins s) (\<lambda>i j. r_prefactor s i))"
    unfolding bins by simp
  have p: "np_pow (Fin 0) (- (Fin 2 - Fin d) - Fin 1) = PInf"
    using d(2) by (simp add: np_sub_def)
  have "\<not> np_isfinite (x * np_pow (Fin 0) (- (Fin 2 - Fin d) - Fin 1) * y * z)" for x y z
    unfolding p times_npfloat_def
    by (rule np_mul_nonfinite(1), rule np_mul_nonfinite(1), rule np_mul_nonfinite(2)) simp
  then show ?thesis
    using m ij B d(1) unfolding set_dDdr_def Let_def ew4_rect[OF rpf r]
    by (auto split: if_splits)
qed

lemma setup_fields_parts:
  assumes "setup_fields u s a = Inr s1"
  shows "\<exists>Q' D' dD' b'.
     set_D s (outer (b_sample a) (ones (E_bins s))) (outer (ones (r_bins s)) (E_grid s)) = Inr D'
     \<and> set_dDdr s (outer (b_sample a) (ones (E_bins s)))
          (outer (map (\<lambda>x. x * per_Mpc_to_per_cm u) (dBdr_sample a)) (ones (E_bins s)))
          (outer (ones (r_bins s)) (E_grid s)) = Inr dD'
     \<and> s1 = s\<lparr>Q := Q', D := D', dDdr := dD', b := b'\<rparr>"
  using assms
  by (auto simp: setup_fields_def bind_err_def Let_def split: sum.splits if_splits)

lemma solveElectrons_D:
  assumes va: "valid_args a" and r: "solveElectrons spsolve u s a = Inr (res, s', l')"
    and i: "i < length (r_sample a)" and j: "j < length (E_sample a)"
  shows "b_sample a ! i = NaN \<Longrightarrow> delta_arg a = Fin d \<Longrightarrow> d \<noteq> 2 \<Longrightarrow> D s' ! i ! j = NaN"
    and "b_sample a ! i = Fin 0 \<Longrightarrow> delta_arg a = Fin d \<Longrightarrow> d < 3
         \<Longrightarrow> \<not> np_isfinite (dDdr s' ! i ! j)"
proof -
  let ?s0 = "setup_grid u s a"
  let ?I = "length (r_sample a)" and ?J = "length (E_sample a)"
  let ?dB = "map (\<lambda>x. x * per_Mpc_to_per_cm u) (dBdr_sample a)"
  let ?Et = "outer (ones ?I) (E_sample a)" and ?Bt = "outer (b_sample a) (ones ?J)"
  let ?dt = "outer ?dB (ones ?J)"
  from va have I: "0 < ?I"
    and lens: "length (b_sample a) = ?I" "length (dBdr_sample a) = ?I"
    by (auto simp: valid_args_def)
  from solveElectrons_result[OF r] obtain s1 s2 psi_end where
    f: "setup_fields u ?s0 a = Inr s1" and st: "setup_steps u s1 a = Inr s2"
    and cn: "cn_2D spsolve s2 (Q s2) = Inr (psi_end, s', l')" by blast
  from setup_fields_parts[OF f] obtain Q' D' dD' b' where
    D': "set_D ?s0 ?Bt ?Et = Inr D'" and dD': "set_dDdr ?s0 ?Bt ?dt ?Et = Inr dD'"
    and s1: "s1 = ?s0\<lparr>Q := Q', D := D', dDdr := dD', b := b'\<rparr>"
    by auto
  from setup_steps_result[OF st] obtain lts dts lmin dmin where
    s2: "s2 = steps_state u s1 a lts dts lmin dmin" by blast
  from cn_2D_scheme[OF cn] obtain dt sn e where
    s': "s' = s2\<lparr>Delta_t := dt, snapshots := sn, electrons := e\<rparr>" by blast
  have st': "D s' = D'" "dDdr s' = dD'"
    unfolding s' s2 by (simp_all add: steps_state_sel s1)
  have rE: "rect ?I ?J ?Et" by simp
  have rB: "rect ?I ?J ?Bt" using rect_ones_outer(2)[of "b_sample a" ?J] lens by simp
  have rd: "rect ?I ?J ?dt" using rect_ones_outer(2)[of ?dB ?J] lens by simp
  have Bij: "?Bt ! i ! j = b_sample a ! i"
    using i j lens by (simp add: ones_def)
  have dl: "delta ?s0 = delta_arg a" by (simp add: setup_grid_def Let_def)
  show "b_sample a ! i = NaN \<Longrightarrow> delta_arg a = Fin d \<Longrightarrow> d \<noteq> 2 \<Longrightarrow> D s' ! i ! j = NaN"
    unfolding st' using set_D_nan[OF rB rE I i j _ _ _ D'] Bij dl by simp
  show "b_sample a ! i = Fin 0 \<Longrightarrow> delta_arg a = Fin d \<Longrightarrow> d < 3
         \<Longrightarrow> \<not> np_isfinite (dDdr s' ! i ! j)"
    unfolding st' using set_dDdr_nonfinite[OF rB rd rE I i j _ _ _ _ _ dD'] Bij dl by simp
qed

lemma valid_ex_args_nonfinite: "valid_args ex_args_nonfinite"
  by (simp add: valid_args_def ex_args_nonfinite_def ex_args_def)

text \<open>
  C9, amended.  Non-finite entries of \<open>D\<close>, \<open>dDdr\<close> and \<open>b\<close> are not detected: for every
  input of valid shape, whatever the values, the call raises nothing, runs the iteration
  (at least once, at most \<open>10\<^sup>4\<close> times) and returns the last iterate.  The fields stored in
  the object are then non-finite wherever the input makes them so: the loss rate is NaN
  at every energy where the gas density is zero; the derivative of the diffusion
  coefficient is infinite or NaN where the magnetic field is zero (for \<open>\<delta> < 3\<close>); the
  diffusion coefficient is NaN where the magnetic field is NaN (for \<open>\<delta> \<noteq> 2\<close>).
\<close>

theorem solveElectrons_no_finiteness_check:
  assumes "valid_args a" and "solver_ok spsolve"
  shows "\<exists>res s' l'. solveElectrons spsolve u s a = Inr (res, s', l')
     \<and> 0 < t l' \<and> t l' \<le> 10 ^ 4 \<and> res = np_transpose (psi l')
     \<and> (\<forall>i < length (r_sample a). \<forall>j < length (E_sample a).
           (ne_sample a ! i = Fin 0 \<longrightarrow> b s' ! i ! j = NaN)
         \<and> (\<forall>d. b_sample a ! i = Fin 0 \<and> delta_arg a = Fin d \<and> d < 3
               \<longrightarrow> \<not> np_isfinite (dDdr s' ! i ! j))
         \<and> (\<forall>d. b_sample a ! i = NaN \<and> delta_arg a = Fin d \<and> d \<noteq> 2
               \<longrightarrow> D s' ! i ! j = NaN))"
proof -
  from solveElectrons_ok[OF assms] obtain res s' l' where
    r: "solveElectrons spsolve u s a = Inr (res, s', l')" by blast
  from solveElectrons_result[OF r] obtain s2 psi_end where
    cn: "cn_2D spsolve s2 (Q s2) = Inr (psi_end, s', l')" and res: "res = np_transpose psi_end"
    by blast
  from cn_2D_result[OF cn] have pe: "psi_end = psi l'" by blast
  have b: "b s' ! i ! j = NaN"
    if "i < length (r_sample a)" "j < length (E_sample a)" "ne_sample a ! i = Fin 0" for i j
    unfolding solveElectrons_b[OF assms(1) r that(1,2)] that(3)
    by (rule b_cell_no_gas[of _ "613 / 10 ^ 18"]) simp
  from cn_2D_t[OF cn] have t: "0 < t l'" "t l' \<le> 10 ^ 4" by (simp_all add: max_t_def)
  have "(\<forall>i < length (r_sample a). \<forall>j < length (E_sample a).
           (ne_sample a ! i = Fin 0 \<longrightarrow> b s' ! i ! j = NaN)
         \<and> (\<forall>d. b_sample a ! i = Fin 0 \<and> delta_arg a = Fin d \<and> d < 3
               \<longrightarrow> \<not> np_isfinite (dDdr s' ! i ! j))
         \<and> (\<forall>d. b_sample a ! i = NaN \<and> delta_arg a = Fin d \<and> d \<noteq> 2
               \<longrightarrow> D s' ! i ! j = NaN))"
    using b solveElectrons_D[OF assms(1) r] by blast
  with r t res pe show ?thesis by blast
qed

theorem solveElectrons_no_finiteness_check_witness:
  "\<exists>res s' l'. solveElectrons thomas ex_units (init_scheme False False False) ex_args_nonfinite
      = Inr (res, s', l') \<and> 0 < t l' \<and> b s' ! 1 ! 1 = NaN
      \<and> \<not> np_isfinite (dDdr s' ! 0 ! 1) \<and> D s' ! 1 ! 0 = NaN"
proof -
  from solveElectrons_no_finiteness_check[OF valid_ex_args_nonfinite solver_ok_thomas,
      of ex_units "init_scheme False False False"]
  obtain res s' l' where
    r: "solveElectrons thomas ex_units (init_scheme False False False) ex_args_nonfinite
          = Inr (res, s', l')" and t: "0 < t l'"
    and a: "\<forall>i < length (r_sample ex_args_nonfinite). \<forall>j < length (E_sample ex_args_nonfinite).
           (ne_sample ex_args_nonfinite ! i = Fin 0 \<longrightarrow> b s' ! i ! j = NaN)
         \<and> (\<forall>d. b_sample ex_args_nonfinite ! i = Fin 0 \<and> delta_arg ex_args_nonfinite = Fin d
                \<and> d < 3 \<longrightarrow> \<not> np_isfinite (dDdr s' ! i ! j))
         \<and> (\<forall>d. b_sample ex_args_nonfinite ! i = NaN \<and> delta_arg ex_args_nonfinite = Fin d
                \<and> d \<noteq> 2 \<longrightarrow> D s' ! i ! j = NaN)"
    by blast
  have sel: "length (r_sample ex_args_nonfinite) = 2" "length (E_sample ex_args_nonfinite) = 2"
    "ne_sample ex_args_nonfinite ! 1 = Fin 0" "b_sample ex_args_nonfinite ! 0 = Fin 0"
    "b_sample ex_args_nonfinite ! 1 = NaN" "delta_arg ex_args_nonfinite = Fin (1 / 3)"
    by (simp_all add: ex_args_nonfinite_def ex_args_def)
  have ij: "(0::nat) < 2" "(1::nat) < 2" by simp_all
  have d: "(1 / 3 :: real) < 3" "(1 / 3 :: real) \<noteq> 2" by simp_all
  from a ij(2) sel(1,2,3) have 1: "b s' ! 1 ! 1 = NaN" by metis
  from a ij sel(1,2,4,6) d(1) have 2: "\<not> np_isfinite (dDdr s' ! 0 ! 1)" by metis
  from a ij sel(1,2,5,6) d(2) have 3: "D s' ! 1 ! 0 = NaN" by metis
  from r t 1 2 3 show ?thesis by blast
qed

lemma cn_iter_benchmark:
  assumes "benchmark_flag s" "cn_iter spsolve Q_in s l = Inr (brk, s1, l1)"
  shows "benchmark_flag s1 \<and> Delta_t s1 = Delta_t s \<and> loss_AB l1 = loss_AB l
     \<and> diff_AB l1 = diff_AB l"
proof -
  from cn_iter_cases[OF assms(2)] obtain la sb lb where
    la: "update_checks s l = Inr la" and sw: "switching s la = Inr (brk, sb, lb)"
    and r: "if brk then s1 = sb \<and> l1 = lb else advance spsolve Q_in sb lb = Inr (s1, l1)"
    by blast
  from switching_cases[OF sw] assms(1) have sb: "sb = s"
    and lb: "lb = la \<or> lb = la\<lparr>convergence_check := True\<rparr>" by auto
  from lb update_checks_keeps(6,7)[OF la] have ab: "loss_AB lb = loss_AB l" "diff_AB lb = diff_AB l"
    by auto
  show ?thesis
  proof (cases brk)
    case True
    with r sb ab assms(1) show ?thesis by simp
  next
    case False
    with r have "advance spsolve Q_in sb lb = Inr (s1, l1)" by simp
    from advance_keeps(4,5,8,9)[OF this] sb ab assms(1) show ?thesis by simp
  qed
qed

lemma cn_loop_benchmark:
  assumes "cn_loop spsolve Q_in s l = Inr (s', l')" "benchmark_flag s"
  shows "Delta_t s' = Delta_t s \<and> loss_AB l' = loss_AB l \<and> diff_AB l' = diff_AB l"
proof (rule cn_loop_invariant[OF assms(1),
      where P = "\<lambda>x y. benchmark_flag x \<and> Delta_t x = Delta_t s \<and> loss_AB y = loss_AB l
                   \<and> diff_AB y = diff_AB l"
      and R = "\<lambda>x y. Delta_t x = Delta_t s \<and> loss_AB y = loss_AB l \<and> diff_AB y = diff_AB l"])
  show "benchmark_flag s \<and> Delta_t s = Delta_t s \<and> loss_AB l = loss_AB l \<and> diff_AB l = diff_AB l"
    using assms(2) by simp
next
  fix x y brk s1 l1
  assume P: "benchmark_flag x \<and> Delta_t x = Delta_t s \<and> loss_AB y = loss_AB l
      \<and> diff_AB y = diff_AB l"
    and it: "cn_iter spsolve Q_in x y = Inr (brk, s1, l1)"
  from cn_iter_benchmark[OF _ it] P
  show "if brk then Delta_t s1 = Delta_t s \<and> loss_AB l1 = loss_AB l \<and> diff_AB l1 = diff_AB l
        else benchmark_flag s1 \<and> Delta_t s1 = Delta_t s \<and> loss_AB l1 = loss_AB l
          \<and> diff_AB l1 = diff_AB l"
    by simp
next
  fix x y
  assume "benchmark_flag x \<and> Delta_t x = Delta_t s \<and> loss_AB y = loss_AB l
      \<and> diff_AB y = diff_AB l"
  then show "Delta_t x = Delta_t s \<and> loss_AB y = loss_AB l \<and> diff_AB y = diff_AB l" by simp
qed

lemma cn_2D_benchmark:
  assumes "cn_2D spsolve s Q_in = Inr (res, s', l')" "benchmark_flag s"
  shows "Delta_t s' = Delta_t s"
proof -
  from cn_2D_result[OF assms(1)] obtain s0 l0 s1 where i: "cn_init s Q_in = Inr (s0, l0)"
    and lp: "cn_loop spsolve Q_in s0 l0 = Inr (s1, l')"
    and s': "s' = s1\<lparr>electrons := Some (psi l')\<rparr>" by blast
  from cn_init_result(5)[OF i] assms(2) have "benchmark_flag s0" "Delta_t s0 = Delta_t s"
    by (auto split: if_splits)
  with cn_loop_benchmark[OF lp] s' show ?thesis by simp
qed

text \<open>
  C10.  When the object was built with the benchmark flag, whatever its \<^verbatim>\<open>const_Delta_t\<close>
  flag, a call that returns leaves \<^verbatim>\<open>const_Delta_t\<close> set, and its time step is still the
  initial one: the minimum of the time scales of the active effects (the loss time scale
  when \<^verbatim>\<open>lossOnly\<close>, else the smaller of loss and diffusion), times 0.5 when both effects
  are active, times 0.1.  In a benchmark run the switching block never changes the object,
  the inner counter or the matrices: the reduction branch is not taken.
\<close>

theorem benchmark_forces_constant_step:
  assumes "benchmark_flag s" and "solveElectrons spsolve u s a = Inr (res, s', l')"
  shows "const_Delta_t s'
     \<and> (\<exists>loss_min diff_min.
           np_min (concat (loss_ts s')) = Inr loss_min
         \<and> np_min (concat (diff_ts s')) = Inr diff_min
         \<and> Delta_t s' = (if lossOnly a then loss_min else min2 loss_min diff_min)
                         * (if lossOnly a then Fin 1 else Fin (1 / 2)) * Fin (1 / 10))
     \<and> (\<forall>x y brk x' y'. benchmark_flag x \<and> switching x y = Inr (brk, x', y')
          \<longrightarrow> x' = x \<and> t_part y' = t_part y \<and> loss_AB y' = loss_AB y \<and> diff_AB y' = diff_AB y)"
proof (intro conjI allI impI)
  from solveElectrons_result[OF assms(2)] obtain s1 s2 psi_end where
    f: "setup_fields u (setup_grid u s a) a = Inr s1" and st: "setup_steps u s1 a = Inr s2"
    and cn: "cn_2D spsolve s2 (Q s2) = Inr (psi_end, s', l')" by blast
  from setup_fields_result[OF f] obtain q d dd bb where
    s1: "s1 = (setup_grid u s a)\<lparr>Q := q, D := d, dDdr := dd, b := bb\<rparr>" by blast
  then have b1: "benchmark_flag s1" and e1: "effect s1 = (if lossOnly a then Loss else All)"
    using assms(1) by simp_all
  from setup_steps_result[OF st] obtain lts lmin dmin where
    lm: "np_min (concat lts) = Inr lmin"
    and dm: "np_min (concat (map (map (\<lambda>Dc. np_pow (r_grid s1 ! 1 - r_grid s1 ! 0) (Fin 2) / Dc))
              (D s1))) = Inr dmin"
    and s2: "s2 = steps_state u s1 a lts
        (map (map (\<lambda>Dc. np_pow (r_grid s1 ! 1 - r_grid s1 ! 0) (Fin 2) / Dc)) (D s1)) lmin dmin"
    by blast
  from cn_2D_scheme[OF cn] obtain dt sn e where
    s': "s' = s2\<lparr>Delta_t := dt, snapshots := sn, electrons := e\<rparr>" by blast
  have b2: "benchmark_flag s2" unfolding s2 steps_state_sel by (rule b1)
  have dt: "Delta_t s' = Delta_t s2" by (rule cn_2D_benchmark[OF cn b2])
  show "const_Delta_t s'" unfolding s' s2 using b1 by (simp add: steps_state_sel)
  have "Delta_t s' = (if lossOnly a then lmin else min2 lmin dmin)
                         * (if lossOnly a then Fin 1 else Fin (1 / 2)) * Fin (1 / 10)"
    unfolding dt s2 steps_state_benchmark[OF b1] e1 by simp
  moreover have "loss_ts s' = lts" unfolding s' s2 by (simp add: steps_state_sel)
  moreover have "diff_ts s' =
      map (map (\<lambda>Dc. np_pow (r_grid s1 ! 1 - r_grid s1 ! 0) (Fin 2) / Dc)) (D s1)"
    unfolding s' s2 by (simp add: steps_state_sel)
  ultimately show "\<exists>loss_min diff_min.
           np_min (concat (loss_ts s')) = Inr loss_min
         \<and> np_min (concat (diff_ts s')) = Inr diff_min
         \<and> Delta_t s' = (if lossOnly a then loss_min else min2 loss_min diff_min)
                         * (if lossOnly a then Fin 1 else Fin (1 / 2)) * Fin (1 / 10)"
    using lm dm by simp
next
  fix x y brk x' y'
  assume a: "benchmark_flag x \<and> switching x y = Inr (brk, x', y')"
  then have sw: "switching x y = Inr (brk, x', y')" and bf: "benchmark_flag x" by simp_all
  from switching_cases[OF sw] bf
  have c: "x' = x" "y' = y \<or> y' = y\<lparr>convergence_check := True\<rparr>" by auto
  show "x' = x" by (rule c(1))
  from c(2) show "t_part y' = t_part y" by auto
  from c(2) show "loss_AB y' = loss_AB y" by auto
  from c(2) show "diff_AB y' = diff_AB y" by auto
qed

theorem benchmark_forces_constant_step_witness:
  "case solveElectrons thomas ex_units (init_scheme True False False) ex_args of
     Inl e \<Rightarrow> False
   | Inr (res, s', l') \<Rightarrow> const_Delta_t s'"
proof -
  from solveElectrons_ok[OF valid_ex_args solver_ok_thomas] obtain res s' l' where
    r: "solveElectrons thomas ex_units (init_scheme True False False) ex_args = Inr (res, s', l')"
    by blast
  have "benchmark_flag (init_scheme True False False)" by (simp add: init_scheme_def)
  from benchmark_forces_constant_step[OF this r] r show ?thesis by simp
qed

subsection \<open>The loss rate\<close>

lemma np_mul_right_commute: "np_mul (np_mul x y) w = np_mul (np_mul x w) y"
  by (cases x; cases y; cases w)
     (auto simp: signed_inf_def zero_less_mult_iff mult_less_0_iff split: if_splits)

text \<open>
  C8.  For arguments of valid shapes, the loss rate that \<^verbatim>\<open>solveElectrons\<close> stores for
  radius \<open>i\<close> and energy \<open>j\<close> is
  \<open>c_IC E\<^sub>j\<^sup>2 + c_sync B\<^sub>i\<^sup>2 E\<^sub>j\<^sup>2 + c_Coul n\<^sub>i (1 + ln (E\<^sub>j / (m_e n\<^sub>i)) / 75) + c_brem n\<^sub>i E\<^sub>j\<close>
  with \<open>c_IC = 6.08e-16 + 0.25e-16 (1 + z)\<^sup>4\<close>, \<open>c_sync = 0.0254e-16\<close>, \<open>c_Coul = 6.13e-16\<close>,
  \<open>c_brem = 4.7e-16\<close> and \<open>m_e = 0.511e-3\<close>, in the arithmetic of \<open>npfloat\<close>.
\<close>

theorem set_b_formula:
  assumes "valid_args a" and "setup_fields u (setup_grid u s a) a = Inr s1"
    and "i < length (r_sample a)" and "j < length (E_sample a)"
  shows "at2 (b s1) i j =
       (Fin (608 / 10 ^ 18) + Fin (25 / 10 ^ 18) * np_pow (Fin 1 + z a) (Fin 4))
         * np_pow (E_sample a ! j) (Fin 2)
     + Fin (254 / 10 ^ 20) * np_pow (b_sample a ! i) (Fin 2) * np_pow (E_sample a ! j) (Fin 2)
     + Fin (613 / 10 ^ 18) * ne_sample a ! i
         * (Fin 1 + np_log (E_sample a ! j / (Fin (511 / 10 ^ 6) * ne_sample a ! i)) / Fin 75)
     + Fin (47 / 10 ^ 17) * ne_sample a ! i * E_sample a ! j"
proof -
  from setup_fields_ok[OF assms(1), of "setup_grid u s a" u] assms(2)
  have "b s1 = tabulate2 (length (r_sample a)) (length (E_sample a))
      (\<lambda>i j. b_cell (constants (setup_grid u s a)) (b_sample a ! i) (ne_sample a ! i)
                (E_sample a ! j))"
    by auto
  with assms(3,4) have "at2 (b s1) i j =
      b_cell (constants (setup_grid u s a)) (b_sample a ! i) (ne_sample a ! i) (E_sample a ! j)"
    by (simp add: at2_def)
  also have "\<dots> =
       (Fin (608 / 10 ^ 18) + Fin (25 / 10 ^ 18) * np_pow (Fin 1 + z a) (Fin 4))
         * np_pow (E_sample a ! j) (Fin 2)
     + Fin (254 / 10 ^ 20) * np_pow (b_sample a ! i) (Fin 2) * np_pow (E_sample a ! j) (Fin 2)
     + Fin (613 / 10 ^ 18) * ne_sample a ! i
         * (Fin 1 + np_log (E_sample a ! j / (Fin (511 / 10 ^ 6) * ne_sample a ! i)) / Fin 75)
     + Fin (47 / 10 ^ 17) * ne_sample a ! i * E_sample a ! j"
    unfolding b_cell_def setup_grid_sel me_def
    by (simp add: np_mul_right_commute[of _ "np_pow (b_sample a ! i) (Fin 2)"])
  finally show ?thesis .
qed

lemma valid_ex_args_gas: "valid_args ex_args_gas"
  by (simp add: valid_args_def ex_args_gas_def ex_args_def)

theorem set_b_formula_witness:
  "case setup_fields ex_units (setup_grid ex_units (init_scheme False False False) ex_args_gas)
          ex_args_gas of
     Inl e \<Rightarrow> False
   | Inr s1 \<Rightarrow>
       at2 (b s1) 0 0 =
         Fin (608 / 10 ^ 18 + 25 / 10 ^ 18 + 254 / 10 ^ 20
              + 613 / 10 ^ 18 * (1 + ln (10 ^ 6 / 511) / 75) + 47 / 10 ^ 17)"
proof -
  let ?s0 = "setup_grid ex_units (init_scheme False False False) ex_args_gas"
  from setup_fields_ok[OF valid_ex_args_gas, of ?s0 ex_units] obtain s1 where
    f: "setup_fields ex_units ?s0 ex_args_gas = Inr s1" by auto
  have "at2 (b s1) 0 0 =
         Fin (608 / 10 ^ 18 + 25 / 10 ^ 18 + 254 / 10 ^ 20
              + 613 / 10 ^ 18 * (1 + ln (10 ^ 6 / 511) / 75) + 47 / 10 ^ 17)"
    unfolding set_b_formula[OF valid_ex_args_gas f, of 0 0, simplified ex_args_gas_def ex_args_def, simplified]
    by (simp add: ex_args_gas_def ex_args_def)
  with f show ?thesis by simp
qed

subsection \<open>The source term\<close>

lemma flat_index_less:
  assumes "i < (I::nat)" "j < J"
  shows "i * J + j < I * J"
proof -
  have "i * J + j < i * J + J" using assms(2) by simp
  also have "\<dots> = Suc i * J" by simp
  also have "\<dots> \<le> I * J" using assms(1) by (intro mult_le_mono1) simp
  finally show ?thesis .
qed

lemma flatten_C_nth:
  "rect I J m \<Longrightarrow> i < I \<Longrightarrow> j < J \<Longrightarrow> flatten_C m ! (i * J + j) = at2 m i j"
  by (simp add: flatten_C_def at2_def concat_nth_rect)

lemma flatten_F_nth:
  assumes "rect I J m" "i < I" "j < J"
  shows "flatten_F m ! (j * I + i) = at2 m i j"
proof -
  from assms(2) have I: "0 < I" by simp
  from concat_nth_rect[OF rect_np_transpose[OF assms(1) I] assms(3,2)]
  show ?thesis
    by (simp add: flatten_F_def at2_def np_transpose_nth[OF assms])
qed

lemma half_step_result:
  assumes "half_step spsolve (Some (A_mat, B_mat)) x q dt = Inr v"
    and "length x = sp_dim B_mat" and "length q = sp_dim B_mat"
  shows "\<exists>Bx rhs. sp_dot B_mat x = Inr Bx \<and> length rhs = sp_dim B_mat
     \<and> (\<forall>k < sp_dim B_mat. rhs ! k = Bx ! k + q ! k * dt) \<and> v = spsolve A_mat rhs"
proof -
  let ?rhs = "map (\<lambda>k. sp_row B_mat x k + q ! k * dt) [0..<sp_dim B_mat]"
  from assms have "v = spsolve A_mat ?rhs"
    by (simp add: half_step_def half_rhs_ok)
  moreover have "sp_dot B_mat x = Inr (map (sp_row B_mat x) [0..<sp_dim B_mat])"
    using assms(2) by (rule sp_dot_ok)
  moreover have "\<forall>k < sp_dim B_mat. ?rhs ! k = map (sp_row B_mat x) [0..<sp_dim B_mat] ! k + q ! k * dt"
    by simp
  moreover have "length ?rhs = sp_dim B_mat" by simp
  ultimately show ?thesis by blast
qed

text \<open>
  C4.  With all effects active, an iteration that completes adds the source with the
  full weight \<open>\<Delta>t\<close> to the right-hand side of both half-steps: component \<open>i N_E + j\<close> of
  the energy system is \<open>(B_E \<psi>)\<close> at that component plus \<open>Q\<^sub>i\<^sub>j \<Delta>t\<close> (row-major order), and
  component \<open>j N_r + i\<close> of the radial system is \<open>(B_r \<psi>\<^sub>1)\<close> at that component plus
  \<open>Q\<^sub>i\<^sub>j \<Delta>t\<close> (column-major order), \<open>\<psi>\<^sub>1\<close> being the result of the energy half-step.
\<close>

theorem source_in_both_half_steps:
  assumes "effect s = All"
    and "loss_AB l = Some (A_E, B_E)" and "diff_AB l = Some (A_r, B_r)"
    and "sp_dim B_E = r_bins s * E_bins s" and "sp_dim B_r = r_bins s * E_bins s"
    and "rect (r_bins s) (E_bins s) (psi l)" and "rect (r_bins s) (E_bins s) Q_in"
    and "advance spsolve Q_in s l = Inr (s', l')"
  shows "\<exists>Bpsi_E rhs_E psi1 Bpsi_r rhs_r psi2.
       sp_dot B_E (flatten_C (psi l)) = Inr Bpsi_E
     \<and> (\<forall>i < r_bins s. \<forall>j < E_bins s.
           rhs_E ! (i * E_bins s + j) = Bpsi_E ! (i * E_bins s + j) + at2 Q_in i j * Delta_t s)
     \<and> reshape_C (spsolve A_E rhs_E) (r_bins s) (E_bins s) = Inr psi1
     \<and> sp_dot B_r (flatten_F psi1) = Inr Bpsi_r
     \<and> (\<forall>i < r_bins s. \<forall>j < E_bins s.
           rhs_r ! (j * r_bins s + i) = Bpsi_r ! (j * r_bins s + i) + at2 Q_in i j * Delta_t s)
     \<and> reshape_F (spsolve A_r rhs_r) (r_bins s) (E_bins s) = Inr psi2
     \<and> zero_last_row psi2 = Inr (psi l')"
proof -
  let ?I = "r_bins s" and ?J = "E_bins s"
  from advance_keeps(11)[OF assms(8)] advance_keeps(2)[OF assms(8)] have I: "0 < ?I"
    by (simp add: zero_boundary_def)
  from assms(8) obtain v1 psi1 v2 psi2 psi3 where
    h1: "half_step spsolve (Some (A_E, B_E)) (flatten_C (psi l)) (flatten_C Q_in) (Delta_t s) = Inr v1"
    and p1: "reshape_C v1 ?I ?J = Inr psi1"
    and h2: "half_step spsolve (Some (A_r, B_r)) (flatten_F psi1) (flatten_F Q_in) (Delta_t s) = Inr v2"
    and p2: "reshape_F v2 ?I ?J = Inr psi2"
    and p3: "zero_last_row psi2 = Inr psi3" and l': "psi l' = psi3"
    unfolding advance_def Let_def
    by (auto simp: assms(1,2,3) bind_err_def split: sum.splits if_splits option.splits)
  note r1 = reshape_C_rect[OF p1]
  from half_step_result[OF h1] length_flatten_C[OF assms(6)] length_flatten_C[OF assms(7)] assms(4)
  obtain Bx rhs where a: "sp_dot B_E (flatten_C (psi l)) = Inr Bx"
    and ak: "\<forall>k < ?I * ?J. rhs ! k = Bx ! k + flatten_C Q_in ! k * Delta_t s"
    and av: "v1 = spsolve A_E rhs" by auto
  from half_step_result[OF h2] length_flatten_F[OF r1 I] length_flatten_F[OF assms(7) I] assms(5)
  obtain Bx' rhs' where b: "sp_dot B_r (flatten_F psi1) = Inr Bx'"
    and bk: "\<forall>k < ?I * ?J. rhs' ! k = Bx' ! k + flatten_F Q_in ! k * Delta_t s"
    and bv: "v2 = spsolve A_r rhs'" by auto
  have c1: "\<forall>i < ?I. \<forall>j < ?J.
      rhs ! (i * ?J + j) = Bx ! (i * ?J + j) + at2 Q_in i j * Delta_t s"
    using ak flat_index_less[of _ ?I _ ?J] flatten_C_nth[OF assms(7)] by auto
  have "j * ?I + i < ?I * ?J" if "i < ?I" "j < ?J" for i j
    using flat_index_less[OF that(2,1)] by (simp add: mult.commute)
  then have c2: "\<forall>i < ?I. \<forall>j < ?J.
      rhs' ! (j * ?I + i) = Bx' ! (j * ?I + i) + at2 Q_in i j * Delta_t s"
    using bk flatten_F_nth[OF assms(7)] by auto
  from a c1 p1 av b c2 p2 bv p3 l' show ?thesis by blast
qed


theorem source_in_both_half_steps_witness:
  "\<exists>s0 l0 s' l' Bpsi_E rhs_E Bpsi_r rhs_r psi1.
       cn_init ex_cn (Q ex_cn) = Inr (s0, l0)
     \<and> advance thomas (Q ex_cn) s0 l0 = Inr (s', l')
     \<and> sp_dot (snd (the (loss_AB l0))) (flatten_C (psi l0)) = Inr Bpsi_E
     \<and> rhs_E ! 0 = Bpsi_E ! 0 + Fin 10
     \<and> reshape_C (thomas (fst (the (loss_AB l0))) rhs_E) 2 2 = Inr psi1
     \<and> sp_dot (snd (the (diff_AB l0))) (flatten_F psi1) = Inr Bpsi_r
     \<and> rhs_r ! 0 = Bpsi_r ! 0 + Fin 10"
proof -
  from cn_init_ok[OF wf_ex_cn rect_Q_ex_cn] obtain s0 l0 where
    i: "cn_init ex_cn (Q ex_cn) = Inr (s0, l0)" and wf: "wf_state s0 l0"
    and bins: "r_bins s0 = r_bins ex_cn" "E_bins s0 = E_bins ex_cn" by blast
  from cn_init_result(5)[OF i] ex_cn_sel(4)
  have s0: "s0 = ex_cn\<lparr>snapshots := Some [(butlast (psi l0), Delta_t ex_cn)]\<rparr>" by simp
  then have ef: "effect s0 = All" and dt: "Delta_t s0 = Fin 10" by (simp_all add: ex_cn_sel)
  from wf ef obtain A_E B_E A_r B_r where
    m: "loss_AB l0 = Some (A_E, B_E)" "diff_AB l0 = Some (A_r, B_r)"
    and dims: "sp_dim B_E = r_bins s0 * E_bins s0" "sp_dim B_r = r_bins s0 * E_bins s0"
    and rp: "rect (r_bins s0) (E_bins s0) (psi l0)"
    by (auto simp: wf_state_def has_matrices_def split: option.splits)
  have rQ: "rect (r_bins s0) (E_bins s0) (Q ex_cn)" using rect_Q_ex_cn bins by simp
  from advance_ok[OF wf solver_ok_thomas rQ] obtain s' l' where
    adv: "advance thomas (Q ex_cn) s0 l0 = Inr (s', l')" by blast
  from source_in_both_half_steps[OF ef m dims rp rQ adv]
  obtain Bpsi_E rhs_E psi1 Bpsi_r rhs_r where
    a: "sp_dot B_E (flatten_C (psi l0)) = Inr Bpsi_E"
    and b: "\<forall>i < r_bins s0. \<forall>j < E_bins s0.
           rhs_E ! (i * E_bins s0 + j) = Bpsi_E ! (i * E_bins s0 + j)
             + at2 (Q ex_cn) i j * Delta_t s0"
    and c: "reshape_C (thomas A_E rhs_E) (r_bins s0) (E_bins s0) = Inr psi1"
    and d: "sp_dot B_r (flatten_F psi1) = Inr Bpsi_r"
    and e: "\<forall>i < r_bins s0. \<forall>j < E_bins s0.
           rhs_r ! (j * r_bins s0 + i) = Bpsi_r ! (j * r_bins s0 + i)
             + at2 (Q ex_cn) i j * Delta_t s0"
    by blast
  have q: "at2 (Q ex_cn) 0 0 * Delta_t s0 = Fin 10"
    by (simp add: dt ex_cn_sel at2_def)
  have i0: "0 < r_bins s0" "0 < E_bins s0" using bins by (simp_all add: ex_cn_sel)
  from b[rule_format, OF i0]
  have "rhs_E ! (0 * E_bins s0 + 0) = Bpsi_E ! (0 * E_bins s0 + 0)
      + at2 (Q ex_cn) 0 0 * Delta_t s0" .
  then have b0: "rhs_E ! 0 = Bpsi_E ! 0 + Fin 10" unfolding q by simp
  from e[rule_format, OF i0]
  have "rhs_r ! (0 * r_bins s0 + 0) = Bpsi_r ! (0 * r_bins s0 + 0)
      + at2 (Q ex_cn) 0 0 * Delta_t s0" .
  then have e0: "rhs_r ! 0 = Bpsi_r ! 0 + Fin 10" unfolding q by simp
  from c bins have c': "reshape_C (thomas A_E rhs_E) 2 2 = Inr psi1" by (simp add: ex_cn_sel)
  from i adv a b0 c' d e0 m show ?thesis by auto
qed

end
